(* ===== verification/Prelude.thy ===== *)
theory Prelude
  imports Main "HOL-Library.Word"
begin

text \<open>
  Shared ground of the development: the machine types of the interpreter, the result type of
  operations that may throw, the collections of simplification rules, and generic lemmas on
  lists and words that the components use.
\<close>

unbundle bit_operations_syntax

section \<open>Machine types\<close>

type_synonym u8 = "8 word"
type_synonym u32 = "32 word"
type_synonym u64 = "64 word"

text \<open>
  \<open>ti_frame\<close> collects what an operation leaves alone, \<open>ti_len\<close> the length facts of the byte
  and register arrays, \<open>ti_bits\<close> the rewriting of bit fields to \<open>take_bit\<close> and \<open>drop_bit\<close>.
\<close>

named_theorems ti_frame "components an operation does not change"
named_theorems ti_len "lengths of arrays after an update"
named_theorems ti_bits "bit fields as take_bit and drop_bit"

section \<open>Errors and results\<close>

text \<open>
  \<open>ErrorCode\<close> of \<open>execution_state.hpp\<close>. A \<open>SimulationException\<close> is modelled by its code; the
  message text is not.
\<close>

datatype ErrorCode =
    INVALID_INSTRUCTION
  | MEMORY_OUT_OF_BOUNDS
  | MISALIGNED_ACCESS
  | UNSUPPORTED_SYSCALL
  | INCORRECT_BINARY_FILE

text \<open>The exceptions of the program; \<open>std::runtime_error\<close> is what the JIT throws itself.\<close>

datatype Exception = SimulationException ErrorCode | RuntimeError

text \<open>
  The result of a \<open>void\<close> operation on a state: it returns, it throws (the state keeps what was
  written before the throw), or C++ gives it no meaning (a call through a null or dangling
  function pointer).
\<close>

datatype 's outcome = Done 's | Throw Exception 's | Stuck

primrec bind_outcome :: "'s outcome \<Rightarrow> ('s \<Rightarrow> 't outcome) \<Rightarrow> ('s \<Rightarrow> 't) \<Rightarrow> 't outcome" where
  "bind_outcome (Done s) f g = f s"
| "bind_outcome (Throw e s) f g = Throw e (g s)"
| "bind_outcome Stuck f g = Stuck"

text \<open>Sequencing on one state type: \<open>f; g\<close>.\<close>

definition andThen :: "'s outcome \<Rightarrow> ('s \<Rightarrow> 's outcome) \<Rightarrow> 's outcome" where
  "andThen r f = bind_outcome r f id"

lemma andThen_simps [simp]:
  "andThen (Done s) f = f s"
  "andThen (Throw e s) f = Throw e s"
  "andThen Stuck f = Stuck"
  by (simp_all add: andThen_def)

lemma andThen_Done_right [simp]: "andThen r Done = r"
  by (cases r) simp_all

lemma andThen_assoc: "andThen (andThen r f) g = andThen r (\<lambda>s. andThen (f s) g)"
  by (cases r) simp_all

lemma andThen_eq_Done: "andThen r f = Done t \<longleftrightarrow> (\<exists>s. r = Done s \<and> f s = Done t)"
  by (cases r) simp_all

text \<open>Every state an outcome carries.\<close>

primrec holds_in :: "('s \<Rightarrow> bool) \<Rightarrow> 's outcome \<Rightarrow> bool" where
  "holds_in P (Done s) = P s"
| "holds_in P (Throw e s) = P s"
| "holds_in P Stuck = True"

lemma holds_in_andThen:
  "holds_in P r \<Longrightarrow> (\<And>s. P s \<Longrightarrow> holds_in P (f s)) \<Longrightarrow> holds_in P (andThen r f)"
  by (cases r) simp_all

lemma holds_in_mono: "holds_in P r \<Longrightarrow> (\<And>s. P s \<Longrightarrow> Q s) \<Longrightarrow> holds_in Q r"
  by (cases r) simp_all

lemma holds_in_conj: "holds_in P r \<Longrightarrow> holds_in Q r \<Longrightarrow> holds_in (\<lambda>s. P s \<and> Q s) r"
  by (cases r) simp_all

section \<open>Overwriting a stretch of a list\<close>

text \<open>
  \<open>memcpy(data + a, bs, length bs)\<close> on the list of bytes. Writes past the end change nothing;
  every caller checks its bounds first.
\<close>

primrec storeBytes :: "nat \<Rightarrow> 'a list \<Rightarrow> 'a list \<Rightarrow> 'a list" where
  "storeBytes a [] xs = xs"
| "storeBytes a (b # bs) xs = storeBytes (Suc a) bs (xs[a := b])"

lemma length_storeBytes [simp, ti_len]: "length (storeBytes a bs xs) = length xs"
  by (induction bs arbitrary: a xs) simp_all

lemma nth_storeBytes:
  "i < length xs \<Longrightarrow>
     storeBytes a bs xs ! i = (if a \<le> i \<and> i < a + length bs then bs ! (i - a) else xs ! i)"
proof (induction bs arbitrary: a xs)
  case (Cons b bs)
  show ?case
  proof (cases "i = a")
    case True
    then show ?thesis using Cons by simp
  next
    case False
    then show ?thesis using Cons by (auto simp: nth_Cons' Suc_diff_Suc)
  qed
qed auto

lemma nth_storeBytes_inside:
  "a + length bs \<le> length xs \<Longrightarrow> k < length bs \<Longrightarrow> storeBytes a bs xs ! (a + k) = bs ! k"
  by (simp add: nth_storeBytes)

lemma take_drop_storeBytes_same:
  assumes "a + length bs \<le> length xs"
  shows "take (length bs) (drop a (storeBytes a bs xs)) = bs"
  using assms by (auto intro!: nth_equalityI simp: nth_storeBytes)

lemma take_drop_storeBytes_other:
  assumes "c + n \<le> a \<or> a + length bs \<le> c" and "c + n \<le> length xs"
  shows "take n (drop c (storeBytes a bs xs)) = take n (drop c xs)"
  using assms by (auto intro!: nth_equalityI simp: nth_storeBytes)

section \<open>Lemmas on lists and words\<close>

lemma length_takeWhile_less:
  "x \<in> set xs \<Longrightarrow> \<not> P x \<Longrightarrow> length (takeWhile P xs) < length xs"
  by (induction xs) auto

lemma less_mask_bit:
  "(x :: 'a::len word) = take_bit n x \<Longrightarrow> bit x k \<Longrightarrow> k < n"
  by (metis bit_take_bit_iff)

lemma word_small_take_bit:
  assumes "unat (x :: 'a::len word) < 2 ^ n"
  shows "take_bit n x = x"
proof -
  have "unat (take_bit n x) = unat x"
    using assms by (simp add: unsigned_take_bit_eq take_bit_nat_eq_self)
  then show ?thesis by (simp only: word_unat_eq_iff)
qed

lemma unat_take_bit_less: "unat (take_bit n (x :: 'a::len word)) < 2 ^ n"
  by (simp add: unsigned_take_bit_eq)

lemma unat_take_bit_less_numeral:
  "unat (take_bit 5 (x :: u32)) < 32"
  using unat_take_bit_less [of 5 x] by simp

end
