(* ===== verification/BitUtils.thy ===== *)
theory BitUtils
  imports Prelude
begin

text \<open>
  \<open>toy_constants.hpp\<close> and \<open>bitutils.hpp\<close>: masks, bit fields, sign extension and the
  little-endian reading and writing of words. Shift counts are the \<open>uint32_t\<close> arguments of the
  source. Its \<open>assert\<close>s are predicates of their own (\<open>..._asserts\<close>): a release build drops
  them, and outside them a C++ shift has no meaning.
\<close>

section \<open>Constants of namespace TI32\<close>

definition ELF_MACHINE :: "16 word" where
  "ELF_MACHINE = 0x6767"

definition WORD_SIZE :: u32 where
  [simp]: "WORD_SIZE = 4"

definition WORD_BIT_COUNT :: u32 where
  [simp]: "WORD_BIT_COUNT = WORD_SIZE * 8"

definition INSTRUCTION_SIZE :: u32 where
  [simp]: "INSTRUCTION_SIZE = 4"

definition REGISTER_COUNT :: u32 where
  [simp]: "REGISTER_COUNT = 32"

section \<open>Masks and bit fields\<close>

definition makeMask_asserts :: "u32 \<Rightarrow> bool" where
  "makeMask_asserts width \<longleftrightarrow> width \<le> WORD_BIT_COUNT"

definition makeMask :: "u32 \<Rightarrow> u32" where
  "makeMask width =
     (if width = WORD_BIT_COUNT then NOT 0 else push_bit (unat width) 1 - 1)"

definition extractBits_asserts :: "u32 \<Rightarrow> u32 \<Rightarrow> bool" where
  "extractBits_asserts offset width \<longleftrightarrow>
     offset \<le> WORD_BIT_COUNT \<and> width \<le> WORD_BIT_COUNT - offset"

definition extractBits :: "u32 \<Rightarrow> u32 \<Rightarrow> u32 \<Rightarrow> u32" where
  "extractBits w offset width =
     (if offset = WORD_BIT_COUNT then 0
      else drop_bit (unat offset) w AND makeMask width)"

definition signExtend_asserts :: "u32 \<Rightarrow> bool" where
  "signExtend_asserts width \<longleftrightarrow> width \<noteq> 0 \<and> width \<le> WORD_BIT_COUNT"

definition signExtend :: "u32 \<Rightarrow> u32 \<Rightarrow> u32" where
  "signExtend v width =
     (let m = makeMask width;
          v1 = v AND m
      in if width = WORD_BIT_COUNT then v1
         else let signBit = push_bit (unat (width - 1)) 1
              in if v1 AND signBit \<noteq> 0 then v1 OR NOT m else v1)"

lemma makeMask_eq: "makeMask_asserts width \<Longrightarrow> makeMask width = mask (unat width)"
proof -
  assume "makeMask_asserts width"
  then have "unat width \<le> 32"
    by (simp add: makeMask_asserts_def word_le_nat_alt)
  show ?thesis
  proof (cases "width = 32")
    case True
    then show ?thesis by (simp add: makeMask_def mask_eq_exp_minus_1)
  next
    case False
    then show ?thesis by (simp add: makeMask_def mask_eq_exp_minus_1 push_bit_eq_mult)
  qed
qed

lemma extractBits_eq [ti_bits]:
  assumes "extractBits_asserts offset width"
  shows "extractBits w offset width = take_bit (unat width) (drop_bit (unat offset) w)"
proof (cases "offset = 32")
  case True
  then show ?thesis using assms
    by (simp add: extractBits_def extractBits_asserts_def)
next
  case False
  have "offset \<le> 32" "width \<le> 32 - offset"
    using assms by (simp_all add: extractBits_asserts_def)
  then have "makeMask_asserts width"
    by (auto simp: makeMask_asserts_def word_le_nat_alt unat_sub)
  then show ?thesis using False
    by (simp add: extractBits_def makeMask_eq take_bit_eq_mask)
qed

lemma signExtend_eq [ti_bits]:
  assumes "signExtend_asserts width"
  shows "signExtend v width = signed_take_bit (unat width - 1) v"
proof -
  have w: "width \<noteq> 0" "unat width \<le> 32" "0 < unat width"
    using assms by (auto simp: signExtend_asserts_def word_le_nat_alt unat_gt_0)
  have m: "makeMask width = mask (unat width)"
    using assms by (intro makeMask_eq) (simp add: makeMask_asserts_def signExtend_asserts_def)
  have s: "unat (width - 1) = unat width - 1"
    using w by (simp add: unat_minus_one)
  define k where "k = unat width - 1"
  have k: "unat width = Suc k" "k < 32"
    using w by (simp_all add: k_def)
  have top: "(v AND mask (Suc k)) AND push_bit k 1 \<noteq> 0 \<longleftrightarrow> bit v k"
  proof -
    have "(v AND mask (Suc k)) AND push_bit k 1 \<noteq> 0 \<longleftrightarrow> bit (v AND mask (Suc k)) k"
      by (rule bit_iff_and_push_bit_not_eq_0 [symmetric])
    then show ?thesis using k by (simp add: bit_simps)
  qed
  show ?thesis
  proof (cases "width = 32")
    case True
    then have "makeMask 32 = (mask 32 :: u32)" "k = 31"
      using m k by simp_all
    moreover have "signed_take_bit 31 v = v"
    proof (rule bit_word_eqI)
      fix n assume "n < LENGTH(32)"
      then show "bit (signed_take_bit 31 v) n = bit v n"
        by (cases "n = 31") (auto simp: bit_simps min_def)
    qed
    moreover have "v AND mask 32 = v"
      by (rule bit_word_eqI) (simp add: bit_simps)
    ultimately show ?thesis using True by (simp add: signExtend_def)
  next
    case False
    then have "signExtend v width =
        (if bit v k then (v AND mask (Suc k)) OR NOT (mask (Suc k)) else v AND mask (Suc k))"
      using top by (simp add: signExtend_def m s k k_def [symmetric] Let_def)
    also have "\<dots> = signed_take_bit k v"
      using k by (auto intro!: bit_word_eqI simp: bit_simps min_def less_Suc_eq split: if_splits)
    finally show ?thesis by (simp add: k_def)
  qed
qed

text \<open>
  The result of a sign extension, read as a two's complement number, is the low
  \<open>width\<close> bits of the argument read as one.
\<close>

lemma sint_signExtend:
  assumes "signExtend_asserts width"
  shows "sint (signExtend v width) = signed_take_bit (unat width - 1) (uint v)"
proof -
  have w: "unat width - 1 < 32"
    using assms by (auto simp: signExtend_asserts_def word_le_nat_alt)
  have "sint (signExtend v width) = sint (signed_take_bit (unat width - 1) v)"
    by (simp add: signExtend_eq [OF assms])
  also have "\<dots> = signed_take_bit (unat width - 1) (uint v)"
  proof (rule bit_eqI)
    fix n
    show "bit (sint (signed_take_bit (unat width - 1) v)) n
        = bit (signed_take_bit (unat width - 1) (uint v)) n"
      using w by (cases "31 \<le> n") (auto simp: sint_uint bit_simps min_def split: if_splits)
  qed
  finally show ?thesis .
qed

section \<open>Little-endian words\<close>

text \<open>
  \<open>std::memcpy\<close> between four bytes and a \<open>uint32_t\<close> follows the byte order of the host; on
  a big-endian host the source swaps the bytes. The flag is that byte order.
\<close>

definition word_of_bytes :: "u8 \<Rightarrow> u8 \<Rightarrow> u8 \<Rightarrow> u8 \<Rightarrow> u32" where
  "word_of_bytes b0 b1 b2 b3 =
     ucast b0 OR push_bit 8 (ucast b1) OR push_bit 16 (ucast b2) OR push_bit 24 (ucast b3)"

definition memcpyToWord :: "bool \<Rightarrow> u8 list \<Rightarrow> u32" where
  "memcpyToWord bigEndian data =
     (if bigEndian then word_of_bytes (data ! 3) (data ! 2) (data ! 1) (data ! 0)
      else word_of_bytes (data ! 0) (data ! 1) (data ! 2) (data ! 3))"

definition memcpyFromWord :: "bool \<Rightarrow> u32 \<Rightarrow> u8 list" where
  "memcpyFromWord bigEndian v =
     (let bytes = [ucast v, ucast (drop_bit 8 v), ucast (drop_bit 16 v), ucast (drop_bit 24 v)]
      in if bigEndian then rev bytes else bytes)"

definition builtin_bswap32 :: "u32 \<Rightarrow> u32" where
  "builtin_bswap32 v =
     word_of_bytes (ucast (drop_bit 24 v)) (ucast (drop_bit 16 v)) (ucast (drop_bit 8 v)) (ucast v)"

definition decodeLittleEndianWord :: "bool \<Rightarrow> u8 list \<Rightarrow> u32" where
  "decodeLittleEndianWord bigEndian data =
     (let v = memcpyToWord bigEndian data
      in if bigEndian then builtin_bswap32 v else v)"

definition encodeLittleEndianWord :: "bool \<Rightarrow> u32 \<Rightarrow> u8 list" where
  "encodeLittleEndianWord bigEndian v =
     memcpyFromWord bigEndian (if bigEndian then builtin_bswap32 v else v)"

lemma bit_u8_high: "8 \<le> n \<Longrightarrow> \<not> bit (b :: u8) n"
  by (auto dest: bit_imp_le_length)

lemma word_of_bytes_parts [simp]:
  "ucast (word_of_bytes b0 b1 b2 b3) = b0"
  "ucast (drop_bit 8 (word_of_bytes b0 b1 b2 b3)) = b1"
  "ucast (drop_bit 16 (word_of_bytes b0 b1 b2 b3)) = b2"
  "ucast (drop_bit 24 (word_of_bytes b0 b1 b2 b3)) = b3"
  by (auto intro!: bit_word_eqI simp: word_of_bytes_def bit_simps bit_u8_high)

lemma word_of_bytes_split [simp]:
  "word_of_bytes (ucast v) (ucast (drop_bit 8 v)) (ucast (drop_bit 16 v)) (ucast (drop_bit 24 v)) = v"
proof (rule bit_word_eqI)
  fix n assume "n < LENGTH(32)"
  then consider "n < 8" | "8 \<le> n" "n < 16" | "16 \<le> n" "n < 24" | "24 \<le> n" "n < 32"
    by fastforce
  then show "bit (word_of_bytes (ucast v) (ucast (drop_bit 8 v)) (ucast (drop_bit 16 v))
      (ucast (drop_bit 24 v))) n = bit v n"
    by cases (auto simp: word_of_bytes_def bit_simps)
qed

lemma bswap32_involution [simp]: "builtin_bswap32 (builtin_bswap32 v) = v"
  by (simp add: builtin_bswap32_def)

lemma bswap32_word_of_bytes [simp]:
  "builtin_bswap32 (word_of_bytes b0 b1 b2 b3) = word_of_bytes b3 b2 b1 b0"
  by (simp add: builtin_bswap32_def)

text \<open>The byte order of the host is not observable.\<close>

lemma decodeLittleEndianWord_eq:
  "decodeLittleEndianWord bigEndian data =
     word_of_bytes (data ! 0) (data ! 1) (data ! 2) (data ! 3)"
  by (simp add: decodeLittleEndianWord_def memcpyToWord_def)

lemma encodeLittleEndianWord_eq:
  "encodeLittleEndianWord bigEndian v =
     [ucast v, ucast (drop_bit 8 v), ucast (drop_bit 16 v), ucast (drop_bit 24 v)]"
  by (simp add: encodeLittleEndianWord_def memcpyFromWord_def builtin_bswap32_def)

lemma length_encodeLittleEndianWord [simp, ti_len]:
  "length (encodeLittleEndianWord bigEndian v) = 4"
  by (simp add: encodeLittleEndianWord_eq)

lemma decode_encode_LittleEndianWord [simp]:
  "decodeLittleEndianWord b (encodeLittleEndianWord c v) = v"
  by (simp add: decodeLittleEndianWord_eq encodeLittleEndianWord_eq)

lemma encode_decode_LittleEndianWord:
  assumes "length data = 4"
  shows "encodeLittleEndianWord b (decodeLittleEndianWord c data) = data"
proof -
  have "length data = Suc (Suc (Suc (Suc 0)))"
    using assms by simp
  then obtain b0 b1 b2 b3 where "data = [b0, b1, b2, b3]"
    by (auto simp only: length_Suc_conv length_0_conv)
  then show ?thesis
    by (simp add: decodeLittleEndianWord_eq encodeLittleEndianWord_eq)
qed

section \<open>Properties\<close>

text \<open>A field that lies within the word reads as the number its bits spell, and its sign
  extension as the two's complement number they spell.\<close>

lemma bit_field_values:
  assumes "extractBits_asserts offset width" "signExtend_asserts width"
  shows "uint (extractBits w offset width) = (uint w div 2 ^ unat offset) mod 2 ^ unat width
    \<and> sint (signExtend (extractBits w offset width) width) =
        signed_take_bit (unat width - 1) (uint w div 2 ^ unat offset)"
proof -
  have w: "0 < unat width" using assms(2) by (auto simp: signExtend_asserts_def unat_gt_0)
  have "uint (drop_bit (unat offset) w) = uint w div 2 ^ unat offset"
    unfolding unsigned_drop_bit_eq using uint_lt2p [of w]
    by (simp add: drop_bit_eq_div take_bit_int_eq_self)
  then have u: "uint (extractBits w offset width) = take_bit (unat width) (uint w div 2 ^ unat offset)"
    unfolding extractBits_eq [OF assms(1)] unsigned_take_bit_eq by simp
  moreover have "sint (signExtend (extractBits w offset width) width) =
      signed_take_bit (unat width - 1) (take_bit (unat width) (uint w div 2 ^ unat offset))"
    using sint_signExtend [OF assms(2)] u by simp
  moreover have "signed_take_bit (unat width - 1) (take_bit (unat width) i) = signed_take_bit (unat width - 1) i"
    for i :: int
    using w by (cases "unat width") (simp_all add: signed_take_bit_take_bit)
  ultimately show ?thesis by (simp add: take_bit_eq_mod)
qed

text \<open>Words are stored in little-endian order whatever the byte order of the host, and
  storing and loading are inverse to each other.\<close>

lemma little_endian_roundtrip:
  "encodeLittleEndianWord bigEndian v =
      [ucast v, ucast (drop_bit 8 v), ucast (drop_bit 16 v), ucast (drop_bit 24 v)]
   \<and> decodeLittleEndianWord bigEndian (encodeLittleEndianWord bigEndian' v) = v
   \<and> encodeLittleEndianWord bigEndian (decodeLittleEndianWord bigEndian' [b0, b1, b2, b3]) = [b0, b1, b2, b3]"
  by (intro conjI encodeLittleEndianWord_eq decode_encode_LittleEndianWord
      encode_decode_LittleEndianWord) simp

end
