(* ===== verification/Instruction.thy ===== *)
theory Instruction
  imports BitUtils
begin

text \<open>
  \<open>instruction.hpp\<close>: opcodes, operands and decoded instructions. A threaded handler is a
  function pointer in the source; here it is the name of the function it points to, and
  \<open>None\<close> is the null pointer. \<open>ThreadedExecutor.callHandler\<close> gives the names their code.
\<close>

datatype TIOpcode =
    OP_INVALID | OP_LI | OP_ADD | OP_ADDI | OP_OR | OP_LDreg | OP_ST | OP_STP | OP_BEQ | OP_J
  | OP_CLZ | OP_SSAT | OP_RORI | OP_BEXT | OP_SYSCALL | OP_LDimm | OP_FLUSH

instantiation TIOpcode :: enum
begin

definition enum_TIOpcode :: "TIOpcode list" where
  "enum_TIOpcode =
     [OP_INVALID, OP_LI, OP_ADD, OP_ADDI, OP_OR, OP_LDreg, OP_ST, OP_STP, OP_BEQ, OP_J,
      OP_CLZ, OP_SSAT, OP_RORI, OP_BEXT, OP_SYSCALL, OP_LDimm, OP_FLUSH]"

definition enum_all_TIOpcode :: "(TIOpcode \<Rightarrow> bool) \<Rightarrow> bool" where
  "enum_all_TIOpcode P = list_all P enum_class.enum"

definition enum_ex_TIOpcode :: "(TIOpcode \<Rightarrow> bool) \<Rightarrow> bool" where
  "enum_ex_TIOpcode P = list_ex P enum_class.enum"

instance
proof
  have all: "x \<in> set enum_class.enum" for x :: TIOpcode
    by (cases x) (simp_all add: enum_TIOpcode_def)
  then show "(UNIV :: TIOpcode set) = set enum_class.enum" by auto
  show "distinct (enum_class.enum :: TIOpcode list)" by (simp add: enum_TIOpcode_def)
  show "enum_class.enum_all P \<longleftrightarrow> Ball UNIV P" for P :: "TIOpcode \<Rightarrow> bool"
    using all by (auto simp: enum_all_TIOpcode_def list_all_iff)
  show "enum_class.enum_ex P \<longleftrightarrow> Bex UNIV P" for P :: "TIOpcode \<Rightarrow> bool"
    using all by (auto simp: enum_ex_TIOpcode_def list_ex_iff)
qed

end

datatype OperandType = REGISTER | IMMEDIATE

record Operand =
  Type :: OperandType
  Value :: u32

abbreviation Reg :: "u32 \<Rightarrow> Operand" where
  "Reg r \<equiv> \<lparr>Type = REGISTER, Value = r\<rparr>"

abbreviation Imm :: "u32 \<Rightarrow> Operand" where
  "Imm v \<equiv> \<lparr>Type = IMMEDIATE, Value = v\<rparr>"

datatype TIThreadedHandler =
    threadedLi | threadedAdd | threadedAddi | threadedOr | threadedLdReg | threadedLdImm
  | threadedSt | threadedStp | threadedClz | threadedSsat | threadedRori | threadedBext
  | threadedFlush | threadedBeq | threadedJ | threadedSyscall | threadedInvalid

record TIInstruction =
  OpCode :: TIOpcode
  Operands :: "Operand list"
  ThreadedHandler :: "TIThreadedHandler option"

text \<open>\<open>getThreadedHandler\<close> of \<open>threaded_executor.cpp\<close>.\<close>

fun getThreadedHandler :: "TIOpcode \<Rightarrow> TIThreadedHandler" where
  "getThreadedHandler OP_LI = threadedLi"
| "getThreadedHandler OP_ADD = threadedAdd"
| "getThreadedHandler OP_ADDI = threadedAddi"
| "getThreadedHandler OP_OR = threadedOr"
| "getThreadedHandler OP_LDreg = threadedLdReg"
| "getThreadedHandler OP_ST = threadedSt"
| "getThreadedHandler OP_STP = threadedStp"
| "getThreadedHandler OP_FLUSH = threadedFlush"
| "getThreadedHandler OP_BEQ = threadedBeq"
| "getThreadedHandler OP_J = threadedJ"
| "getThreadedHandler OP_CLZ = threadedClz"
| "getThreadedHandler OP_SSAT = threadedSsat"
| "getThreadedHandler OP_RORI = threadedRori"
| "getThreadedHandler OP_BEXT = threadedBext"
| "getThreadedHandler OP_SYSCALL = threadedSyscall"
| "getThreadedHandler OP_LDimm = threadedLdImm"
| "getThreadedHandler OP_INVALID = threadedInvalid"

section \<open>Well-formed instructions\<close>

text \<open>
  The operands each opcode's handlers index, in order: kinds and number. The \<open>Operands\<close> vector
  and the register array are indexed without a check in the source, so this is what makes
  every access of a handler defined.
\<close>

fun operand_kinds :: "TIOpcode \<Rightarrow> OperandType list" where
  "operand_kinds OP_INVALID = []"
| "operand_kinds OP_LI = [REGISTER, IMMEDIATE]"
| "operand_kinds OP_ADD = [REGISTER, REGISTER, REGISTER]"
| "operand_kinds OP_ADDI = [REGISTER, REGISTER, IMMEDIATE]"
| "operand_kinds OP_OR = [REGISTER, REGISTER, REGISTER]"
| "operand_kinds OP_LDreg = [REGISTER, REGISTER, REGISTER]"
| "operand_kinds OP_ST = [REGISTER, REGISTER, IMMEDIATE]"
| "operand_kinds OP_STP = [REGISTER, REGISTER, REGISTER, IMMEDIATE]"
| "operand_kinds OP_BEQ = [REGISTER, REGISTER, IMMEDIATE]"
| "operand_kinds OP_J = [IMMEDIATE]"
| "operand_kinds OP_CLZ = [REGISTER, REGISTER]"
| "operand_kinds OP_SSAT = [REGISTER, REGISTER, IMMEDIATE]"
| "operand_kinds OP_RORI = [REGISTER, REGISTER, IMMEDIATE]"
| "operand_kinds OP_BEXT = [REGISTER, REGISTER, REGISTER]"
| "operand_kinds OP_SYSCALL = [IMMEDIATE]"
| "operand_kinds OP_LDimm = [REGISTER, REGISTER, IMMEDIATE]"
| "operand_kinds OP_FLUSH = []"

definition wf_operand :: "Operand \<Rightarrow> bool" where
  "wf_operand operand \<longleftrightarrow> (Type operand = REGISTER \<longrightarrow> Value operand < REGISTER_COUNT)"

definition wf_instruction :: "TIInstruction \<Rightarrow> bool" where
  "wf_instruction i \<longleftrightarrow>
     map Type (Operands i) = operand_kinds (OpCode i)
     \<and> list_all wf_operand (Operands i)
     \<and> (OpCode i = OP_RORI \<longrightarrow> Value (Operands i ! 2) < WORD_BIT_COUNT)
     \<and> ThreadedHandler i = Some (getThreadedHandler (OpCode i))"

text \<open>\<open>TIBasicBlockCache::endsBlock\<close> and \<open>updatesPc\<close> of the JIT list the same opcodes.\<close>

fun endsBlock :: "TIOpcode \<Rightarrow> bool" where
  "endsBlock OP_BEQ = True"
| "endsBlock OP_J = True"
| "endsBlock OP_SYSCALL = True"
| "endsBlock OP_INVALID = True"
| "endsBlock OP_FLUSH = True"
| "endsBlock _ = False"

end
