(* ===== verification/Decoder.thy ===== *)
theory Decoder
  imports Instruction
begin

text \<open>
  \<open>decoder.cpp\<close>: the sixteen decode functions, the table of masks and references, and the
  search for the first entry whose fixed bits match.
\<close>

section \<open>Decode functions\<close>

definition instr :: "TIOpcode \<Rightarrow> Operand list \<Rightarrow> TIInstruction" where
  "instr opc ops = \<lparr>OpCode = opc, Operands = ops, ThreadedHandler = None\<rparr>"

definition decodeSt :: "u32 \<Rightarrow> TIInstruction" where
  "decodeSt w =
     (let base = extractBits w 21 5;
          rt = extractBits w 16 5;
          immediate = signExtend (extractBits w 0 14) 14
      in instr OP_ST [Reg rt, Reg base, Imm immediate])"

definition decodeAddi :: "u32 \<Rightarrow> TIInstruction" where
  "decodeAddi w =
     (let rs = extractBits w 21 5;
          rt = extractBits w 16 5;
          immediate = signExtend (extractBits w 0 16) 16
      in instr OP_ADDI [Reg rt, Reg rs, Imm immediate])"

definition decodeOr :: "u32 \<Rightarrow> TIInstruction" where
  "decodeOr w =
     (let rs = extractBits w 21 5;
          rt = extractBits w 16 5;
          rd = extractBits w 11 5
      in instr OP_OR [Reg rd, Reg rs, Reg rt])"

definition decodeLdReg :: "u32 \<Rightarrow> TIInstruction" where
  "decodeLdReg w =
     (let base = extractBits w 21 5;
          rt = extractBits w 16 5;
          rm = extractBits w 0 5
      in instr OP_LDreg [Reg rt, Reg base, Reg rm])"

definition decodeJ :: "u32 \<Rightarrow> TIInstruction" where
  "decodeJ w = instr OP_J [Imm (extractBits w 0 26)]"

definition decodeBeq :: "u32 \<Rightarrow> TIInstruction" where
  "decodeBeq w =
     (let rs = extractBits w 21 5;
          rt = extractBits w 16 5;
          offset = signExtend (extractBits w 0 16) 16
      in instr OP_BEQ [Reg rs, Reg rt, Imm offset])"

definition decodeClz :: "u32 \<Rightarrow> TIInstruction" where
  "decodeClz w = instr OP_CLZ [Reg (extractBits w 21 5), Reg (extractBits w 16 5)]"

definition decodeSsat :: "u32 \<Rightarrow> TIInstruction" where
  "decodeSsat w =
     instr OP_SSAT
       [Reg (extractBits w 21 5), Reg (extractBits w 16 5), Imm (extractBits w 11 5)]"

definition decodeLdImm :: "u32 \<Rightarrow> TIInstruction" where
  "decodeLdImm w =
     (let base = extractBits w 21 5;
          rt = extractBits w 16 5;
          immediate = signExtend (extractBits w 0 14) 14
      in instr OP_LDimm [Reg rt, Reg base, Imm immediate])"

definition decodeAdd :: "u32 \<Rightarrow> TIInstruction" where
  "decodeAdd w =
     instr OP_ADD
       [Reg (extractBits w 11 5), Reg (extractBits w 21 5), Reg (extractBits w 16 5)]"

definition decodeSyscall :: "u32 \<Rightarrow> TIInstruction" where
  "decodeSyscall w = instr OP_SYSCALL [Imm (extractBits w 6 20)]"

definition decodeBext :: "u32 \<Rightarrow> TIInstruction" where
  "decodeBext w =
     instr OP_BEXT
       [Reg (extractBits w 21 5), Reg (extractBits w 16 5), Reg (extractBits w 11 5)]"

definition decodeLi :: "u32 \<Rightarrow> TIInstruction" where
  "decodeLi w =
     instr OP_LI [Reg (extractBits w 16 5), Imm (signExtend (extractBits w 0 16) 16)]"

definition decodeRori :: "u32 \<Rightarrow> TIInstruction" where
  "decodeRori w =
     instr OP_RORI
       [Reg (extractBits w 21 5), Reg (extractBits w 16 5), Imm (extractBits w 11 5)]"

definition decodeStp :: "u32 \<Rightarrow> TIInstruction" where
  "decodeStp w =
     instr OP_STP
       [Reg (extractBits w 16 5), Reg (extractBits w 11 5), Reg (extractBits w 21 5),
        Imm (signExtend (extractBits w 0 11) 11)]"

definition decodeFlush :: "u32 \<Rightarrow> TIInstruction" where
  "decodeFlush w = instr OP_FLUSH []"

section \<open>The table and the search\<close>

record DecodeInfo =
  InfoOpCode :: TIOpcode
  Mask :: u32
  Reference :: u32
  Handler :: "u32 \<Rightarrow> TIInstruction"

definition info :: "TIOpcode \<Rightarrow> u32 \<Rightarrow> u32 \<Rightarrow> (u32 \<Rightarrow> TIInstruction) \<Rightarrow> DecodeInfo" where
  "info opc m r h = \<lparr>InfoOpCode = opc, Mask = m, Reference = r, Handler = h\<rparr>"

definition DecodeVector :: "DecodeInfo list" where
  "DecodeVector =
    [info OP_ST 0xFC00C000 0x80000000 decodeSt,
     info OP_ADDI 0xFC000000 0x5C000000 decodeAddi,
     info OP_OR 0xFC0007FF 0x0000001A decodeOr,
     info OP_LDreg 0xFC00FFE0 0x0C00C000 decodeLdReg,
     info OP_J 0xFC000000 0xFC000000 decodeJ,
     info OP_BEQ 0xFC000000 0x40000000 decodeBeq,
     info OP_CLZ 0xFC00FFFF 0x00000032 decodeClz,
     info OP_SSAT 0xFC0007FF 0x20000000 decodeSsat,
     info OP_LDimm 0xFC00C000 0xCC000000 decodeLdImm,
     info OP_ADD 0xFC0007FF 0x0000000C decodeAdd,
     info OP_SYSCALL 0xFC00003F 0x0000001E decodeSyscall,
     info OP_BEXT 0xFC0007FF 0x00000034 decodeBext,
     info OP_LI 0xFFE00000 0x2C000000 decodeLi,
     info OP_RORI 0xFC0007FF 0x74000000 decodeRori,
     info OP_STP 0xFC000000 0x54000000 decodeStp,
     info OP_FLUSH 0xFC000000 0x98000000 decodeFlush]"

definition matches :: "u32 \<Rightarrow> DecodeInfo \<Rightarrow> bool" where
  "matches w i \<longleftrightarrow> w AND Mask i = Reference i"

fun decode_search :: "DecodeInfo list \<Rightarrow> u32 \<Rightarrow> TIInstruction" where
  "decode_search [] w =
     \<lparr>OpCode = OP_INVALID, Operands = [],
      ThreadedHandler = Some (getThreadedHandler OP_INVALID)\<rparr>"
| "decode_search (i # is) w =
     (if w AND Mask i = Reference i
      then let instruction = Handler i w
           in instruction\<lparr>ThreadedHandler := Some (getThreadedHandler (OpCode instruction))\<rparr>
      else decode_search is w)"

definition decode :: "u32 \<Rightarrow> TIInstruction" where
  "decode w = decode_search DecodeVector w"

section \<open>A table whose entries exclude each other\<close>

text \<open>
  Two entries exclude each other when a bit fixed by both has different values. Then at most
  one entry matches a word, and the order of the table does not matter.
\<close>

definition excludes :: "DecodeInfo \<Rightarrow> DecodeInfo \<Rightarrow> bool" where
  "excludes i j \<longleftrightarrow> Reference i AND (Mask i AND Mask j) \<noteq> Reference j AND (Mask i AND Mask j)"

lemma excludes_not_both: "excludes i j \<Longrightarrow> \<not> (matches w i \<and> matches w j)"
proof
  assume e: "excludes i j" and "matches w i \<and> matches w j"
  then have "Reference i = w AND Mask i" "Reference j = w AND Mask j"
    by (simp_all add: matches_def)
  then have "Reference i AND (Mask i AND Mask j) = Reference j AND (Mask i AND Mask j)"
    by (auto intro!: bit_word_eqI simp: bit_and_iff)
  then show False using e by (simp add: excludes_def)
qed

locale decode_table =
  fixes table :: "DecodeInfo list"
  assumes disjoint: "i < j \<Longrightarrow> j < length table \<Longrightarrow> excludes (table ! i) (table ! j)"
begin

lemma at_most_one:
  assumes "e \<in> set table" "f \<in> set table" "matches w e" "matches w f"
  shows "e = f"
proof -
  obtain i j where "i < length table" "table ! i = e" "j < length table" "table ! j = f"
    using assms(1,2) by (metis in_set_conv_nth)
  then show ?thesis
    using assms(3,4) disjoint excludes_not_both by (metis linorder_neqE_nat)
qed

lemma search_match:
  assumes "e \<in> set table" and "matches w e"
  shows "decode_search table w =
    (Handler e w)\<lparr>ThreadedHandler := Some (getThreadedHandler (OpCode (Handler e w)))\<rparr>"
proof -
  have "decode_search es w =
      (Handler e w)\<lparr>ThreadedHandler := Some (getThreadedHandler (OpCode (Handler e w)))\<rparr>"
    if "set es \<subseteq> set table" "e \<in> set es" for es
    using that
  proof (induction es)
    case (Cons f es)
    show ?case
    proof (cases "matches w f")
      case True
      then have "f = e" using at_most_one [of f e w] Cons.prems assms by auto
      with True show ?thesis by (simp add: matches_def Let_def)
    next
      case False
      then have "e \<in> set es" using Cons.prems assms by auto
      then have "decode_search es w = (Handler e w)
          \<lparr>ThreadedHandler := Some (getThreadedHandler (OpCode (Handler e w)))\<rparr>"
        using Cons by simp
      with False show ?thesis by (simp add: matches_def)
    qed
  qed simp
  then show ?thesis using assms(1) by blast
qed

end

lemma search_no_match:
  "(\<And>e. e \<in> set table \<Longrightarrow> \<not> matches w e) \<Longrightarrow>
     decode_search table w =
       \<lparr>OpCode = OP_INVALID, Operands = [], ThreadedHandler = Some threadedInvalid\<rparr>"
  by (induction table) (auto simp: matches_def)

fun pairwise_excl :: "DecodeInfo list \<Rightarrow> bool" where
  "pairwise_excl [] = True"
| "pairwise_excl (i # is) = (list_all (excludes i) is \<and> pairwise_excl is)"

lemma pairwise_excl_nth:
  "pairwise_excl t \<Longrightarrow> i < j \<Longrightarrow> j < length t \<Longrightarrow> excludes (t ! i) (t ! j)"
proof (induction t arbitrary: i j)
  case (Cons e t)
  then show ?case
    by (cases i; cases j) (auto simp: list_all_length)
qed simp

interpretation toy_isa: decode_table DecodeVector
proof
  have "pairwise_excl DecodeVector"
    by (simp add: DecodeVector_def excludes_def info_def)
  then show "i < j \<Longrightarrow> j < length DecodeVector \<Longrightarrow> excludes (DecodeVector ! i) (DecodeVector ! j)"
    for i j by (rule pairwise_excl_nth)
qed

section \<open>Facts on every decoded instruction\<close>

lemma extractBits_less:
  assumes "extractBits_asserts off width" "unat width < 32"
  shows "unat (extractBits w off width) < 2 ^ unat width"
  using assms by (simp add: ti_bits unsigned_take_bit_eq)

lemma extractBits_5_less:
  "extractBits_asserts off 5 \<Longrightarrow> extractBits w off 5 < 32"
  using extractBits_less [of off 5 w] by (simp add: word_less_nat_alt)

text \<open>The fields the decode functions cut out of a word satisfy the assertions.\<close>

lemma decoder_extract_asserts [simp]:
  "extractBits_asserts 21 5" "extractBits_asserts 16 5" "extractBits_asserts 11 5"
  "extractBits_asserts 0 5" "extractBits_asserts 0 11" "extractBits_asserts 0 14"
  "extractBits_asserts 0 16" "extractBits_asserts 0 26" "extractBits_asserts 6 20"
  by (simp_all add: extractBits_asserts_def)

lemma decoder_signExtend_asserts [simp]:
  "signExtend_asserts 11" "signExtend_asserts 14" "signExtend_asserts 16"
  by (simp_all add: signExtend_asserts_def)

lemmas decode_function_defs =
  decodeSt_def decodeAddi_def decodeOr_def decodeLdReg_def decodeJ_def decodeBeq_def
  decodeClz_def decodeSsat_def decodeLdImm_def decodeAdd_def decodeSyscall_def decodeBext_def
  decodeLi_def decodeRori_def decodeStp_def decodeFlush_def

lemma decode_cases:
  obtains (table) e where "e \<in> set DecodeVector" "matches w e"
      "decode w = (Handler e w)\<lparr>ThreadedHandler := Some (getThreadedHandler (OpCode (Handler e w)))\<rparr>"
  | (none) "\<And>e. e \<in> set DecodeVector \<Longrightarrow> \<not> matches w e"
      "decode w = \<lparr>OpCode = OP_INVALID, Operands = [], ThreadedHandler = Some threadedInvalid\<rparr>"
  using toy_isa.search_match search_no_match [of DecodeVector w] unfolding decode_def by metis

lemma DecodeVector_wf:
  "\<forall>e \<in> set DecodeVector. OpCode (Handler e w) = InfoOpCode e
     \<and> wf_instruction ((Handler e w)\<lparr>ThreadedHandler := Some (getThreadedHandler (InfoOpCode e))\<rparr>)"
  by (simp add: DecodeVector_def info_def decode_function_defs instr_def Let_def
      wf_instruction_def wf_operand_def extractBits_5_less)

lemma decode_wf: "wf_instruction (decode w)"
proof (cases w rule: decode_cases)
  case (table e)
  then show ?thesis using DecodeVector_wf [of w] by simp
next
  case none
  then show ?thesis by (simp add: wf_instruction_def)
qed

lemma decode_opcode:
  assumes "e \<in> set DecodeVector" "matches w e"
  shows "OpCode (decode w) = InfoOpCode e"
  using toy_isa.search_match [OF assms] DecodeVector_wf [of w] assms(1)
  by (simp add: decode_def)

lemma DecodeVector_opcodes:
  "map InfoOpCode DecodeVector =
     [OP_ST, OP_ADDI, OP_OR, OP_LDreg, OP_J, OP_BEQ, OP_CLZ, OP_SSAT, OP_LDimm, OP_ADD,
      OP_SYSCALL, OP_BEXT, OP_LI, OP_RORI, OP_STP, OP_FLUSH]"
  by (simp add: DecodeVector_def info_def)

lemma decode_invalid_iff:
  "OpCode (decode w) = OP_INVALID \<longleftrightarrow> (\<forall>e \<in> set DecodeVector. \<not> matches w e)"
proof (cases w rule: decode_cases)
  case (table e)
  then have "InfoOpCode e \<in> set (map InfoOpCode DecodeVector)" by simp
  then have "InfoOpCode e \<noteq> OP_INVALID" unfolding DecodeVector_opcodes by auto
  with table show ?thesis using decode_opcode [of e w] by auto
next
  case none
  then show ?thesis by simp
qed

section \<open>Properties\<close>

text \<open>C24. Decoding is total, and what it returns can be executed: operand kinds and number fit the
  opcode, register numbers are below 32, rotate amounts below 32, and the handler is the one of
  the opcode. It is INVALID exactly for the words no table entry matches.\<close>

theorem decode_is_executable:
  "wf_instruction (decode w)
   \<and> (OpCode (decode w) = OP_INVALID \<longleftrightarrow> list_all (\<lambda>e. \<not> matches w e) DecodeVector)"
  using decode_wf [of w] decode_invalid_iff [of w] by (simp add: list_all_iff)

lemma decode_search_some:
  "e \<in> set T \<Longrightarrow> matches w e \<Longrightarrow> \<exists>f \<in> set T. matches w f \<and> decode_search T w =
     (Handler f w)\<lparr>ThreadedHandler := Some (getThreadedHandler (OpCode (Handler f w)))\<rparr>"
  by (induction T) (auto simp: matches_def Let_def)

text \<open>The order of the decode table does not matter: any list of its entries decodes every
  word alike, because no word matches two entries.\<close>

lemma decode_any_order:
  assumes "set T = set DecodeVector"
  shows "decode_search T w = decode w"
proof (cases w rule: decode_cases)
  case (table e)
  then obtain f where "f \<in> set T" "matches w f" "decode_search T w =
      (Handler f w)\<lparr>ThreadedHandler := Some (getThreadedHandler (OpCode (Handler f w)))\<rparr>"
    using decode_search_some [of e T w] assms by blast
  moreover have "f = e" using toy_isa.at_most_one calculation(1,2) table(1,2) assms by blast
  ultimately show ?thesis using table(3) by simp
next
  case none
  then show ?thesis using search_no_match [of T w] assms by simp
qed

end
