(* ===== verification/Assembler.thy ===== *)
theory Assembler
  imports Decoder
begin

text \<open>
  The Ruby assembler, \<open>assembler/modules/\<close>: the state that \<open>Section\<close>, \<open>Label\<close>, \<open>Bytes\<close> and the
  instruction methods of a source file build, and the encoder of its instructions. A source file is
  the sequence of calls it makes. Ruby's integers are unbounded, its values carry their class;
  an exception is an \<open>Inl\<close>.
\<close>

section \<open>Ruby values and errors\<close>

datatype ruby_value =
    RInt int
  | RRegister int
  | RSymbol string
  | RString "u8 list"
  | RArray "ruby_value list"
  | ROther string

datatype asm_section = TextSection | DataSection

datatype mnemonic =
    MAdd | MAddi | MOr | MLd | MSt | MBeq | MJ | MClz | MSsat | MSyscall | MBext | MLi | MRori
  | MStp | MFlush

datatype asm_error =
    UnknownSection
  | SectionAlreadyDefined asm_section
  | WrongSection asm_section
  | LabelNotSymbol
  | LabelOutsideSection string
  | LabelRedefined string
  | BytesNotString
  | IncorrectOperandType nat
  | IncorrectOperandCount mnemonic nat
  | RegisterOutOfRange nat
  | ImmediateOutOfRange nat
  | AddressShape nat
  | LdOffsetType nat
  | UnknownLabel string nat
  | TargetNotInText string nat
  | TargetMisaligned nat
  | WriterMissing
  | WriterFailed
  | CannotReadSource

definition attempt :: "'e + 'a \<Rightarrow> ('a \<Rightarrow> 'e + 'b) \<Rightarrow> 'e + 'b" where
  "attempt r f = (case r of Inl e \<Rightarrow> Inl e | Inr x \<Rightarrow> f x)"

lemma attempt_simps [simp]: "attempt (Inl e) f = Inl e" "attempt (Inr x) f = f x"
  by (simp_all add: attempt_def)

lemma attempt_Inr: "attempt r f = Inr y \<longleftrightarrow> (\<exists>x. r = Inr x \<and> f x = Inr y)"
  by (cases r) simp_all

section \<open>The state of the assembler\<close>

record AsmInstruction =
  ins_name :: mnemonic
  ins_operands :: "ruby_value list"
  ins_pc :: int
  ins_line :: nat

record LabelInfo =
  label_section :: asm_section
  label_offset :: int

record AssemblerState =
  current_section :: "asm_section option"
  opened_sections :: "asm_section list"
  text_offset :: int
  asm_labels :: "string \<Rightarrow> LabelInfo option"
  asm_instructions :: "AsmInstruction list"
  asm_data :: "u8 list"

definition ASM_INSTRUCTION_SIZE :: int where
  [simp]: "ASM_INSTRUCTION_SIZE = 4"

definition Assembler_new :: AssemblerState where
  "Assembler_new = \<lparr>current_section = None, opened_sections = [], text_offset = 0,
     asm_labels = (\<lambda>_. None), asm_instructions = [], asm_data = []\<rparr>"

fun section_named :: "ruby_value \<Rightarrow> asm_section option" where
  "section_named (RSymbol s) =
     (if s = ''text'' then Some TextSection else if s = ''data'' then Some DataSection else None)"
| "section_named _ = None"

definition require_section :: "asm_section \<Rightarrow> AssemblerState \<Rightarrow> asm_error + unit" where
  "require_section expected a =
     (if current_section a = Some expected then Inr () else Inl (WrongSection expected))"

definition open_section :: "ruby_value \<Rightarrow> AssemblerState \<Rightarrow> asm_error + AssemblerState" where
  "open_section name a =
     (case section_named name of
        None \<Rightarrow> Inl UnknownSection
      | Some s \<Rightarrow>
          if s \<in> set (opened_sections a) then Inl (SectionAlreadyDefined s)
          else Inr (a\<lparr>opened_sections := s # opened_sections a, current_section := Some s\<rparr>))"

definition define_label :: "string \<Rightarrow> AssemblerState \<Rightarrow> asm_error + AssemblerState" where
  "define_label name a =
     (case current_section a of
        None \<Rightarrow> Inl (LabelOutsideSection name)
      | Some s \<Rightarrow>
          if asm_labels a name \<noteq> None then Inl (LabelRedefined name)
          else let off = (if s = TextSection then text_offset a else int (length (asm_data a)))
               in Inr (a\<lparr>asm_labels := (asm_labels a)(name \<mapsto>
                    \<lparr>label_section = s, label_offset = off\<rparr>)\<rparr>))"

definition make_instruction ::
  "mnemonic \<Rightarrow> ruby_value list \<Rightarrow> nat \<Rightarrow> AssemblerState \<Rightarrow> AssemblerState" where
  "make_instruction name operands line a =
     a\<lparr>asm_instructions := asm_instructions a @
         [\<lparr>ins_name = name, ins_operands = operands, ins_pc = text_offset a, ins_line = line\<rparr>]\<rparr>"

text \<open>The methods a source file calls.\<close>

datatype asm_call =
    CallSection ruby_value
  | CallLabel ruby_value
  | CallBytes ruby_value
  | CallInstruction mnemonic "ruby_value list" nat

definition call_label :: "ruby_value \<Rightarrow> AssemblerState \<Rightarrow> asm_error + AssemblerState" where
  "call_label name a =
     (case name of RSymbol s \<Rightarrow> define_label s a | _ \<Rightarrow> Inl LabelNotSymbol)"

definition call_bytes :: "ruby_value \<Rightarrow> AssemblerState \<Rightarrow> asm_error + AssemblerState" where
  "call_bytes v a =
     attempt (require_section DataSection a) (\<lambda>_.
       case v of RString bs \<Rightarrow> Inr (a\<lparr>asm_data := asm_data a @ bs\<rparr>) | _ \<Rightarrow> Inl BytesNotString)"

definition call_instruction ::
  "mnemonic \<Rightarrow> ruby_value list \<Rightarrow> nat \<Rightarrow> AssemblerState \<Rightarrow> asm_error + AssemblerState" where
  "call_instruction name operands line a =
     attempt (require_section TextSection a) (\<lambda>_.
       let a1 = make_instruction name operands line a
       in Inr (a1\<lparr>text_offset := text_offset a1 + ASM_INSTRUCTION_SIZE\<rparr>))"

fun asm_step :: "asm_call \<Rightarrow> AssemblerState \<Rightarrow> asm_error + AssemblerState" where
  "asm_step (CallSection name) a = open_section name a"
| "asm_step (CallLabel name) a = call_label name a"
| "asm_step (CallBytes v) a = call_bytes v a"
| "asm_step (CallInstruction name operands line) a = call_instruction name operands line a"

fun asm_eval :: "asm_call list \<Rightarrow> AssemblerState \<Rightarrow> asm_error + AssemblerState" where
  "asm_eval [] a = Inr a"
| "asm_eval (call # calls) a = attempt (asm_step call a) (asm_eval calls)"

section \<open>Operands\<close>

definition require_operand_count :: "AsmInstruction \<Rightarrow> nat \<Rightarrow> asm_error + unit" where
  "require_operand_count ins count =
     (if length (ins_operands ins) = count then Inr ()
      else Inl (IncorrectOperandCount (ins_name ins) (ins_line ins)))"

definition register_index :: "ruby_value \<Rightarrow> nat \<Rightarrow> asm_error + int" where
  "register_index register line =
     (case register of
        RRegister n \<Rightarrow> if 0 \<le> n \<and> n < 32 then Inr n else Inl (RegisterOutOfRange line)
      | _ \<Rightarrow> Inl (IncorrectOperandType line))"

definition signed_immediate :: "ruby_value \<Rightarrow> nat \<Rightarrow> nat \<Rightarrow> asm_error + int" where
  "signed_immediate immediate width line =
     (case immediate of
        RInt k \<Rightarrow>
          (let minimum = - (2 ^ (width - 1)); maximum = 2 ^ (width - 1) - 1
           in if minimum \<le> k \<and> k \<le> maximum then Inr (k AND (2 ^ width - 1))
              else Inl (ImmediateOutOfRange line))
      | _ \<Rightarrow> Inl (IncorrectOperandType line))"

definition unsigned_immediate :: "ruby_value \<Rightarrow> nat \<Rightarrow> nat \<Rightarrow> int \<Rightarrow> asm_error + int" where
  "unsigned_immediate immediate width line minimum =
     (case immediate of
        RInt k \<Rightarrow>
          (let maximum = 2 ^ width - 1
           in if minimum \<le> k \<and> k \<le> maximum then Inr k else Inl (ImmediateOutOfRange line))
      | _ \<Rightarrow> Inl (IncorrectOperandType line))"

definition memory_address :: "ruby_value \<Rightarrow> nat \<Rightarrow> nat \<Rightarrow> asm_error + int \<times> int" where
  "memory_address address width line =
     (case address of
        RArray xs \<Rightarrow>
          if length xs \<noteq> 2 then Inl (AddressShape line)
          else attempt (register_index (xs ! 0) line) (\<lambda>base.
               attempt (signed_immediate (xs ! 1) width line) (\<lambda>immediate. Inr (base, immediate)))
      | _ \<Rightarrow> Inl (IncorrectOperandType line))"

definition label_address ::
  "(string \<Rightarrow> LabelInfo option) \<Rightarrow> ruby_value \<Rightarrow> nat \<Rightarrow> asm_error + int" where
  "label_address labels label line =
     (case label of
        RSymbol s \<Rightarrow>
          (case labels s of
             None \<Rightarrow> Inl (UnknownLabel s line)
           | Some lab \<Rightarrow>
               if label_section lab = TextSection then Inr (label_offset lab)
               else Inl (TargetNotInText s line))
      | _ \<Rightarrow> Inl (IncorrectOperandType line))"

definition require_alignment :: "int \<Rightarrow> nat \<Rightarrow> asm_error + unit" where
  "require_alignment address line =
     (if address mod 4 = 0 then Inr () else Inl (TargetMisaligned line))"

definition branch_offset ::
  "(string \<Rightarrow> LabelInfo option) \<Rightarrow> ruby_value \<Rightarrow> AsmInstruction \<Rightarrow> asm_error + int" where
  "branch_offset labels target ins =
     (case target of
        RInt k \<Rightarrow> signed_immediate target 16 (ins_line ins)
      | _ \<Rightarrow>
          attempt (label_address labels target (ins_line ins)) (\<lambda>target_address.
            let byte_offset = target_address - ins_pc ins
            in attempt (require_alignment byte_offset (ins_line ins)) (\<lambda>_.
                 signed_immediate (RInt (byte_offset div 4)) 16 (ins_line ins))))"

section \<open>The encoder\<close>

definition encode_st :: "AsmInstruction \<Rightarrow> asm_error + int" where
  "encode_st ins =
     attempt (require_operand_count ins 2) (\<lambda>_.
       let rt = ins_operands ins ! 0; address = ins_operands ins ! 1; line = ins_line ins in
       attempt (register_index rt line) (\<lambda>rt_index.
       attempt (memory_address address 14 line) (\<lambda>(base_index, immediate).
       Inr (push_bit 26 0x20 OR push_bit 21 base_index OR push_bit 16 rt_index OR immediate))))"

definition encode_addi :: "AsmInstruction \<Rightarrow> asm_error + int" where
  "encode_addi ins =
     attempt (require_operand_count ins 3) (\<lambda>_.
       let rt = ins_operands ins ! 0; rs = ins_operands ins ! 1; immediate = ins_operands ins ! 2; line = ins_line ins in
       attempt (register_index rt line) (\<lambda>rt_index.
       attempt (register_index rs line) (\<lambda>rs_index.
       attempt (signed_immediate immediate 16 line) (\<lambda>encoded_immediate.
       Inr (push_bit 26 0x17 OR push_bit 21 rs_index OR push_bit 16 rt_index OR encoded_immediate)))))"

definition encode_or :: "AsmInstruction \<Rightarrow> asm_error + int" where
  "encode_or ins =
     attempt (require_operand_count ins 3) (\<lambda>_.
       let rd = ins_operands ins ! 0; rs = ins_operands ins ! 1; rt = ins_operands ins ! 2; line = ins_line ins in
       attempt (register_index rd line) (\<lambda>rd_index.
       attempt (register_index rs line) (\<lambda>rs_index.
       attempt (register_index rt line) (\<lambda>rt_index.
       Inr (push_bit 21 rs_index OR push_bit 16 rt_index OR push_bit 11 rd_index OR 0x1A)))))"

definition encode_ld :: "AsmInstruction \<Rightarrow> asm_error + int" where
  "encode_ld ins =
     attempt (require_operand_count ins 2) (\<lambda>_.
       let rt = ins_operands ins ! 0; address = ins_operands ins ! 1; line = ins_line ins in
       attempt (register_index rt line) (\<lambda>rt_index.
         case address of
           RArray xs \<Rightarrow>
             if length xs \<noteq> 2 then Inl (AddressShape line)
             else let base = xs ! 0; off = xs ! 1 in
               attempt (register_index base line) (\<lambda>base_index.
                 case off of
                   RInt k \<Rightarrow>
                     attempt (signed_immediate off 14 line) (\<lambda>immediate.
                       Inr (push_bit 26 0x33 OR push_bit 21 base_index OR push_bit 16 rt_index OR immediate))
                 | RRegister n \<Rightarrow>
                     attempt (register_index off line) (\<lambda>offset_index.
                       Inr (push_bit 26 0x03 OR push_bit 21 base_index OR push_bit 16 rt_index
                         OR push_bit 14 0x03 OR offset_index))
                 | _ \<Rightarrow> Inl (LdOffsetType line))
         | _ \<Rightarrow> Inl (IncorrectOperandType line)))"

definition encode_j :: "(string \<Rightarrow> LabelInfo option) \<Rightarrow> AsmInstruction \<Rightarrow> asm_error + int" where
  "encode_j labels ins =
     attempt (require_operand_count ins 1) (\<lambda>_.
       let target = ins_operands ins ! 0; line = ins_line ins in
       attempt (label_address labels target line) (\<lambda>target_address.
       attempt (require_alignment target_address line) (\<lambda>_.
       attempt (unsigned_immediate (RInt (drop_bit 2 target_address)) 26 line 0) (\<lambda>instruction_index.
       Inr (push_bit 26 0x3F OR instruction_index)))))"

definition encode_beq :: "(string \<Rightarrow> LabelInfo option) \<Rightarrow> AsmInstruction \<Rightarrow> asm_error + int" where
  "encode_beq labels ins =
     attempt (require_operand_count ins 3) (\<lambda>_.
       let rs = ins_operands ins ! 0; rt = ins_operands ins ! 1; target = ins_operands ins ! 2; line = ins_line ins in
       attempt (register_index rs line) (\<lambda>rs_index.
       attempt (register_index rt line) (\<lambda>rt_index.
       attempt (branch_offset labels target ins) (\<lambda>off.
       Inr (push_bit 26 0x10 OR push_bit 21 rs_index OR push_bit 16 rt_index OR off)))))"

definition encode_clz :: "AsmInstruction \<Rightarrow> asm_error + int" where
  "encode_clz ins =
     attempt (require_operand_count ins 2) (\<lambda>_.
       let rd = ins_operands ins ! 0; rs = ins_operands ins ! 1; line = ins_line ins in
       attempt (register_index rd line) (\<lambda>rd_index.
       attempt (register_index rs line) (\<lambda>rs_index.
       Inr (push_bit 21 rd_index OR push_bit 16 rs_index OR 0x32))))"

definition encode_ssat :: "AsmInstruction \<Rightarrow> asm_error + int" where
  "encode_ssat ins =
     attempt (require_operand_count ins 3) (\<lambda>_.
       let rd = ins_operands ins ! 0; rs = ins_operands ins ! 1; immediate = ins_operands ins ! 2; line = ins_line ins in
       attempt (register_index rd line) (\<lambda>rd_index.
       attempt (register_index rs line) (\<lambda>rs_index.
       attempt (unsigned_immediate immediate 5 line 1) (\<lambda>encoded_immediate.
       Inr (push_bit 26 0x08 OR push_bit 21 rd_index OR push_bit 16 rs_index OR push_bit 11 encoded_immediate)))))"

definition encode_add :: "AsmInstruction \<Rightarrow> asm_error + int" where
  "encode_add ins =
     attempt (require_operand_count ins 3) (\<lambda>_.
       let rd = ins_operands ins ! 0; rs = ins_operands ins ! 1; rt = ins_operands ins ! 2; line = ins_line ins in
       attempt (register_index rd line) (\<lambda>rd_index.
       attempt (register_index rs line) (\<lambda>rs_index.
       attempt (register_index rt line) (\<lambda>rt_index.
       Inr (push_bit 21 rs_index OR push_bit 16 rt_index OR push_bit 11 rd_index OR 0x0C)))))"

definition encode_syscall :: "AsmInstruction \<Rightarrow> asm_error + int" where
  "encode_syscall ins =
     attempt (require_operand_count ins 0) (\<lambda>_.
       Inr (0x1E))"

definition encode_flush :: "AsmInstruction \<Rightarrow> asm_error + int" where
  "encode_flush ins =
     attempt (require_operand_count ins 0) (\<lambda>_.
       Inr (push_bit 26 0x26))"

definition encode_bext :: "AsmInstruction \<Rightarrow> asm_error + int" where
  "encode_bext ins =
     attempt (require_operand_count ins 3) (\<lambda>_.
       let rd = ins_operands ins ! 0; rs1 = ins_operands ins ! 1; rs2 = ins_operands ins ! 2; line = ins_line ins in
       attempt (register_index rd line) (\<lambda>rd_index.
       attempt (register_index rs1 line) (\<lambda>rs1_index.
       attempt (register_index rs2 line) (\<lambda>rs2_index.
       Inr (push_bit 21 rd_index OR push_bit 16 rs1_index OR push_bit 11 rs2_index OR 0x34)))))"

definition encode_li :: "AsmInstruction \<Rightarrow> asm_error + int" where
  "encode_li ins =
     attempt (require_operand_count ins 2) (\<lambda>_.
       let rt = ins_operands ins ! 0; immediate = ins_operands ins ! 1; line = ins_line ins in
       attempt (register_index rt line) (\<lambda>rt_index.
       attempt (signed_immediate immediate 16 line) (\<lambda>encoded_immediate.
       Inr (push_bit 26 0x0B OR push_bit 16 rt_index OR encoded_immediate))))"

definition encode_rori :: "AsmInstruction \<Rightarrow> asm_error + int" where
  "encode_rori ins =
     attempt (require_operand_count ins 3) (\<lambda>_.
       let rd = ins_operands ins ! 0; rs = ins_operands ins ! 1; immediate = ins_operands ins ! 2; line = ins_line ins in
       attempt (register_index rd line) (\<lambda>rd_index.
       attempt (register_index rs line) (\<lambda>rs_index.
       attempt (unsigned_immediate immediate 5 line 0) (\<lambda>encoded_immediate.
       Inr (push_bit 26 0x1D OR push_bit 21 rd_index OR push_bit 16 rs_index OR push_bit 11 encoded_immediate)))))"

definition encode_stp :: "AsmInstruction \<Rightarrow> asm_error + int" where
  "encode_stp ins =
     attempt (require_operand_count ins 3) (\<lambda>_.
       let rt1 = ins_operands ins ! 0; rt2 = ins_operands ins ! 1; address = ins_operands ins ! 2; line = ins_line ins in
       attempt (register_index rt1 line) (\<lambda>rt1_index.
       attempt (register_index rt2 line) (\<lambda>rt2_index.
       attempt (memory_address address 11 line) (\<lambda>(base_index, off).
       Inr (push_bit 26 0x15 OR push_bit 21 base_index OR push_bit 16 rt1_index OR push_bit 11 rt2_index OR off)))))"

text \<open>The method for an instruction is found by its name.\<close>

definition encode :: "(string \<Rightarrow> LabelInfo option) \<Rightarrow> AsmInstruction \<Rightarrow> asm_error + int" where
  "encode labels ins =
     (case ins_name ins of
        MAdd \<Rightarrow> encode_add ins
      | MAddi \<Rightarrow> encode_addi ins
      | MOr \<Rightarrow> encode_or ins
      | MLd \<Rightarrow> encode_ld ins
      | MSt \<Rightarrow> encode_st ins
      | MBeq \<Rightarrow> encode_beq labels ins
      | MJ \<Rightarrow> encode_j labels ins
      | MClz \<Rightarrow> encode_clz ins
      | MSsat \<Rightarrow> encode_ssat ins
      | MSyscall \<Rightarrow> encode_syscall ins
      | MBext \<Rightarrow> encode_bext ins
      | MLi \<Rightarrow> encode_li ins
      | MRori \<Rightarrow> encode_rori ins
      | MStp \<Rightarrow> encode_stp ins
      | MFlush \<Rightarrow> encode_flush ins)"

text \<open>The encoder maps over the instructions and stops at the first exception.\<close>

fun encode_all :: "(string \<Rightarrow> LabelInfo option) \<Rightarrow> AsmInstruction list \<Rightarrow> asm_error + int list" where
  "encode_all labels [] = Inr []"
| "encode_all labels (ins # rest) =
     attempt (encode labels ins) (\<lambda>w. attempt (encode_all labels rest) (\<lambda>ws. Inr (w # ws)))"

end
