(* ===== verification/AssemblerCorrect.thy ===== *)
theory AssemblerCorrect
  imports Assembler
begin

text \<open>
  The encoder against the decoder: what an instruction of the assembler means, stated without a
  bit, and that the encoder accepts exactly the instructions with a meaning and the decoder of the
  emulator reads that meaning back.
\<close>

section \<open>Words as fields\<close>

text \<open>Fields from the top of the word down: position, width and value.\<close>

fun pack :: "(nat \<times> nat \<times> u32) list \<Rightarrow> u32" where
  "pack [] = 0"
| "pack ((k, n, v) # fs) = push_bit k v OR pack fs"

fun fields_ok :: "nat \<Rightarrow> (nat \<times> nat \<times> u32) list \<Rightarrow> bool" where
  "fields_ok hi [] = True"
| "fields_ok hi ((k, n, v) # fs) = (k + n \<le> hi \<and> take_bit n v = v \<and> fields_ok k fs)"

fun field_at :: "nat \<Rightarrow> (nat \<times> nat \<times> u32) list \<Rightarrow> u32" where
  "field_at k [] = 0"
| "field_at k ((k', n, v) # fs) = (if k = k' then v else field_at k fs)"

lemma take_bit_same_bit: "take_bit n v = v \<Longrightarrow> bit (v :: u32) i \<Longrightarrow> i < n"
  by (metis bit_take_bit_iff)

lemma pack_high: "fields_ok hi fs \<Longrightarrow> hi \<le> i \<Longrightarrow> \<not> bit (pack fs) i"
proof (induction fs arbitrary: hi)
  case (Cons f fs)
  obtain k n v where f: "f = (k, n, v)" by (cases f)
  then have "\<not> bit (pack fs) i" using Cons.IH [of k] Cons.prems by simp
  moreover have "\<not> bit v (i - k)" using Cons.prems take_bit_same_bit [of n v "i - k"] f by auto
  ultimately show ?case using f by (auto simp: bit_simps)
qed simp

lemma fields_ok_inside: "fields_ok hi fs \<Longrightarrow> (k, n, v) \<in> set fs \<Longrightarrow> k + n \<le> hi"
  by (induction hi fs rule: fields_ok.induct) fastforce+

lemma pack_field:
  "fields_ok hi fs \<Longrightarrow> hi \<le> 32 \<Longrightarrow> (k, n) \<in> set (map (\<lambda>(k, n, v). (k, n)) fs) \<Longrightarrow> 0 < n
     \<Longrightarrow> take_bit n (drop_bit k (pack fs)) = field_at k fs"
proof (induction fs arbitrary: hi)
  case (Cons f fs)
  obtain k1 n1 v1 where f: "f = (k1, n1, v1)" by (cases f)
  show ?case
  proof (cases "k = k1 \<and> n = n1")
    case True
    have "take_bit n (drop_bit k (pack (f # fs))) = v1"
    proof (rule bit_word_eqI)
      fix i assume "i < LENGTH(32)"
      have "\<not> bit (pack fs) (k + i)" using Cons.prems(1) f True by (intro pack_high [of k]) simp_all
      moreover have "bit v1 i \<longrightarrow> i < n" using Cons.prems(1) f True take_bit_same_bit by auto
      ultimately show "bit (take_bit n (drop_bit k (pack (f # fs)))) i = bit v1 i"
        using Cons.prems(1,2) f True by (auto simp: bit_simps)
    qed
    then show ?thesis using f True by simp
  next
    case False
    then have in_fs: "(k, n) \<in> set (map (\<lambda>(k, n, v). (k, n)) fs)" using Cons.prems(3) f by auto
    then have lt: "k + n \<le> k1" using Cons.prems(1) f fields_ok_inside [of k1 fs k n] by auto
    have "take_bit n (drop_bit k (pack (f # fs))) = take_bit n (drop_bit k (pack fs))"
      using lt by (intro bit_word_eqI) (auto simp: bit_simps f)
    moreover have "k \<noteq> k1" using lt Cons.prems(4) by simp
    ultimately show ?thesis using Cons.IH [of k1] Cons.prems in_fs f by simp
  qed
qed simp

lemma and_field_mask: "(w :: u32) AND push_bit k (mask n) = push_bit k (take_bit n (drop_bit k w))"
  by (rule bit_word_eqI) (auto simp: bit_simps)

text \<open>A word matches a table entry when its fixed fields have the values of the reference.\<close>

lemma and_fixed_fields:
  "(w :: u32) AND foldr (\<lambda>(k, n). (OR) (push_bit k (mask n))) ps 0
     = foldr (\<lambda>(k, n). (OR) (push_bit k (take_bit n (drop_bit k w)))) ps 0"
  by (induction ps) (auto simp: bit.conj_disj_distrib and_field_mask)

section \<open>Decoding a packed word\<close>

lemma decode_entry:
  assumes "e \<in> set DecodeVector" "w AND Mask e = Reference e"
  shows "decode w = (Handler e w)\<lparr>ThreadedHandler := Some (getThreadedHandler (OpCode (Handler e w)))\<rparr>"
  using toy_isa.search_match [OF assms(1)] assms(2) by (simp add: decode_def matches_def)

text \<open>The masks as fields.\<close>

lemma masks:
  "(0xFC00C000 :: u32) = push_bit 26 (mask 6) OR push_bit 14 (mask 2)"
  "(0xFC000000 :: u32) = push_bit 26 (mask 6)"
  "(0xFC0007FF :: u32) = push_bit 26 (mask 6) OR mask 11"
  "(0xFC00FFE0 :: u32) = push_bit 26 (mask 6) OR push_bit 14 (mask 2) OR push_bit 5 (mask 9)"
  "(0xFC00FFFF :: u32) = push_bit 26 (mask 6) OR mask 16"
  "(0xFC00003F :: u32) = push_bit 26 (mask 6) OR mask 6"
  "(0xFFE00000 :: u32) = push_bit 26 (mask 6) OR push_bit 21 (mask 5)"
  by (simp_all add: mask_eq_exp_minus_1)

lemma pack_low:
  "fields_ok 32 fs \<Longrightarrow> (0, n) \<in> set (map (\<lambda>(k, n, v). (k, n)) fs) \<Longrightarrow> 0 < n
     \<Longrightarrow> take_bit n (pack fs) = field_at 0 fs"
  using pack_field [of 32 fs 0 n] by simp

text \<open>Every format: the fields of a word, and what the table decodes them to.\<close>

lemmas decode_packed =
  DecodeVector_def info_def decode_function_defs instr_def Let_def ti_bits masks
  bit.conj_disj_distrib and_field_mask pack_field [OF _ order_refl] pack_low
  take_bit_eq_mask [symmetric]

lemma decode_packed_st:
  assumes "take_bit 5 rt = rt" "take_bit 5 base = base" "take_bit 14 imm = imm"
  shows "decode (pack [(26, 6, 0x20), (21, 5, base), (16, 5, rt), (14, 2, 0), (0, 14, imm)]) =
    \<lparr>OpCode = OP_ST, Operands = [Reg rt, Reg base, Imm (signExtend imm 14)], ThreadedHandler = Some threadedSt\<rparr>"
  using assms by (subst decode_entry [of "info OP_ST 0xFC00C000 0x80000000 decodeSt"]) (simp_all add: decode_packed del: pack.simps)

lemma decode_packed_addi:
  assumes "take_bit 5 rs = rs" "take_bit 5 rt = rt" "take_bit 16 imm = imm"
  shows "decode (pack [(26, 6, 0x17), (21, 5, rs), (16, 5, rt), (0, 16, imm)]) =
    \<lparr>OpCode = OP_ADDI, Operands = [Reg rt, Reg rs, Imm (signExtend imm 16)], ThreadedHandler = Some threadedAddi\<rparr>"
  using assms by (subst decode_entry [of "info OP_ADDI 0xFC000000 0x5C000000 decodeAddi"]) (simp_all add: decode_packed del: pack.simps)

lemma decode_packed_or:
  assumes "take_bit 5 rd = rd" "take_bit 5 rs = rs" "take_bit 5 rt = rt"
  shows "decode (pack [(26, 6, 0), (21, 5, rs), (16, 5, rt), (11, 5, rd), (0, 11, 0x1A)]) =
    \<lparr>OpCode = OP_OR, Operands = [Reg rd, Reg rs, Reg rt], ThreadedHandler = Some threadedOr\<rparr>"
  using assms by (subst decode_entry [of "info OP_OR 0xFC0007FF 0x0000001A decodeOr"]) (simp_all add: decode_packed del: pack.simps)

lemma decode_packed_ld_reg:
  assumes "take_bit 5 rt = rt" "take_bit 5 base = base" "take_bit 5 rm = rm"
  shows "decode (pack [(26, 6, 0x03), (21, 5, base), (16, 5, rt), (14, 2, 3), (5, 9, 0), (0, 5, rm)]) =
    \<lparr>OpCode = OP_LDreg, Operands = [Reg rt, Reg base, Reg rm], ThreadedHandler = Some threadedLdReg\<rparr>"
  using assms by (subst decode_entry [of "info OP_LDreg 0xFC00FFE0 0x0C00C000 decodeLdReg"]) (simp_all add: decode_packed del: pack.simps)

lemma decode_packed_j:
  assumes "take_bit 26 target = target"
  shows "decode (pack [(26, 6, 0x3F), (0, 26, target)]) =
    \<lparr>OpCode = OP_J, Operands = [Imm target], ThreadedHandler = Some threadedJ\<rparr>"
  using assms by (subst decode_entry [of "info OP_J 0xFC000000 0xFC000000 decodeJ"]) (simp_all add: decode_packed del: pack.simps)

lemma decode_packed_beq:
  assumes "take_bit 5 rs = rs" "take_bit 5 rt = rt" "take_bit 16 off = off"
  shows "decode (pack [(26, 6, 0x10), (21, 5, rs), (16, 5, rt), (0, 16, off)]) =
    \<lparr>OpCode = OP_BEQ, Operands = [Reg rs, Reg rt, Imm (signExtend off 16)], ThreadedHandler = Some threadedBeq\<rparr>"
  using assms by (subst decode_entry [of "info OP_BEQ 0xFC000000 0x40000000 decodeBeq"]) (simp_all add: decode_packed del: pack.simps)

lemma decode_packed_clz:
  assumes "take_bit 5 rd = rd" "take_bit 5 rs = rs"
  shows "decode (pack [(26, 6, 0), (21, 5, rd), (16, 5, rs), (0, 16, 0x32)]) =
    \<lparr>OpCode = OP_CLZ, Operands = [Reg rd, Reg rs], ThreadedHandler = Some threadedClz\<rparr>"
  using assms by (subst decode_entry [of "info OP_CLZ 0xFC00FFFF 0x00000032 decodeClz"]) (simp_all add: decode_packed del: pack.simps)

lemma decode_packed_ssat:
  assumes "take_bit 5 rd = rd" "take_bit 5 rs = rs" "take_bit 5 imm = imm"
  shows "decode (pack [(26, 6, 0x08), (21, 5, rd), (16, 5, rs), (11, 5, imm), (0, 11, 0)]) =
    \<lparr>OpCode = OP_SSAT, Operands = [Reg rd, Reg rs, Imm imm], ThreadedHandler = Some threadedSsat\<rparr>"
  using assms by (subst decode_entry [of "info OP_SSAT 0xFC0007FF 0x20000000 decodeSsat"]) (simp_all add: decode_packed del: pack.simps)

lemma decode_packed_ld_imm:
  assumes "take_bit 5 rt = rt" "take_bit 5 base = base" "take_bit 14 imm = imm"
  shows "decode (pack [(26, 6, 0x33), (21, 5, base), (16, 5, rt), (14, 2, 0), (0, 14, imm)]) =
    \<lparr>OpCode = OP_LDimm, Operands = [Reg rt, Reg base, Imm (signExtend imm 14)], ThreadedHandler = Some threadedLdImm\<rparr>"
  using assms by (subst decode_entry [of "info OP_LDimm 0xFC00C000 0xCC000000 decodeLdImm"]) (simp_all add: decode_packed del: pack.simps)

lemma decode_packed_add:
  assumes "take_bit 5 rd = rd" "take_bit 5 rs = rs" "take_bit 5 rt = rt"
  shows "decode (pack [(26, 6, 0), (21, 5, rs), (16, 5, rt), (11, 5, rd), (0, 11, 0x0C)]) =
    \<lparr>OpCode = OP_ADD, Operands = [Reg rd, Reg rs, Reg rt], ThreadedHandler = Some threadedAdd\<rparr>"
  using assms by (subst decode_entry [of "info OP_ADD 0xFC0007FF 0x0000000C decodeAdd"]) (simp_all add: decode_packed del: pack.simps)

lemma decode_packed_syscall:
  assumes "take_bit 20 code = code"
  shows "decode (pack [(26, 6, 0), (6, 20, code), (0, 6, 0x1E)]) =
    \<lparr>OpCode = OP_SYSCALL, Operands = [Imm code], ThreadedHandler = Some threadedSyscall\<rparr>"
  using assms by (subst decode_entry [of "info OP_SYSCALL 0xFC00003F 0x0000001E decodeSyscall"]) (simp_all add: decode_packed del: pack.simps)

lemma decode_packed_bext:
  assumes "take_bit 5 rd = rd" "take_bit 5 rs1 = rs1" "take_bit 5 rs2 = rs2"
  shows "decode (pack [(26, 6, 0), (21, 5, rd), (16, 5, rs1), (11, 5, rs2), (0, 11, 0x34)]) =
    \<lparr>OpCode = OP_BEXT, Operands = [Reg rd, Reg rs1, Reg rs2], ThreadedHandler = Some threadedBext\<rparr>"
  using assms by (subst decode_entry [of "info OP_BEXT 0xFC0007FF 0x00000034 decodeBext"]) (simp_all add: decode_packed del: pack.simps)

lemma decode_packed_li:
  assumes "take_bit 5 rt = rt" "take_bit 16 imm = imm"
  shows "decode (pack [(26, 6, 0x0B), (21, 5, 0), (16, 5, rt), (0, 16, imm)]) =
    \<lparr>OpCode = OP_LI, Operands = [Reg rt, Imm (signExtend imm 16)], ThreadedHandler = Some threadedLi\<rparr>"
  using assms by (subst decode_entry [of "info OP_LI 0xFFE00000 0x2C000000 decodeLi"]) (simp_all add: decode_packed del: pack.simps)

lemma decode_packed_rori:
  assumes "take_bit 5 rd = rd" "take_bit 5 rs = rs" "take_bit 5 imm = imm"
  shows "decode (pack [(26, 6, 0x1D), (21, 5, rd), (16, 5, rs), (11, 5, imm), (0, 11, 0)]) =
    \<lparr>OpCode = OP_RORI, Operands = [Reg rd, Reg rs, Imm imm], ThreadedHandler = Some threadedRori\<rparr>"
  using assms by (subst decode_entry [of "info OP_RORI 0xFC0007FF 0x74000000 decodeRori"]) (simp_all add: decode_packed del: pack.simps)

lemma decode_packed_stp:
  assumes "take_bit 5 rt1 = rt1" "take_bit 5 rt2 = rt2" "take_bit 5 base = base" "take_bit 11 off = off"
  shows "decode (pack [(26, 6, 0x15), (21, 5, base), (16, 5, rt1), (11, 5, rt2), (0, 11, off)]) =
    \<lparr>OpCode = OP_STP, Operands = [Reg rt1, Reg rt2, Reg base, Imm (signExtend off 11)], ThreadedHandler = Some threadedStp\<rparr>"
  using assms by (subst decode_entry [of "info OP_STP 0xFC000000 0x54000000 decodeStp"]) (simp_all add: decode_packed del: pack.simps)

lemma decode_packed_flush:
  "decode (pack [(26, 6, 0x26), (0, 26, 0)]) =
    \<lparr>OpCode = OP_FLUSH, Operands = [], ThreadedHandler = Some threadedFlush\<rparr>"
  by (subst decode_entry [of "info OP_FLUSH 0xFC000000 0x98000000 decodeFlush"]) (simp_all add: decode_packed del: pack.simps)

section \<open>What an instruction means\<close>

text \<open>The operands as the decoder knows them.\<close>

fun reg_of :: "ruby_value \<Rightarrow> Operand option" where
  "reg_of (RRegister n) = (if 0 \<le> n \<and> n < 32 then Some (Reg (of_int n)) else None)"
| "reg_of _ = None"

fun signed_of :: "nat \<Rightarrow> ruby_value \<Rightarrow> Operand option" where
  "signed_of width (RInt k) =
     (if - (2 ^ (width - 1)) \<le> k \<and> k < 2 ^ (width - 1) then Some (Imm (of_int k)) else None)"
| "signed_of width _ = None"

fun unsigned_of :: "nat \<Rightarrow> int \<Rightarrow> ruby_value \<Rightarrow> Operand option" where
  "unsigned_of width least (RInt k) =
     (if least \<le> k \<and> k < 2 ^ width then Some (Imm (of_int k)) else None)"
| "unsigned_of width least _ = None"

text \<open>A memory address is an array of a base register and an offset.\<close>

definition address_of :: "nat \<Rightarrow> ruby_value \<Rightarrow> Operand option list" where
  "address_of width address =
     (case address of RArray [base, off] \<Rightarrow> [reg_of base, signed_of width off] | _ \<Rightarrow> [None])"

fun text_label :: "(string \<Rightarrow> LabelInfo option) \<Rightarrow> ruby_value \<Rightarrow> int option" where
  "text_label labels (RSymbol s) =
     (case labels s of
        Some lab \<Rightarrow> if label_section lab = TextSection then Some (label_offset lab) else None
      | None \<Rightarrow> None)"
| "text_label labels _ = None"

text \<open>A jump counts words from address 0, a branch counts words from its own address.\<close>

definition jump_of :: "(string \<Rightarrow> LabelInfo option) \<Rightarrow> ruby_value \<Rightarrow> Operand option" where
  "jump_of labels target =
     (case text_label labels target of
        Some a \<Rightarrow> if a mod 4 = 0 then unsigned_of 26 0 (RInt (a div 4)) else None
      | None \<Rightarrow> None)"

fun branch_of :: "(string \<Rightarrow> LabelInfo option) \<Rightarrow> int \<Rightarrow> ruby_value \<Rightarrow> Operand option" where
  "branch_of labels pc (RInt k) = signed_of 16 (RInt k)"
| "branch_of labels pc target =
     (case text_label labels target of
        Some a \<Rightarrow> if (a - pc) mod 4 = 0 then signed_of 16 (RInt ((a - pc) div 4)) else None
      | None \<Rightarrow> None)"

fun operands_of :: "Operand option list \<Rightarrow> Operand list option" where
  "operands_of [] = Some []"
| "operands_of (None # os) = None"
| "operands_of (Some operand # os) = map_option ((#) operand) (operands_of os)"

lemma operands_of_None: "operands_of os = None \<longleftrightarrow> None \<in> set os"
  by (induction os rule: operands_of.induct) auto

definition instruction_of :: "TIOpcode \<Rightarrow> Operand option list \<Rightarrow> TIInstruction option" where
  "instruction_of opc os = map_option (\<lambda>xs.
     \<lparr>OpCode = opc, Operands = xs, ThreadedHandler = Some (getThreadedHandler opc)\<rparr>) (operands_of os)"

definition meaning_of ::
  "(string \<Rightarrow> LabelInfo option) \<Rightarrow> int \<Rightarrow> mnemonic \<Rightarrow> ruby_value list \<Rightarrow> TIInstruction option" where
  "meaning_of labels pc m os =
     (case m of
        MAdd \<Rightarrow> (case os of [rd, rs, rt] \<Rightarrow> instruction_of OP_ADD [reg_of rd, reg_of rs, reg_of rt] | _ \<Rightarrow> None)
      | MAddi \<Rightarrow> (case os of [rt, rs, imm] \<Rightarrow> instruction_of OP_ADDI [reg_of rt, reg_of rs, signed_of 16 imm] | _ \<Rightarrow> None)
      | MOr \<Rightarrow> (case os of [rd, rs, rt] \<Rightarrow> instruction_of OP_OR [reg_of rd, reg_of rs, reg_of rt] | _ \<Rightarrow> None)
      | MLd \<Rightarrow> (case os of
            [rt, RArray [base, RInt off]] \<Rightarrow>
              instruction_of OP_LDimm [reg_of rt, reg_of base, signed_of 14 (RInt off)]
          | [rt, RArray [base, RRegister off]] \<Rightarrow>
              instruction_of OP_LDreg [reg_of rt, reg_of base, reg_of (RRegister off)]
          | _ \<Rightarrow> None)
      | MSt \<Rightarrow> (case os of
            [rt, address] \<Rightarrow> instruction_of OP_ST (reg_of rt # address_of 14 address)
          | _ \<Rightarrow> None)
      | MStp \<Rightarrow> (case os of
            [rt1, rt2, address] \<Rightarrow>
              instruction_of OP_STP (reg_of rt1 # reg_of rt2 # address_of 11 address)
          | _ \<Rightarrow> None)
      | MBeq \<Rightarrow> (case os of
            [rs, rt, target] \<Rightarrow> instruction_of OP_BEQ [reg_of rs, reg_of rt, branch_of labels pc target]
          | _ \<Rightarrow> None)
      | MJ \<Rightarrow> (case os of [target] \<Rightarrow> instruction_of OP_J [jump_of labels target] | _ \<Rightarrow> None)
      | MClz \<Rightarrow> (case os of [rd, rs] \<Rightarrow> instruction_of OP_CLZ [reg_of rd, reg_of rs] | _ \<Rightarrow> None)
      | MSsat \<Rightarrow> (case os of
            [rd, rs, imm] \<Rightarrow> instruction_of OP_SSAT [reg_of rd, reg_of rs, unsigned_of 5 1 imm] | _ \<Rightarrow> None)
      | MRori \<Rightarrow> (case os of
            [rd, rs, imm] \<Rightarrow> instruction_of OP_RORI [reg_of rd, reg_of rs, unsigned_of 5 0 imm] | _ \<Rightarrow> None)
      | MBext \<Rightarrow> (case os of
            [rd, rs1, rs2] \<Rightarrow> instruction_of OP_BEXT [reg_of rd, reg_of rs1, reg_of rs2] | _ \<Rightarrow> None)
      | MLi \<Rightarrow> (case os of [rt, imm] \<Rightarrow> instruction_of OP_LI [reg_of rt, signed_of 16 imm] | _ \<Rightarrow> None)
      | MSyscall \<Rightarrow> (case os of [] \<Rightarrow> instruction_of OP_SYSCALL [Some (Imm 0)] | _ \<Rightarrow> None)
      | MFlush \<Rightarrow> (case os of [] \<Rightarrow> instruction_of OP_FLUSH [] | _ \<Rightarrow> None))"

definition meaning :: "(string \<Rightarrow> LabelInfo option) \<Rightarrow> AsmInstruction \<Rightarrow> TIInstruction option" where
  "meaning labels ins = meaning_of labels (ins_pc ins) (ins_name ins) (ins_operands ins)"

section \<open>Operands are encoded as they are meant\<close>

lemma register_index_cases:
  obtains (bad) e where "register_index v line = Inl e" "reg_of v = None"
  | (good) n where "register_index v line = Inr n" "0 \<le> n" "n < 32" "reg_of v = Some (Reg (of_int n))"
proof (cases "\<exists>n. v = RRegister n \<and> 0 \<le> n \<and> n < 32")
  case True
  then show ?thesis using good by (auto simp: register_index_def)
next
  case False
  then show ?thesis using bad by (cases v) (auto simp: register_index_def)
qed

text \<open>An immediate that fits is the sign extension of its field.\<close>

lemma signExtend_field:
  assumes "0 < width" "width \<le> 32" "- (2 ^ (width - 1)) \<le> k" "k < 2 ^ (width - 1)"
  shows "signExtend (of_int (take_bit width k)) (of_nat width) = of_int k"
proof -
  have w: "unat (of_nat width :: u32) = width" using assms(2) by (simp add: unat_of_nat take_bit_nat_eq_self)
  then have a: "signExtend_asserts (of_nat width)"
    using assms(1,2) by (auto simp: signExtend_asserts_def word_le_nat_alt simp flip: unat_eq_0)
  have "signed_take_bit (width - 1) k = k" using assms by (simp add: signed_take_bit_int_eq_self_iff)
  moreover have "signed_take_bit (width - 1) (of_int (take_bit width k)) = (of_int (signed_take_bit (width - 1) k) :: u32)"
    using assms(1,2) by (intro bit_word_eqI) (auto simp: bit_simps min_def)
  ultimately have "signed_take_bit (width - 1) (of_int (take_bit width k)) = (of_int k :: u32)" by simp
  then show ?thesis by (simp add: signExtend_eq [OF a] w)
qed

lemma signed_immediate_cases:
  assumes "0 < width" "width \<le> 32"
  obtains (bad) e where "signed_immediate v width line = Inl e" "signed_of width v = None"
  | (good) i where "signed_immediate v width line = Inr i" "0 \<le> i" "i < 2 ^ width"
      "signed_of width v = Some (Imm (signExtend (of_int i) (of_nat width)))"
proof (cases "\<exists>k. v = RInt k \<and> - (2 ^ (width - 1)) \<le> k \<and> k < 2 ^ (width - 1)")
  case True
  then obtain k where k: "v = RInt k" "- (2 ^ (width - 1)) \<le> k" "k < 2 ^ (width - 1)" by blast
  have "k AND (2 ^ width - 1) = take_bit width k" by (simp add: take_bit_eq_mask mask_eq_exp_minus_1)
  moreover have "0 \<le> take_bit width k" "take_bit width k < 2 ^ width" by simp_all
  ultimately show ?thesis
    using good [of "take_bit width k"] k signExtend_field [OF assms k(2,3)]
    by (simp add: signed_immediate_def)
next
  case False
  then show ?thesis using bad by (cases v) (auto simp: signed_immediate_def)
qed

lemma unsigned_immediate_cases:
  assumes "0 \<le> least"
  obtains (bad) e where "unsigned_immediate v width line least = Inl e" "unsigned_of width least v = None"
  | (good) i where "unsigned_immediate v width line least = Inr i" "0 \<le> i" "i < 2 ^ width"
      "unsigned_of width least v = Some (Imm (of_int i))"
proof (cases "\<exists>k. v = RInt k \<and> least \<le> k \<and> k < 2 ^ width")
  case True
  then show ?thesis using good assms by (auto simp: unsigned_immediate_def)
next
  case False
  then show ?thesis using bad by (cases v) (auto simp: unsigned_immediate_def)
qed

lemma label_address_eq:
  "label_address labels v line = Inr a \<longleftrightarrow> text_label labels v = Some a"
  by (cases v) (auto simp: label_address_def split: option.splits)

lemma label_address_cases:
  obtains (bad) e where "label_address labels v line = Inl e" "text_label labels v = None"
  | (good) a where "label_address labels v line = Inr a" "text_label labels v = Some a"
  by (cases "label_address labels v line"; cases "text_label labels v")
    (use label_address_eq [of labels v line] in auto)

lemma branch_offset_cases:
  obtains (bad) e where "branch_offset labels v ins = Inl e" "branch_of labels (ins_pc ins) v = None"
  | (good) i where "branch_offset labels v ins = Inr i" "0 \<le> i" "i < 2 ^ 16"
      "branch_of labels (ins_pc ins) v = Some (Imm (signExtend (of_int i) 16))"
proof (cases "\<exists>k. v = RInt k")
  case True
  then obtain k where "v = RInt k" by blast
  then show ?thesis
    using bad good signed_immediate_cases [of 16 v "ins_line ins"] by (auto simp: branch_offset_def)
next
  case False
  then have b: "branch_of labels (ins_pc ins) v = (case text_label labels v of
      Some a \<Rightarrow> if (a - ins_pc ins) mod 4 = 0 then signed_of 16 (RInt ((a - ins_pc ins) div 4)) else None
    | None \<Rightarrow> None)" by (cases v) auto
  have o: "branch_offset labels v ins = attempt (label_address labels v (ins_line ins)) (\<lambda>target_address.
      let byte_offset = target_address - ins_pc ins
      in attempt (require_alignment byte_offset (ins_line ins)) (\<lambda>_.
           signed_immediate (RInt (byte_offset div 4)) 16 (ins_line ins)))"
    using False by (cases v) (auto simp: branch_offset_def)
  show ?thesis
  proof (cases rule: label_address_cases [of labels v "ins_line ins"])
    case (bad e)
    then show ?thesis using that(1) b o by simp
  next
    case (good a)
    then show ?thesis
      using that b o signed_immediate_cases [of 16 "RInt ((a - ins_pc ins) div 4)" "ins_line ins"]
      by (cases "(a - ins_pc ins) mod 4 = 0") (auto simp: require_alignment_def Let_def)
  qed
qed

lemma memory_address_cases:
  assumes "0 < width" "width \<le> 32"
  obtains (bad) e where "memory_address v width line = Inl e"
      "None \<in> set (address_of width v)"
  | (good) n i where "memory_address v width line = Inr (n, i)"
      "0 \<le> n" "n < 32" "0 \<le> i" "i < 2 ^ width"
      "address_of width v = [Some (Reg (of_int n)), Some (Imm (signExtend (of_int i) (of_nat width)))]"
proof (cases "\<exists>base off. v = RArray [base, off]")
  case True
  then obtain base off where v: "v = RArray [base, off]" by blast
  then have m: "memory_address v width line = attempt (register_index base line) (\<lambda>n.
      attempt (signed_immediate off width line) (\<lambda>i. Inr (n, i)))"
    by (simp add: memory_address_def)
  have a: "address_of width v = [reg_of base, signed_of width off]" by (simp add: v address_of_def)
  show ?thesis
    by (cases rule: register_index_cases [of base line]; cases rule: signed_immediate_cases [OF assms, of off line])
      (use that m a in auto)
next
  case False
  then have "\<exists>e. memory_address v width line = Inl e"
    by (cases v) (auto simp: memory_address_def length_Suc_conv numeral_2_eq_2)
  moreover have "None \<in> set (address_of width v)"
    using False by (auto simp: address_of_def split: ruby_value.splits list.splits)
  ultimately show ?thesis using that(1) by blast
qed

section \<open>The round trip\<close>

text \<open>Integers as words, field by field.\<close>

lemma pack_ints:
  "of_int (x OR y) = (of_int x OR of_int y :: u32)"
  "of_int (push_bit k x) = (push_bit k (of_int x) :: u32)"
  by (simp_all add: of_int_or_eq push_bit_of_int)

lemma field_int: "0 \<le> x \<Longrightarrow> x < 2 ^ n \<Longrightarrow> n \<le> 32 \<Longrightarrow> take_bit n (of_int x :: u32) = of_int x"
  by (simp add: take_bit_of_int take_bit_int_eq_self)

lemma or_fits:
  "0 \<le> x \<Longrightarrow> x < 2 ^ 32 \<Longrightarrow> 0 \<le> y \<Longrightarrow> y < 2 ^ 32 \<Longrightarrow> 0 \<le> x OR y \<and> x OR y < (2 ^ 32 :: int)"
  using OR_upper [of x 32 y] by simp

lemma push_fits:
  "0 \<le> x \<Longrightarrow> x < 2 ^ n \<Longrightarrow> k + n \<le> 32 \<Longrightarrow> 0 \<le> push_bit k x \<and> push_bit k x < (2 ^ 32 :: int)"
proof -
  assume x: "0 \<le> x" "x < 2 ^ n" "k + n \<le> 32"
  then have "x * 2 ^ k < 2 ^ n * 2 ^ k" by simp
  also have "\<dots> \<le> (2 ^ 32 :: int)" using x(3) power_increasing [of "k + n" 32 "2 :: int"] by (simp add: power_add mult.commute)
  finally show ?thesis using x(1) by (simp add: push_bit_eq_mult)
qed

text \<open>The result of the encoder against a meaning.\<close>

definition reads_back :: "asm_error + int \<Rightarrow> TIInstruction option \<Rightarrow> bool" where
  "reads_back r m = (case r of
     Inl e \<Rightarrow> m = None
   | Inr w \<Rightarrow> 0 \<le> w \<and> w < 2 ^ 32 \<and> m = Some (decode (of_int w)))"

lemma reads_back_simps [simp]:
  "reads_back (Inl e) m \<longleftrightarrow> m = None"
  "reads_back (Inr w) m \<longleftrightarrow> 0 \<le> w \<and> w < 2 ^ 32 \<and> m = Some (decode (of_int w))"
  by (simp_all add: reads_back_def)

lemmas decode_words =
  decode_packed_st [unfolded pack.simps, simplified]
  decode_packed_addi [unfolded pack.simps, simplified]
  decode_packed_or [unfolded pack.simps, simplified]
  decode_packed_ld_reg [unfolded pack.simps, simplified]
  decode_packed_j [unfolded pack.simps, simplified]
  decode_packed_beq [unfolded pack.simps, simplified]
  decode_packed_clz [unfolded pack.simps, simplified]
  decode_packed_ssat [unfolded pack.simps, simplified]
  decode_packed_ld_imm [unfolded pack.simps, simplified]
  decode_packed_add [unfolded pack.simps, simplified]
  decode_packed_syscall [of 0, unfolded pack.simps, simplified]
  decode_packed_bext [unfolded pack.simps, simplified]
  decode_packed_li [unfolded pack.simps, simplified]
  decode_packed_rori [unfolded pack.simps, simplified]
  decode_packed_stp [unfolded pack.simps, simplified]
  decode_packed_flush [unfolded pack.simps, simplified]

lemmas encode_defs = encode_def meaning_def meaning_of_def require_operand_count_def instruction_of_def Let_def


lemma fits [simp]:
  "0 \<le> x \<Longrightarrow> x < 32 \<Longrightarrow> k \<le> 27 \<Longrightarrow> 0 \<le> push_bit k x \<and> push_bit k x < (4294967296 :: int)"
  using push_fits [of x 5 k] by simp

lemma or_fits' [simp]:
  "0 \<le> x \<Longrightarrow> x < 4294967296 \<Longrightarrow> 0 \<le> y \<Longrightarrow> y < 4294967296 \<Longrightarrow> x OR y < (4294967296 :: int)"
  using or_fits [of x y] by simp



section \<open>One rule for each kind of operand\<close>

lemma reads_back_count:
  "(length (ins_operands ins) \<noteq> n \<Longrightarrow> m = None) \<Longrightarrow> (length (ins_operands ins) = n \<Longrightarrow> reads_back (f ()) m)
     \<Longrightarrow> reads_back (attempt (require_operand_count ins n) f) m"
  by (simp add: require_operand_count_def)

lemma reads_back_register:
  assumes "reg_of v = None \<Longrightarrow> m = None"
    and "\<And>n. 0 \<le> n \<Longrightarrow> n < 32 \<Longrightarrow> reg_of v = Some (Reg (of_int n)) \<Longrightarrow> reads_back (f n) m"
  shows "reads_back (attempt (register_index v line) f) m"
  by (cases rule: register_index_cases [of v line]) (simp_all add: assms)

lemma reads_back_signed:
  assumes "0 < width" "width \<le> 32" "signed_of width v = None \<Longrightarrow> m = None"
    and "\<And>i. 0 \<le> i \<Longrightarrow> i < 2 ^ width \<Longrightarrow>
      signed_of width v = Some (Imm (signExtend (of_int i) (of_nat width))) \<Longrightarrow> reads_back (f i) m"
  shows "reads_back (attempt (signed_immediate v width line) f) m"
  by (cases rule: signed_immediate_cases [OF assms(1,2), of v line]) (simp_all add: assms(3,4))

lemma reads_back_unsigned:
  assumes "0 \<le> least" "unsigned_of width least v = None \<Longrightarrow> m = None"
    and "\<And>i. 0 \<le> i \<Longrightarrow> i < 2 ^ width \<Longrightarrow> unsigned_of width least v = Some (Imm (of_int i))
      \<Longrightarrow> reads_back (f i) m"
  shows "reads_back (attempt (unsigned_immediate v width line least) f) m"
  by (cases rule: unsigned_immediate_cases [OF assms(1), of v width line]) (simp_all add: assms(2,3))

lemma reads_back_branch:
  assumes "branch_of labels (ins_pc ins) v = None \<Longrightarrow> m = None"
    and "\<And>i. 0 \<le> i \<Longrightarrow> i < 2 ^ 16 \<Longrightarrow>
      branch_of labels (ins_pc ins) v = Some (Imm (signExtend (of_int i) 16)) \<Longrightarrow> reads_back (f i) m"
  shows "reads_back (attempt (branch_offset labels v ins) f) m"
  by (cases rule: branch_offset_cases [of labels v ins]) (simp_all add: assms)

lemma reads_back_address:
  assumes "0 < width" "width \<le> 32"
    and "None \<in> set (address_of width v) \<Longrightarrow> m = None"
    and "\<And>n i. 0 \<le> n \<Longrightarrow> n < 32 \<Longrightarrow> 0 \<le> i \<Longrightarrow> i < 2 ^ width
      \<Longrightarrow> address_of width v = [Some (Reg (of_int n)), Some (Imm (signExtend (of_int i) (of_nat width)))]
      \<Longrightarrow> reads_back (f (n, i)) m"
  shows "reads_back (attempt (memory_address v width line) f) m"
  by (cases rule: memory_address_cases [OF assms(1,2), of v line]) (use assms(3,4) in auto)

lemmas reads_back_rules =
  reads_back_register reads_back_signed reads_back_unsigned reads_back_branch reads_back_address

lemmas length_convs = length_Suc_conv length_0_conv numeral_2_eq_2 numeral_3_eq_3 One_nat_def

lemmas word_simps = decode_words field_int pack_ints instruction_of_def

lemma reads_back_registers:
  assumes "ins_name ins \<in> {MAdd, MOr, MBext, MClz}"
  shows "reads_back (encode labels ins) (meaning labels ins)"
  using assms
  by (auto simp: encode_def encode_add_def encode_or_def encode_bext_def encode_clz_def meaning_def
      meaning_of_def Let_def intro!: reads_back_count split: list.splits)
    (auto simp: length_convs word_simps intro!: reads_back_rules)

lemma reads_back_immediates:
  assumes "ins_name ins \<in> {MAddi, MLi, MSsat, MRori, MBeq}"
  shows "reads_back (encode labels ins) (meaning labels ins)"
  using assms
  by (auto simp: encode_def encode_addi_def encode_li_def encode_ssat_def encode_rori_def encode_beq_def
      meaning_def meaning_of_def Let_def intro!: reads_back_count split: list.splits)
    (auto simp: length_convs word_simps intro!: reads_back_rules)

lemma reads_back_stores:
  assumes "ins_name ins \<in> {MSt, MStp}"
  shows "reads_back (encode labels ins) (meaning labels ins)"
  using assms
  by (auto simp: encode_def encode_st_def encode_stp_def
      meaning_def meaning_of_def Let_def intro!: reads_back_count split: list.splits)
    (auto simp: length_convs word_simps operands_of_None intro!: reads_back_rules)

lemma reads_back_plain:
  assumes "ins_name ins \<in> {MSyscall, MFlush}"
  shows "reads_back (encode labels ins) (meaning labels ins)"
  using assms
  by (auto simp: encode_def encode_syscall_def encode_flush_def
      meaning_def meaning_of_def Let_def word_simps intro!: reads_back_count split: list.splits)

lemma reads_back_jump:
  assumes "ins_name ins = MJ"
  shows "reads_back (encode labels ins) (meaning labels ins)"
proof (cases "\<exists>t. ins_operands ins = [t]")
  case True
  then obtain t where t: "ins_operands ins = [t]" by blast
  show ?thesis
  proof (cases rule: label_address_cases [of labels t "ins_line ins"])
    case (good a)
    show ?thesis
    proof (cases "a mod 4 = 0")
      case True
      have "drop_bit 2 a = a div 4" by (simp add: drop_bit_eq_div)
      then show ?thesis using assms t good True
        by (auto simp: encode_def encode_j_def require_operand_count_def require_alignment_def meaning_def
            meaning_of_def jump_of_def word_simps simp del: unsigned_of.simps intro!: reads_back_unsigned)
    qed (use assms t good in \<open>simp add: encode_def encode_j_def require_operand_count_def
        require_alignment_def meaning_def meaning_of_def jump_of_def instruction_of_def\<close>)
  qed (use assms t in \<open>simp add: encode_def encode_j_def require_operand_count_def
      meaning_def meaning_of_def jump_of_def instruction_of_def\<close>)
qed (use assms in \<open>auto simp: encode_def encode_j_def require_operand_count_def meaning_def meaning_of_def
    length_convs split: list.splits\<close>)

lemma reads_back_load:
  assumes "ins_name ins = MLd"
  shows "reads_back (encode labels ins) (meaning labels ins)"
  using assms
  by (auto simp: encode_def encode_ld_def
      meaning_def meaning_of_def Let_def intro!: reads_back_count split: list.splits)
    (auto simp: length_convs word_simps intro!: reads_back_rules split: ruby_value.splits list.splits)

lemma reads_back_encode: "reads_back (encode labels ins) (meaning labels ins)"
  using reads_back_registers reads_back_immediates reads_back_stores reads_back_plain reads_back_jump
    reads_back_load by (cases "ins_name ins") auto

section \<open>Properties\<close>

text \<open>C6. Assembler and emulator agree on every instruction: the encoder raises exactly for the
  instructions that have no meaning (wrong operands, values out of range, unknown, foreign or
  misaligned targets), and otherwise returns a 32-bit word that the emulator decodes to the
  meaning, operand by operand.\<close>

theorem encoder_and_decoder_agree:
  "case encode labels ins of
     Inl e \<Rightarrow> meaning labels ins = None
   | Inr w \<Rightarrow> 0 \<le> w \<and> w < 2 ^ 32 \<and> meaning labels ins = Some (decode (of_int w))"
  using reads_back_encode [of labels ins] by (simp add: reads_back_def)

text \<open>The vectors of \<open>tests/assembler_tests.rb\<close>.\<close>

definition test_ins :: "mnemonic \<Rightarrow> ruby_value list \<Rightarrow> AsmInstruction" where
  "test_ins m os = \<lparr>ins_name = m, ins_operands = os, ins_pc = 0, ins_line = 1\<rparr>"

definition test_labels :: "string \<Rightarrow> LabelInfo option" where
  "test_labels = [''Target'' \<mapsto> \<lparr>label_section = TextSection, label_offset = 4\<rparr>]"

lemma assembler_test_vectors:
  "encode test_labels (test_ins MSt [RRegister 2, RArray [RRegister 1, RInt (- 4)]]) = Inr 0x80223FFC"
  "encode test_labels (test_ins MAddi [RRegister 2, RRegister 1, RInt (- 7)]) = Inr 0x5C22FFF9"
  "encode test_labels (test_ins MOr [RRegister 3, RRegister 1, RRegister 2]) = Inr 0x0022181A"
  "encode test_labels (test_ins MLd [RRegister 4, RArray [RRegister 1, RRegister 3]]) = Inr 0x0C24C003"
  "encode test_labels (test_ins MJ [RSymbol ''Target'']) = Inr 0xFC000001"
  "encode test_labels (test_ins MBeq [RRegister 1, RRegister 2, RSymbol ''Target'']) = Inr 0x40220001"
  "encode test_labels (test_ins MClz [RRegister 3, RRegister 1]) = Inr 0x00610032"
  "encode test_labels (test_ins MSsat [RRegister 2, RRegister 1, RInt 8]) = Inr 0x20414000"
  "encode test_labels (test_ins MLd [RRegister 3, RArray [RRegister 1, RInt (- 4)]]) = Inr 0xCC233FFC"
  "encode test_labels (test_ins MAdd [RRegister 3, RRegister 1, RRegister 2]) = Inr 0x0022180C"
  "encode test_labels (test_ins MSyscall []) = Inr 0x0000001E"
  "encode test_labels (test_ins MFlush []) = Inr 0x98000000"
  "encode test_labels (test_ins MBext [RRegister 3, RRegister 1, RRegister 2]) = Inr 0x00611034"
  "encode test_labels (test_ins MLi [RRegister 2, RInt (- 1)]) = Inr 0x2C02FFFF"
  "encode test_labels (test_ins MRori [RRegister 2, RRegister 1, RInt 7]) = Inr 0x74413800"
  "encode test_labels (test_ins MStp [RRegister 2, RRegister 3, RArray [RRegister 1, RInt (- 4)]]) = Inr 0x54221FFC"
  by (simp_all add: test_ins_def test_labels_def encode_def require_operand_count_def Let_def
      encode_st_def encode_addi_def encode_or_def encode_ld_def encode_j_def encode_beq_def encode_clz_def
      encode_ssat_def encode_add_def encode_syscall_def encode_flush_def encode_bext_def encode_li_def
      encode_rori_def encode_stp_def register_index_def signed_immediate_def unsigned_immediate_def
      memory_address_def label_address_def require_alignment_def branch_offset_def push_bit_eq_mult
      drop_bit_eq_div)

end
