(* ===== verification/GuestMemory.thy ===== *)
theory GuestMemory
  imports BitUtils
begin

text \<open>
  \<open>memory.hpp\<close>: the guest memory with its bounds and alignment checks, the executable regions
  and the ranges of code written since the last flush. A checked range is its start address and
  size (the pointer of the source is the start inside \<open>Bytes\<close>). \<open>std::size_t\<close> values are
  natural numbers: they are list lengths and sums of a 32-bit address and a byte count.
\<close>

section \<open>State\<close>

record TICodeRange =
  Address :: u32
  Size :: nat

record TIMemory =
  Bytes :: "u8 list"
  ExecutableRegions :: "TICodeRange list"
  DirtyCodeRanges :: "TICodeRange list"

definition TIMemory_new :: "nat \<Rightarrow> TIMemory" where
  "TIMemory_new sizeBytes =
     \<lparr>Bytes = replicate sizeBytes 0, ExecutableRegions = [], DirtyCodeRanges = []\<rparr>"

definition mem_size :: "TIMemory \<Rightarrow> nat" where
  "mem_size m = length (Bytes m)"

section \<open>Checks\<close>

definition checkBounds :: "TIMemory \<Rightarrow> u32 \<Rightarrow> nat \<Rightarrow> ErrorCode + unit" where
  "checkBounds m a byteCount =
     (if unat a > length (Bytes m) \<or> byteCount > length (Bytes m) - unat a
         \<or> byteCount > 2 ^ 32 - unat a
      then Inl MEMORY_OUT_OF_BOUNDS else Inr ())"

definition checkAlignment :: "u32 \<Rightarrow> ErrorCode + unit" where
  "checkAlignment a = (if a mod WORD_SIZE \<noteq> 0 then Inl MISALIGNED_ACCESS else Inr ())"

definition addExecutableRegion :: "TIMemory \<Rightarrow> u32 \<Rightarrow> nat \<Rightarrow> ErrorCode + TIMemory" where
  "addExecutableRegion m a byteCount =
     (case checkBounds m a byteCount of
        Inl e \<Rightarrow> Inl e
      | Inr _ \<Rightarrow> Inr (m\<lparr>ExecutableRegions := ExecutableRegions m @ [\<lparr>Address = a, Size = byteCount\<rparr>]\<rparr>))"

definition takeDirtyCodeRanges :: "TIMemory \<Rightarrow> TICodeRange list \<times> TIMemory" where
  "takeDirtyCodeRanges m = (DirtyCodeRanges m, m\<lparr>DirtyCodeRanges := []\<rparr>)"

section \<open>Ranges\<close>

definition readableRange :: "TIMemory \<Rightarrow> u32 \<Rightarrow> nat \<Rightarrow> ErrorCode + u8 list" where
  "readableRange m a byteCount =
     (case checkBounds m a byteCount of
        Inl e \<Rightarrow> Inl e
      | Inr _ \<Rightarrow> Inr (take byteCount (drop (unat a) (Bytes m))))"

text \<open>
  A writable range is the start of its bytes and its size; the pointer of an empty range is null.
\<close>

record TIMemoryRange =
  Data :: "u32 option"
  DataSize :: nat

definition writableRange :: "TIMemory \<Rightarrow> u32 \<Rightarrow> nat \<Rightarrow> ErrorCode + TIMemoryRange" where
  "writableRange m a byteCount =
     (case checkBounds m a byteCount of
        Inl e \<Rightarrow> Inl e
      | Inr _ \<Rightarrow> Inr \<lparr>Data = (if byteCount = 0 then None else Some a), DataSize = byteCount\<rparr>)"

text \<open>
  A write of bytes through the pointer of a range, from an offset on. The callers write no more
  bytes than the range has, so nothing through a null pointer.
\<close>

definition writeThrough :: "TIMemory \<Rightarrow> TIMemoryRange \<Rightarrow> nat \<Rightarrow> u8 list \<Rightarrow> TIMemory" where
  "writeThrough m rng offset bs =
     (case Data rng of
        None \<Rightarrow> m
      | Some p \<Rightarrow> m\<lparr>Bytes := storeBytes (unat p + offset) bs (Bytes m)\<rparr>)"

section \<open>Words\<close>

definition overlaps :: "nat \<Rightarrow> nat \<Rightarrow> nat \<Rightarrow> nat \<Rightarrow> bool" where
  "overlaps beginA endA beginB endB \<longleftrightarrow> beginA < endB \<and> beginB < endA"

fun hitsRegion :: "nat \<Rightarrow> nat \<Rightarrow> TICodeRange list \<Rightarrow> bool" where
  "hitsRegion writeBegin writeEnd [] = False"
| "hitsRegion writeBegin writeEnd (region # regions) =
     (if overlaps (unat (Address region)) (unat (Address region) + Size region) writeBegin writeEnd
      then True else hitsRegion writeBegin writeEnd regions)"

definition markCodeDirty :: "TIMemory \<Rightarrow> u32 \<Rightarrow> nat \<Rightarrow> TIMemory" where
  "markCodeDirty m a byteCount =
     (if hitsRegion (unat a) (unat a + byteCount) (ExecutableRegions m)
      then m\<lparr>DirtyCodeRanges := DirtyCodeRanges m @ [\<lparr>Address = a, Size = byteCount\<rparr>]\<rparr>
      else m)"

definition read32 :: "TIMemory \<Rightarrow> u32 \<Rightarrow> ErrorCode + u32" where
  "read32 m a =
     (case readableRange m a (unat WORD_SIZE) of
        Inl e \<Rightarrow> Inl e
      | Inr rng \<Rightarrow>
         (case checkAlignment a of
            Inl e \<Rightarrow> Inl e
          | Inr _ \<Rightarrow> Inr (decodeLittleEndianWord False rng)))"

definition write32 :: "TIMemory \<Rightarrow> u32 \<Rightarrow> u32 \<Rightarrow> ErrorCode + TIMemory" where
  "write32 m a v =
     (case writableRange m a (unat WORD_SIZE) of
        Inl e \<Rightarrow> Inl e
      | Inr rng \<Rightarrow>
         (case checkAlignment a of
            Inl e \<Rightarrow> Inl e
          | Inr _ \<Rightarrow>
             Inr (markCodeDirty (writeThrough m rng 0 (encodeLittleEndianWord False v))
                    a (unat WORD_SIZE))))"

section \<open>When an access succeeds\<close>

definition in_bounds :: "TIMemory \<Rightarrow> u32 \<Rightarrow> nat \<Rightarrow> bool" where
  "in_bounds m a n \<longleftrightarrow> unat a + n \<le> length (Bytes m) \<and> unat a + n \<le> 2 ^ 32"

definition aligned :: "u32 \<Rightarrow> bool" where
  "aligned a \<longleftrightarrow> unat a mod 4 = 0"

lemma unat_u32_less: "unat (a :: u32) < 4294967296"
  using unsigned_less [of a] by simp

lemma unat_u32_le: "unat (a :: u32) \<le> 4294967296"
  using unat_u32_less [of a] by simp

lemma checkBounds_eq:
  "checkBounds m a n = (if in_bounds m a n then Inr () else Inl MEMORY_OUT_OF_BOUNDS)"
  using unat_u32_less [of a] by (auto simp: checkBounds_def in_bounds_def)

lemma checkAlignment_eq:
  "checkAlignment a = (if aligned a then Inr () else Inl MISALIGNED_ACCESS)"
proof -
  have "a mod 4 = 0 \<longleftrightarrow> unat a mod 4 = 0"
    by (simp add: word_unat_eq_iff unat_mod_distrib)
  then show ?thesis by (simp add: checkAlignment_def aligned_def)
qed

lemma readableRange_eq:
  "readableRange m a n =
     (if in_bounds m a n then Inr (take n (drop (unat a) (Bytes m))) else Inl MEMORY_OUT_OF_BOUNDS)"
  by (simp add: readableRange_def checkBounds_eq)

lemma writableRange_eq:
  "writableRange m a n =
     (if in_bounds m a n
      then Inr \<lparr>Data = (if n = 0 then None else Some a), DataSize = n\<rparr>
      else Inl MEMORY_OUT_OF_BOUNDS)"
  by (simp add: writableRange_def checkBounds_eq)

lemma writeThrough_eq:
  "k + length bs \<le> n \<Longrightarrow>
     writeThrough m \<lparr>Data = (if n = 0 then None else Some a), DataSize = n\<rparr> k bs =
       m\<lparr>Bytes := storeBytes (unat a + k) bs (Bytes m)\<rparr>"
  by (cases bs) (simp_all add: writeThrough_def)

lemma read32_eq:
  "read32 m a =
     (if \<not> in_bounds m a 4 then Inl MEMORY_OUT_OF_BOUNDS
      else if \<not> aligned a then Inl MISALIGNED_ACCESS
      else Inr (decodeLittleEndianWord False (take 4 (drop (unat a) (Bytes m)))))"
  by (simp add: read32_def readableRange_eq checkAlignment_eq)

lemma write32_eq:
  "write32 m a v =
     (if \<not> in_bounds m a 4 then Inl MEMORY_OUT_OF_BOUNDS
      else if \<not> aligned a then Inl MISALIGNED_ACCESS
      else Inr (markCodeDirty
        (m\<lparr>Bytes := storeBytes (unat a) (encodeLittleEndianWord False v) (Bytes m)\<rparr>) a 4))"
  by (simp add: write32_def writableRange_eq checkAlignment_eq writeThrough_def)

lemma write32_error_eq_read32: "write32 m a v = Inl e \<longleftrightarrow> read32 m a = Inl e"
  by (simp add: write32_eq read32_eq)

section \<open>What an operation leaves alone\<close>

lemma markCodeDirty_frame [simp, ti_frame]:
  "Bytes (markCodeDirty m a n) = Bytes m"
  "ExecutableRegions (markCodeDirty m a n) = ExecutableRegions m"
  by (simp_all add: markCodeDirty_def)

lemma markCodeDirty_dirty:
  "DirtyCodeRanges (markCodeDirty m a n) =
     (if hitsRegion (unat a) (unat a + n) (ExecutableRegions m)
      then DirtyCodeRanges m @ [\<lparr>Address = a, Size = n\<rparr>] else DirtyCodeRanges m)"
  by (simp add: markCodeDirty_def)

lemma writeThrough_frame [simp, ti_frame]:
  "ExecutableRegions (writeThrough m rng k bs) = ExecutableRegions m"
  "DirtyCodeRanges (writeThrough m rng k bs) = DirtyCodeRanges m"
  "length (Bytes (writeThrough m rng k bs)) = length (Bytes m)"
  by (simp_all add: writeThrough_def split: option.split)

lemma write32_frame [ti_frame]:
  assumes "write32 m a v = Inr m'"
  shows "length (Bytes m') = length (Bytes m)"
    and "ExecutableRegions m' = ExecutableRegions m"
  using assms by (auto simp: write32_eq split: if_splits)

lemma write32_bytes:
  assumes "write32 m a v = Inr m'"
  shows "Bytes m' = storeBytes (unat a) (encodeLittleEndianWord False v) (Bytes m)"
  using assms by (auto simp: write32_eq split: if_splits)

lemma takeDirtyCodeRanges_frame [simp, ti_frame]:
  "fst (takeDirtyCodeRanges m) = DirtyCodeRanges m"
  "Bytes (snd (takeDirtyCodeRanges m)) = Bytes m"
  "ExecutableRegions (snd (takeDirtyCodeRanges m)) = ExecutableRegions m"
  "DirtyCodeRanges (snd (takeDirtyCodeRanges m)) = []"
  by (simp_all add: takeDirtyCodeRanges_def)

section \<open>Dirty code\<close>

lemma hitsRegion_iff:
  "hitsRegion b e regions \<longleftrightarrow>
     (\<exists>r \<in> set regions. overlaps (unat (Address r)) (unat (Address r) + Size r) b e)"
  by (induction regions) auto

definition range_bytes :: "TICodeRange \<Rightarrow> nat set" where
  "range_bytes r = {unat (Address r) ..< unat (Address r) + Size r}"

definition executable_bytes :: "TIMemory \<Rightarrow> nat set" where
  "executable_bytes m = (\<Union>r \<in> set (ExecutableRegions m). range_bytes r)"

definition dirty_bytes :: "TIMemory \<Rightarrow> nat set" where
  "dirty_bytes m = (\<Union>r \<in> set (DirtyCodeRanges m). range_bytes r)"

lemma write32_marks_dirty:
  assumes "write32 m a v = Inr m'" and "i \<in> executable_bytes m" and "Bytes m' ! i \<noteq> Bytes m ! i"
    and "i < length (Bytes m)"
  shows "i \<in> dirty_bytes m'"
proof -
  have i: "unat a \<le> i" "i < unat a + 4"
    using assms(3,4) by (auto simp: write32_bytes [OF assms(1)] nth_storeBytes split: if_splits)
  obtain r where "r \<in> set (ExecutableRegions m)"
      "unat (Address r) \<le> i" "i < unat (Address r) + Size r"
    using assms(2) by (auto simp: executable_bytes_def range_bytes_def)
  with i have "hitsRegion (unat a) (unat a + 4) (ExecutableRegions m)"
    by (auto simp: hitsRegion_iff overlaps_def intro!: bexI [of _ r])
  then show ?thesis
    using assms(1) i
    by (auto simp: write32_eq dirty_bytes_def range_bytes_def markCodeDirty_dirty split: if_splits)
qed

lemma write32_dirty_mono:
  "write32 m a v = Inr m' \<Longrightarrow> dirty_bytes m \<subseteq> dirty_bytes m'"
  by (auto simp: write32_eq dirty_bytes_def markCodeDirty_dirty split: if_splits)

section \<open>The guest memory as a word store\<close>

text \<open>
  What the executors rely on: a word read after a write is the word written, other words are
  kept, and a read and a write of one address fail together, with the same error.
\<close>

locale word_store =
  fixes rd :: "'m \<Rightarrow> u32 \<Rightarrow> 'e + u32"
    and wr :: "'m \<Rightarrow> u32 \<Rightarrow> u32 \<Rightarrow> 'e + 'm"
  assumes rd_wr_same: "wr m a v = Inr m' \<Longrightarrow> rd m' a = Inr v"
    and rd_wr_other: "wr m a v = Inr m' \<Longrightarrow> b \<noteq> a \<Longrightarrow> rd m' b = rd m b"
    and wr_error: "wr m a v = Inl e \<longleftrightarrow> rd m a = Inl e"
begin

lemma wr_ok_iff: "(\<exists>m'. wr m a v = Inr m') \<longleftrightarrow> (\<exists>x. rd m a = Inr x)"
proof (cases "rd m a")
  case (Inl e)
  then have "wr m a v = Inl e" by (simp only: wr_error)
  with Inl show ?thesis by simp
next
  case (Inr x)
  then have "wr m a v \<noteq> Inl e" for e by (simp only: wr_error) simp
  with Inr show ?thesis by (cases "wr m a v") auto
qed

lemma rd_error_stable: "wr m a v = Inr m' \<Longrightarrow> rd m' b = Inl e \<longleftrightarrow> rd m b = Inl e"
  by (metis Inl_Inr_False rd_wr_same rd_wr_other wr_error)

lemma wr_pair:
  assumes "wr m a v = Inr m1" and "wr m1 b w = Inr m2" and "a \<noteq> b"
  shows "rd m2 a = Inr v \<and> rd m2 b = Inr w \<and> (\<forall>c. c \<noteq> a \<and> c \<noteq> b \<longrightarrow> rd m2 c = rd m c)"
  using assms by (auto simp: rd_wr_same rd_wr_other)

lemma wr_last:
  assumes "wr m a v = Inr m1" and "wr m1 a w = Inr m2"
  shows "rd m2 a = Inr w \<and> (\<forall>c. c \<noteq> a \<longrightarrow> rd m2 c = rd m c)"
  using assms by (auto simp: rd_wr_same rd_wr_other)

end

lemma aligned_disjoint:
  "aligned a \<Longrightarrow> aligned b \<Longrightarrow> a \<noteq> b \<Longrightarrow> unat b + 4 \<le> unat a \<or> unat a + 4 \<le> unat b"
proof -
  assume "aligned a" "aligned b" "a \<noteq> b"
  then have "unat a \<noteq> unat b" "unat a mod 4 = 0" "unat b mod 4 = 0"
    by (simp_all add: aligned_def word_unat_eq_iff)
  then show ?thesis by presburger
qed

interpretation guest: word_store read32 write32
proof
  fix m m' :: TIMemory and a b v :: u32 and e
  show "write32 m a v = Inl e \<longleftrightarrow> read32 m a = Inl e"
    by (rule write32_error_eq_read32)
  assume w: "write32 m a v = Inr m'"
  then have ok: "in_bounds m a 4" "aligned a"
    by (auto simp: write32_eq split: if_splits)
  note bytes = write32_bytes [OF w] write32_frame [OF w]
  have b4: "in_bounds m' c 4 \<longleftrightarrow> in_bounds m c 4" for c
    by (simp add: in_bounds_def bytes)
  have "take 4 (drop (unat a) (Bytes m')) = encodeLittleEndianWord False v"
    using take_drop_storeBytes_same [of "unat a" "encodeLittleEndianWord False v" "Bytes m"] ok
    by (simp add: bytes in_bounds_def)
  then show "read32 m' a = Inr v"
    using ok by (simp add: read32_eq b4)
  assume "b \<noteq> a"
  then have "take 4 (drop (unat b) (Bytes m')) = take 4 (drop (unat b) (Bytes m))"
    if "in_bounds m b 4" "aligned b"
    using that aligned_disjoint [of a b] ok
    by (auto simp: bytes in_bounds_def intro!: take_drop_storeBytes_other)
  then show "read32 m' b = read32 m b"
    by (simp add: read32_eq b4)
qed

section \<open>Properties\<close>

text \<open>A word access fails exactly when its four bytes are not all in memory (out of bounds,
  reported first) or its address is not a multiple of four; reads and writes fail alike.\<close>

lemma access_errors:
  "(read32 m a = Inl MEMORY_OUT_OF_BOUNDS \<longleftrightarrow> length (Bytes m) < unat a + 4 \<or> 2 ^ 32 < unat a + 4)
   \<and> (read32 m a = Inl MISALIGNED_ACCESS \<longleftrightarrow>
        unat a + 4 \<le> length (Bytes m) \<and> unat a + 4 \<le> 2 ^ 32 \<and> unat a mod 4 \<noteq> 0)
   \<and> (write32 m a v = Inl e \<longleftrightarrow> read32 m a = Inl e)"
proof -
  have "read32 m a = Inl MEMORY_OUT_OF_BOUNDS \<longleftrightarrow> \<not> in_bounds m a 4"
    "read32 m a = Inl MISALIGNED_ACCESS \<longleftrightarrow> in_bounds m a 4 \<and> \<not> aligned a"
    by (auto simp: read32_eq)
  then show ?thesis
    by (simp add: in_bounds_def aligned_def write32_error_eq_read32 not_le de_Morgan_conj)
qed

text \<open>C28. After a write the word reads back, and every other address reads as before,
  with the same value or the same error.\<close>

theorem read_after_write:
  assumes "write32 m a v = Inr m'"
  shows "read32 m' b = (if b = a then Inr v else read32 m b)"
  using guest.rd_wr_same [OF assms] guest.rd_wr_other [OF assms] by simp

lemma read_after_write_witness:
  "\<exists>m'. write32 (TIMemory_new 8) 4 7 = Inr m' \<and> read32 m' 4 = Inr 7 \<and> read32 m' 0 = read32 (TIMemory_new 8) 0"
proof -
  have "in_bounds (TIMemory_new 8) 4 4" "aligned 4"
    by (simp_all add: in_bounds_def TIMemory_new_def aligned_def)
  then obtain m' where w: "write32 (TIMemory_new 8) 4 7 = Inr m'" by (simp add: write32_eq)
  then show ?thesis using read_after_write [OF w, of 4] read_after_write [OF w, of 0] by auto
qed

text \<open>C27. A byte of an executable region that a word write changes lies in a range that the next
  \<open>takeDirtyCodeRanges\<close> returns; taking the ranges empties the list and leaves the bytes.\<close>

theorem code_writes_are_recorded:
  assumes "write32 m a v = Inr m'" "i \<in> executable_bytes m" "i < length (Bytes m)"
    "Bytes m' ! i \<noteq> Bytes m ! i" "takeDirtyCodeRanges m' = (ranges, m2)"
  shows "(\<exists>r \<in> set ranges. i \<in> range_bytes r) \<and> DirtyCodeRanges m2 = [] \<and> Bytes m2 = Bytes m'"
  using write32_marks_dirty [OF assms(1,2,4,3)] assms(5)
  by (auto simp: takeDirtyCodeRanges_def dirty_bytes_def)

lemma code_writes_are_recorded_witness:
  "\<exists>m'. write32 (TIMemory_new 8\<lparr>ExecutableRegions := [\<lparr>Address = 0, Size = 8\<rparr>]\<rparr>) 4 7 = Inr m'
     \<and> (\<exists>r \<in> set (fst (takeDirtyCodeRanges m')). (4 :: nat) \<in> range_bytes r)"
proof -
  define m where "m = TIMemory_new 8\<lparr>ExecutableRegions := [\<lparr>Address = 0, Size = 8\<rparr>]\<rparr>"
  have "in_bounds m 4 4" "aligned 4"
    by (simp_all add: in_bounds_def TIMemory_new_def aligned_def m_def)
  then obtain m' where w: "write32 m 4 7 = Inr m'" by (simp add: write32_eq)
  have "4 \<in> executable_bytes m" by (simp add: m_def executable_bytes_def range_bytes_def)
  moreover have "Bytes m' ! 4 \<noteq> Bytes m ! 4"
    using write32_bytes [OF w] by (simp add: m_def TIMemory_new_def encodeLittleEndianWord_eq)
  ultimately show ?thesis
    using code_writes_are_recorded [OF w, of 4 "fst (takeDirtyCodeRanges m')" "snd (takeDirtyCodeRanges m')"] w
    unfolding m_def [symmetric] by (auto simp: m_def TIMemory_new_def simp del: takeDirtyCodeRanges_frame)
qed

end
