(* ===== verification/IrSyntax.thy ===== *)
theory IrSyntax
  imports Instruction
begin

text \<open>
  What \<open>jit_executor.cpp\<close> hands to the IR library: the sequence of builder calls, one node
  per call, in the order they are made. The library itself (\<open>third_party/ir\<close>) is not part of
  the repository; only the calls the source makes are named here. A node is referred to by its
  position, a constant stands for itself. Host addresses are the fields of the execution
  context, the slots of the JIT entry table and the C++ functions the generated code calls.
\<close>

type_synonym code_addr = nat

datatype host_addr =
    RegisterAddr u32
  | PcAddr
  | StatusAddr
  | JitEntryAddr u32

datatype TIInstructionHandler =
    H_executeSsat | H_executeFlush | H_executeSyscall | H_executeInvalid

datatype host_function =
    F_executeInstructionHelper
  | F_readMemory32
  | F_writeMemory32
  | F_compressBits

datatype ir_value =
    VU32 u32
  | VU8 u8
  | VBool bool
  | VEntry "code_addr option"
  | VAddr host_addr
  | VFun host_function
  | VContext
  | VInstruction TIInstruction
  | VHandler TIInstructionHandler
  | VVoid

datatype ir_ref = Const ir_value | Node nat

datatype ir_unop = IR_ZEXT | IR_CTLZ | IR_BITCAST

datatype ir_binop = IR_ADD | IR_OR | IR_ROR | IR_EQ | IR_NE | IR_MAX_I32 | IR_MIN_I32

datatype ir_node =
    IR_START
  | IR_PARAM
  | IR_LOAD ir_ref
  | IR_STORE ir_ref ir_ref
  | IR_UN ir_unop ir_ref
  | IR_BIN ir_binop ir_ref ir_ref
  | IR_CALL ir_ref "ir_ref list"
  | IR_IF ir_ref
  | IR_IF_TRUE ir_ref
  | IR_IF_FALSE ir_ref
  | IR_RETURN ir_ref
  | IR_END
  | IR_MERGE_2 ir_ref ir_ref
  | IR_PHI_2 ir_ref ir_ref

text \<open>A function handed to \<open>ir_jit_compile\<close>: its nodes, the folding flag and the level.\<close>

record ir_code =
  Nodes :: "ir_node list"
  Folding :: bool
  Level :: u8

end
