(* ===== verification/BlockCache.thy ===== *)
theory BlockCache
  imports GuestMemory Decoder IrSyntax
begin

text \<open>
  \<open>basic_block_cache.hpp/.cpp\<close> and \<open>TICompiledBlock\<close> of \<open>jit_executor.hpp\<close>: decoded blocks
  by start address, their validity, and the slots through which compiled blocks find each
  other. \<open>NativeCode\<close> is the machine code mapped into the process: an entry appears when a
  block is compiled and goes away when the block that owns it is destroyed. A reference to a
  cached block is its key. Messages and the iteration order of the hash map are not modelled:
  invalidation treats each entry on its own.
\<close>

section \<open>State\<close>

record TICompiledBlock =
  EntryPoint :: "code_addr option"
  CodeSize :: nat

record TIBasicBlock =
  StartAddress :: u32
  ExecutionCount :: u64
  Valid :: bool
  Instructions :: "TIInstruction list"
  CompiledBlock :: TICompiledBlock

record TIBasicBlockCache =
  Blocks :: "u32 \<Rightarrow> TIBasicBlock option"
  JitEntries :: "u32 \<Rightarrow> code_addr option option"
  NativeCode :: "code_addr \<Rightarrow> ir_code option"

definition noCompiledBlock :: TICompiledBlock where
  "noCompiledBlock = \<lparr>EntryPoint = None, CodeSize = 0\<rparr>"

definition emptyCache :: TIBasicBlockCache where
  "emptyCache =
     \<lparr>Blocks = (\<lambda>_. None), JitEntries = (\<lambda>_. None), NativeCode = (\<lambda>_. None)\<rparr>"

definition TIBasicBlock_new :: "u32 \<Rightarrow> TIInstruction list \<Rightarrow> TIBasicBlock" where
  "TIBasicBlock_new startAddr decodedInstructions =
     \<lparr>StartAddress = startAddr, ExecutionCount = 0, Valid = True,
      Instructions = decodedInstructions, CompiledBlock = noCompiledBlock\<rparr>"

definition endAddress :: "TIBasicBlock \<Rightarrow> u32" where
  "endAddress b = StartAddress b + of_nat (length (Instructions b) * unat INSTRUCTION_SIZE)"

definition recordExecution :: "TIBasicBlock \<Rightarrow> TIBasicBlock" where
  "recordExecution b = b\<lparr>ExecutionCount := ExecutionCount b + 1\<rparr>"

definition invalidate :: "TIBasicBlock \<Rightarrow> TIBasicBlock" where
  "invalidate b = b\<lparr>Valid := False\<rparr>"

definition compiledEmpty :: "TICompiledBlock \<Rightarrow> bool" where
  [simp]: "compiledEmpty cb \<longleftrightarrow> EntryPoint cb = None"

definition hasCompiledBlock :: "TIBasicBlock \<Rightarrow> bool" where
  "hasCompiledBlock b \<longleftrightarrow> \<not> compiledEmpty (CompiledBlock b)"

section \<open>Compiled code and its slots\<close>

definition resetCompiled :: "TIBasicBlockCache \<Rightarrow> TICompiledBlock \<Rightarrow> TIBasicBlockCache" where
  "resetCompiled c cb =
     (case EntryPoint cb of
        None \<Rightarrow> c
      | Some p \<Rightarrow> c\<lparr>NativeCode := (NativeCode c)(p := None)\<rparr>)"

text \<open>
  Moving: the new object takes the code, the old one is left empty. An assignment first unmaps
  what the target held; the two objects are never the same one.
\<close>

definition moveCompiled :: "TICompiledBlock \<Rightarrow> TICompiledBlock \<times> TICompiledBlock" where
  "moveCompiled other =
     (\<lparr>EntryPoint = EntryPoint other, CodeSize = CodeSize other\<rparr>,
      other\<lparr>EntryPoint := None, CodeSize := 0\<rparr>)"

definition moveAssign ::
  "TIBasicBlockCache \<Rightarrow> TICompiledBlock \<Rightarrow> TICompiledBlock
     \<Rightarrow> TIBasicBlockCache \<times> TICompiledBlock \<times> TICompiledBlock" where
  "moveAssign c self other = (resetCompiled c self, moveCompiled other)"

lemma moveCompiled_eq [simp]: "moveCompiled cb = (cb, noCompiledBlock)"
  by (simp add: moveCompiled_def noCompiledBlock_def)

definition jitEntrySlot :: "TIBasicBlockCache \<Rightarrow> u32 \<Rightarrow> TIBasicBlockCache" where
  "jitEntrySlot c a =
     (case JitEntries c a of
        Some _ \<Rightarrow> c
      | None \<Rightarrow> c\<lparr>JitEntries := (JitEntries c)(a := Some None)\<rparr>)"

definition setJitEntry :: "TIBasicBlockCache \<Rightarrow> u32 \<Rightarrow> code_addr option \<Rightarrow> TIBasicBlockCache" where
  "setJitEntry c a entry =
     (let c1 = jitEntrySlot c a in c1\<lparr>JitEntries := (JitEntries c1)(a := Some entry)\<rparr>)"

text \<open>
  Clearing the block map destroys every block and with it the code it owns, and no other code:
  \<open>owned\<close> says which code that is.
\<close>

definition owned :: "TIBasicBlockCache \<Rightarrow> code_addr \<Rightarrow> bool" where
  "owned c p \<longleftrightarrow> (\<exists>a b. Blocks c a = Some b \<and> EntryPoint (CompiledBlock b) = Some p)"

definition clear :: "TIBasicBlockCache \<Rightarrow> TIBasicBlockCache" where
  "clear c = c\<lparr>Blocks := (\<lambda>_. None), JitEntries := (\<lambda>_. None),
     NativeCode := (\<lambda>p. if owned c p then None else NativeCode c p)\<rparr>"

section \<open>Decoding and looking up a block\<close>

partial_function (option) decodeBlock_loop ::
  "TIMemory \<Rightarrow> u32 \<Rightarrow> TIInstruction list \<Rightarrow> (ErrorCode + TIInstruction list) option" where
  "decodeBlock_loop m currentAddress instructions =
     (case read32 m currentAddress of
        Inl e \<Rightarrow> Some (Inl e)
      | Inr encoding \<Rightarrow>
         (let instruction = decode encoding;
              instructions1 = instructions @ [instruction]
          in if endsBlock (OpCode (last instructions1)) then Some (Inr instructions1)
             else let next = currentAddress + INSTRUCTION_SIZE
                  in if unat next + unat INSTRUCTION_SIZE > mem_size m
                     then Some (Inr instructions1)
                     else decodeBlock_loop m next instructions1))"

definition decodeBlock ::
  "TIBasicBlockCache \<Rightarrow> u32 \<Rightarrow> TIMemory \<Rightarrow> TIBasicBlockCache outcome option" where
  "decodeBlock c a m =
     (case decodeBlock_loop m a [] of
        None \<Rightarrow> None
      | Some (Inl e) \<Rightarrow> Some (Throw (SimulationException e) c)
      | Some (Inr instructions) \<Rightarrow>
          Some (Done (case Blocks c a of
              Some _ \<Rightarrow> c
            | None \<Rightarrow> c\<lparr>Blocks := (Blocks c)(a := Some (TIBasicBlock_new a instructions))\<rparr>)))"

definition getBlock ::
  "TIBasicBlockCache \<Rightarrow> u32 \<Rightarrow> TIMemory \<Rightarrow> TIBasicBlockCache outcome option" where
  "getBlock c a m =
     (case Blocks c a of
        Some b \<Rightarrow>
          if Valid b then Some (Done c)
          else decodeBlock
                 (resetCompiled (c\<lparr>Blocks := (Blocks c)(a := None)\<rparr>) (CompiledBlock b)) a m
      | None \<Rightarrow> decodeBlock c a m)"

section \<open>Invalidation\<close>

definition invalidates :: "TIBasicBlock \<Rightarrow> u32 \<Rightarrow> nat \<Rightarrow> bool" where
  "invalidates b a byteCount \<longleftrightarrow>
     unat (StartAddress b) < unat a + byteCount \<and> unat a < unat (endAddress b)"

definition invalidateRange :: "TIBasicBlockCache \<Rightarrow> u32 \<Rightarrow> nat \<Rightarrow> TIBasicBlockCache" where
  "invalidateRange c a byteCount =
     c\<lparr>Blocks := (\<lambda>k. case Blocks c k of
           None \<Rightarrow> None
         | Some b \<Rightarrow> if invalidates b a byteCount then Some (invalidate b) else Some b),
       JitEntries := (\<lambda>k. case Blocks c k of
           None \<Rightarrow> JitEntries c k
         | Some b \<Rightarrow>
             if invalidates b a byteCount
             then (case JitEntries c k of None \<Rightarrow> None | Some _ \<Rightarrow> Some None)
             else JitEntries c k)\<rparr>"

section \<open>What a decoded block is\<close>

text \<open>The instructions are the decoded words of the memory from an address on.\<close>

fun decoded_at :: "TIMemory \<Rightarrow> u32 \<Rightarrow> TIInstruction list \<Rightarrow> bool" where
  "decoded_at m a [] = True"
| "decoded_at m a (i # is) =
     ((case read32 m a of Inl _ \<Rightarrow> False | Inr w \<Rightarrow> i = decode w) \<and> decoded_at m (a + 4) is)"

text \<open>Only the last instruction of a block may transfer control.\<close>

fun block_shape :: "TIInstruction list \<Rightarrow> bool" where
  "block_shape [] = False"
| "block_shape [i] = wf_instruction i"
| "block_shape (i # j # is) =
     (wf_instruction i \<and> \<not> endsBlock (OpCode i) \<and> block_shape (j # is))"

lemma read32_ok_iff: "(\<exists>w. read32 m a = Inr w) \<longleftrightarrow> in_bounds m a 4 \<and> aligned a"
  by (auto simp: read32_eq)

lemma unat_plus_4:
  "unat (a :: u32) + 4 < 2 ^ 32 \<Longrightarrow> unat (a + 4) = unat a + 4"
  by (simp add: unat_add_lem [THEN iffD1])

lemma aligned_plus_4: "aligned a \<Longrightarrow> unat a + 4 < 2 ^ 32 \<Longrightarrow> aligned (a + 4)"
  by (simp add: aligned_def unat_plus_4)

lemma decodeBlock_loop_result:
  assumes "length (Bytes m) < 2 ^ 32" and "read32 m a = Inr w"
  shows "\<exists>new. decodeBlock_loop m a ins = Some (Inr (ins @ new)) \<and> decoded_at m a new
     \<and> block_shape new \<and> unat a + 4 * length new \<le> length (Bytes m)
     \<and> (endsBlock (OpCode (last new)) \<or> length (Bytes m) < unat a + 4 * length new + 4)"
  using assms(2)
proof (induction "length (Bytes m) - unat a" arbitrary: a w ins rule: less_induct)
  case less
  have ib: "unat a + 4 \<le> length (Bytes m)" and al: "aligned a"
    using less.prems read32_ok_iff [of m a] by (auto simp: in_bounds_def)
  then have a4: "unat (a + 4) = unat a + 4" "aligned (a + 4)"
    using assms(1) by (simp_all add: unat_plus_4 aligned_plus_4)
  note unfold = decodeBlock_loop.simps [of m a ins]
  show ?case
  proof (cases "endsBlock (OpCode (decode w))")
    case True
    then show ?thesis using less.prems ib decode_wf [of w]
      by (intro exI [of _ "[decode w]"]) (simp add: unfold Let_def)
  next
    case go: False
    show ?thesis
    proof (cases "unat (a + 4) + 4 > mem_size m")
      case True
      then show ?thesis using less.prems go ib decode_wf [of w] a4
        by (intro exI [of _ "[decode w]"]) (simp add: unfold Let_def mem_size_def)
    next
      case False
      then have "in_bounds m (a + 4) 4"
        using assms(1) a4 by (simp add: in_bounds_def mem_size_def)
      then obtain w' where w': "read32 m (a + 4) = Inr w'"
        using a4 read32_ok_iff [of m "a + 4"] by blast
      have "length (Bytes m) - unat (a + 4) < length (Bytes m) - unat a"
        using a4 ib by simp
      from less.hyps [OF this w', of "ins @ [decode w]"] obtain new where
        new: "decodeBlock_loop m (a + 4) (ins @ [decode w]) = Some (Inr ((ins @ [decode w]) @ new))"
          "decoded_at m (a + 4) new" "block_shape new"
          "unat (a + 4) + 4 * length new \<le> length (Bytes m)"
          "endsBlock (OpCode (last new)) \<or> length (Bytes m) < unat (a + 4) + 4 * length new + 4"
        by blast
      then have "block_shape (decode w # new)"
        using go decode_wf [of w] by (cases new) simp_all
      moreover have "new \<noteq> []" using new(3) by auto
      ultimately show ?thesis using less.prems go False new a4
        by (intro exI [of _ "decode w # new"]) (simp add: unfold Let_def)
    qed
  qed
qed

lemma decodeBlock_loop_error:
  "read32 m a = Inl e \<Longrightarrow> decodeBlock_loop m a ins = Some (Inl e)"
  by (simp add: decodeBlock_loop.simps)

lemma decodeBlock_loop_total:
  "length (Bytes m) < 2 ^ 32 \<Longrightarrow> \<exists>r. decodeBlock_loop m a ins = Some r"
  using decodeBlock_loop_result decodeBlock_loop_error by (cases "read32 m a") blast+

section \<open>Lookups after an update\<close>

lemma resetCompiled_frame [simp, ti_frame]:
  "Blocks (resetCompiled c cb) = Blocks c"
  "JitEntries (resetCompiled c cb) = JitEntries c"
  by (simp_all add: resetCompiled_def split: option.split)

lemma jitEntrySlot_frame [simp, ti_frame]:
  "Blocks (jitEntrySlot c a) = Blocks c"
  "NativeCode (jitEntrySlot c a) = NativeCode c"
  by (simp_all add: jitEntrySlot_def split: option.split)

lemma jitEntrySlot_value:
  "JitEntries (jitEntrySlot c a) k =
     (if k = a then Some (case JitEntries c a of Some e \<Rightarrow> e | None \<Rightarrow> None) else JitEntries c k)"
  by (auto simp: jitEntrySlot_def split: option.split)

lemma setJitEntry_frame [simp, ti_frame]:
  "Blocks (setJitEntry c a e) = Blocks c"
  "NativeCode (setJitEntry c a e) = NativeCode c"
  by (simp_all add: setJitEntry_def Let_def)

lemma setJitEntry_value:
  "JitEntries (setJitEntry c a e) k = (if k = a then Some e else JitEntries c k)"
  by (simp add: setJitEntry_def Let_def jitEntrySlot_value)

lemma invalidateRange_Blocks:
  "Blocks (invalidateRange c a n) k =
     map_option (\<lambda>b. if invalidates b a n then invalidate b else b) (Blocks c k)"
  by (simp add: invalidateRange_def split: option.split)

lemma invalidateRange_frame [simp, ti_frame]:
  "NativeCode (invalidateRange c a n) = NativeCode c"
  by (simp add: invalidateRange_def)

lemma invalidate_frame [simp, ti_frame]:
  "StartAddress (invalidate b) = StartAddress b"
  "Instructions (invalidate b) = Instructions b"
  "CompiledBlock (invalidate b) = CompiledBlock b"
  "ExecutionCount (invalidate b) = ExecutionCount b"
  "Valid (invalidate b) = False"
  "endAddress (invalidate b) = endAddress b"
  by (simp_all add: invalidate_def endAddress_def)

end
