(* ===== verification/CacheInvariants.thy ===== *)
theory CacheInvariants
  imports BlockCache
begin

text \<open>
  What the block cache keeps: the shape and extent of cached blocks, the agreement of cached
  code with the memory (up to writes not flushed yet), and the safety of the JIT entry slots.
  The contract of a code cache is a locale; agreement with the memory is proved once in it.
\<close>

section \<open>Well-formed caches\<close>

definition block_ok :: "nat \<Rightarrow> u32 \<Rightarrow> TIBasicBlock \<Rightarrow> bool" where
  "block_ok msize a b \<longleftrightarrow>
     StartAddress b = a \<and> aligned a \<and> block_shape (Instructions b)
     \<and> unat a + 4 * length (Instructions b) \<le> msize"

definition cache_ok :: "nat \<Rightarrow> TIBasicBlockCache \<Rightarrow> bool" where
  "cache_ok msize c \<longleftrightarrow> msize < 2 ^ 32 \<and> (\<forall>a b. Blocks c a = Some b \<longrightarrow> block_ok msize a b)"

lemma cache_okD: "cache_ok msize c \<Longrightarrow> Blocks c a = Some b \<Longrightarrow> block_ok msize a b"
  by (simp add: cache_ok_def)

lemma cache_ok_size: "cache_ok msize c \<Longrightarrow> msize < 2 ^ 32"
  by (simp add: cache_ok_def)

lemma cache_ok_empty: "msize < 2 ^ 32 \<Longrightarrow> cache_ok msize emptyCache"
  by (simp add: cache_ok_def emptyCache_def)

lemma cache_ok_clear: "cache_ok msize c \<Longrightarrow> cache_ok msize (clear c)"
  by (simp add: cache_ok_def clear_def)

lemma unat_endAddress:
  assumes "block_ok msize a b" "msize < 2 ^ 32"
  shows "unat (endAddress b) = unat a + 4 * length (Instructions b)"
proof -
  have le: "unat a + 4 * length (Instructions b) < 2 ^ 32" "StartAddress b = a"
    using assms by (simp_all add: block_ok_def)
  then have "unat (of_nat (length (Instructions b) * 4) :: u32) = 4 * length (Instructions b)"
    by (simp add: unat_of_nat take_bit_nat_eq_self mult.commute del: of_nat_mult)
  then show ?thesis using le
    by (simp add: endAddress_def unat_add_lem [THEN iffD1] mult.commute del: of_nat_mult)
qed

lemma cache_ok_invalidateRange: "cache_ok msize c \<Longrightarrow> cache_ok msize (invalidateRange c a n)"
  by (auto simp: cache_ok_def invalidateRange_Blocks block_ok_def)

lemma block_ok_update [simp]:
  "block_ok msize a (b\<lparr>CompiledBlock := cb\<rparr>) = block_ok msize a b"
  "block_ok msize a (recordExecution b) = block_ok msize a b"
  by (simp_all add: block_ok_def recordExecution_def)

text \<open>The three ways a lookup can end.\<close>

lemma getBlock_cases:
  assumes "cache_ok (length (Bytes m)) c"
  obtains (hit) b where "Blocks c a = Some b" "Valid b" "getBlock c a m = Some (Done c)"
  | (error) e c' where "getBlock c a m = Some (Throw (SimulationException e) c')" "read32 m a = Inl e"
      "c' = c \<or> (\<exists>b. Blocks c a = Some b \<and> \<not> Valid b
         \<and> c' = resetCompiled (c\<lparr>Blocks := (Blocks c)(a := None)\<rparr>) (CompiledBlock b))"
  | (decoded) c0 ins where "getBlock c a m = Some (Done (c0\<lparr>Blocks :=
        (Blocks c)(a := Some (TIBasicBlock_new a ins))\<rparr>))"
      "decoded_at m a ins" "block_ok (length (Bytes m)) a (TIBasicBlock_new a ins)"
      "Blocks c a = None \<and> c0 = c \<or> (\<exists>b. Blocks c a = Some b \<and> \<not> Valid b
         \<and> c0 = resetCompiled (c\<lparr>Blocks := (Blocks c)(a := None)\<rparr>) (CompiledBlock b))"
proof (cases "\<exists>b. Blocks c a = Some b \<and> Valid b")
  case True
  then show ?thesis using hit by (auto simp: getBlock_def)
next
  case False
  define c0 where "c0 = (case Blocks c a of None \<Rightarrow> c
    | Some b \<Rightarrow> resetCompiled (c\<lparr>Blocks := (Blocks c)(a := None)\<rparr>) (CompiledBlock b))"
  have g: "getBlock c a m = decodeBlock c0 a m"
    using False by (auto simp: getBlock_def c0_def split: option.split)
  have b0: "Blocks c0 = (Blocks c)(a := None)"
    by (auto simp: c0_def split: option.split)
  have c0: "Blocks c a = None \<and> c0 = c \<or> (\<exists>b. Blocks c a = Some b \<and> \<not> Valid b
         \<and> c0 = resetCompiled (c\<lparr>Blocks := (Blocks c)(a := None)\<rparr>) (CompiledBlock b))"
    using False by (auto simp: c0_def split: option.split)
  show ?thesis
  proof (cases "read32 m a")
    case (Inl e)
    then show ?thesis using error [where e = e and c' = c0] c0 g
      by (auto simp: decodeBlock_def decodeBlock_loop_error)
  next
    case (Inr w)
    obtain ins where ins: "decodeBlock_loop m a [] = Some (Inr ins)" "decoded_at m a ins"
        "block_shape ins" "unat a + 4 * length ins \<le> length (Bytes m)"
      using decodeBlock_loop_result [of m a w "[]"] Inr cache_ok_size [OF assms] by auto
    have "block_ok (length (Bytes m)) a (TIBasicBlock_new a ins)"
      using ins Inr read32_ok_iff [of m a] by (auto simp: block_ok_def TIBasicBlock_new_def)
    then show ?thesis using decoded [where ins = ins and ?c0.0 = c0] ins c0 g b0 by (simp add: decodeBlock_def)
  qed
qed

lemma cache_ok_getBlock:
  assumes "cache_ok (length (Bytes m)) c"
  shows "\<exists>r. getBlock c a m = Some r \<and> holds_in (cache_ok (length (Bytes m))) r"
  using assms
proof (cases rule: getBlock_cases [where a = a])
  case (error e c')
  then show ?thesis using assms by (auto simp: cache_ok_def split: if_splits)
next
  case (decoded c0 ins)
  then show ?thesis using assms by (auto simp: cache_ok_def split: if_splits)
next
  case (hit b)
  then show ?thesis using assms by simp
qed

section \<open>The contract of a code cache\<close>

definition code_bytes :: "u32 \<Rightarrow> TIInstruction list \<Rightarrow> nat set" where
  "code_bytes a ins = {unat a ..< unat a + 4 * length ins}"

text \<open>
  Cached code inside the executable regions is what the memory decodes to, unless one of its
  bytes was written and not flushed yet.
\<close>

definition coherent :: "TIMemory \<Rightarrow> (u32 \<Rightarrow> TIInstruction list option) \<Rightarrow> bool" where
  "coherent m code \<longleftrightarrow>
     (\<forall>a ins. code a = Some ins \<longrightarrow> code_bytes a ins \<subseteq> executable_bytes m \<longrightarrow>
        decoded_at m a ins \<or> code_bytes a ins \<inter> dirty_bytes m \<noteq> {})"

fun dropRanges :: "('c \<Rightarrow> u32 \<Rightarrow> nat \<Rightarrow> 'c) \<Rightarrow> 'c \<Rightarrow> TICodeRange list \<Rightarrow> 'c" where
  "dropRanges invalidateR c [] = c"
| "dropRanges invalidateR c (r # rs) =
     dropRanges invalidateR (invalidateR c (Address r) (Size r)) rs"

locale code_cache =
  fixes valid_code :: "'c \<Rightarrow> u32 \<Rightarrow> TIInstruction list option"
    and fetch :: "'c \<Rightarrow> u32 \<Rightarrow> TIMemory \<Rightarrow> 'c outcome option"
    and invalidateR :: "'c \<Rightarrow> u32 \<Rightarrow> nat \<Rightarrow> 'c"
    and inv :: "nat \<Rightarrow> 'c \<Rightarrow> bool"
  assumes fetch_old: "inv (length (Bytes m)) c \<Longrightarrow> fetch c a m = Some r \<Longrightarrow>
      holds_in (\<lambda>c'. \<forall>k ins. valid_code c' k = Some ins \<longrightarrow>
        valid_code c k = Some ins \<or> decoded_at m k ins) r"
    and drop_only: "inv msize c \<Longrightarrow> valid_code (invalidateR c a n) k = Some ins \<Longrightarrow>
      valid_code c k = Some ins \<and> code_bytes k ins \<inter> {unat a ..< unat a + n} = {}"
    and drop_inv: "inv msize c \<Longrightarrow> inv msize (invalidateR c a n)"
begin

lemma fetch_coherent:
  assumes "inv (length (Bytes m)) c" "fetch c a m = Some r" "coherent m (valid_code c)"
  shows "holds_in (\<lambda>c'. coherent m (valid_code c')) r"
  using fetch_old [OF assms(1,2)]
  by (rule holds_in_mono) (use assms(3) in \<open>unfold coherent_def, blast\<close>)

lemma dropRanges_inv: "inv msize c \<Longrightarrow> inv msize (dropRanges invalidateR c rs)"
  by (induction rs arbitrary: c) (auto simp: drop_inv)

lemma dropRanges_only:
  "inv msize c \<Longrightarrow> valid_code (dropRanges invalidateR c rs) k = Some ins \<Longrightarrow>
     valid_code c k = Some ins \<and> (\<forall>r \<in> set rs. code_bytes k ins \<inter> range_bytes r = {})"
proof (induction rs arbitrary: c)
  case (Cons r rs)
  then show ?case
    using drop_only [of msize c "Address r" "Size r" k ins] drop_inv [of msize c]
    by (auto simp: range_bytes_def)
qed simp

text \<open>Dropping every dirty range leaves no stale code in the executable regions.\<close>

lemma flush_coherent:
  assumes "inv msize c" "coherent m (valid_code c)"
    and "valid_code (dropRanges invalidateR c (DirtyCodeRanges m)) k = Some ins"
    and "code_bytes k ins \<subseteq> executable_bytes m"
  shows "decoded_at m k ins"
proof -
  have old: "valid_code c k = Some ins"
    and "\<forall>r \<in> set (DirtyCodeRanges m). code_bytes k ins \<inter> range_bytes r = {}"
    using dropRanges_only [OF assms(1,3)] by blast+
  then have "code_bytes k ins \<inter> dirty_bytes m = {}"
    by (fastforce simp: dirty_bytes_def)
  with old assms(2,4) show ?thesis by (auto simp: coherent_def)
qed

end

definition validCode :: "TIBasicBlockCache \<Rightarrow> u32 \<Rightarrow> TIInstruction list option" where
  "validCode c a =
     (case Blocks c a of None \<Rightarrow> None
      | Some b \<Rightarrow> if Valid b then Some (Instructions b) else None)"

interpretation bbcache: code_cache validCode getBlock invalidateRange cache_ok
proof
  fix m c a r assume ok: "cache_ok (length (Bytes m)) c" and g: "getBlock c a m = Some r"
  from ok show "holds_in (\<lambda>c'. \<forall>k ins. validCode c' k = Some ins \<longrightarrow>
      validCode c k = Some ins \<or> decoded_at m k ins) r"
  proof (cases rule: getBlock_cases [where a = a])
    case (error e c')
    then show ?thesis using g by (auto simp: validCode_def split: option.splits if_splits)
  next
    case (decoded c0 ins)
    then show ?thesis using g
      by (auto simp: validCode_def TIBasicBlock_new_def split: option.splits if_splits)
  qed (use g in auto)
next
  fix msize c a n k ins
  assume ok: "cache_ok msize c" and v: "validCode (invalidateRange c a n) k = Some ins"
  then obtain b where b: "Blocks c k = Some b" "Valid b" "Instructions b = ins"
      "\<not> invalidates b a n"
    by (auto simp: validCode_def invalidateRange_Blocks split: option.splits if_splits)
  have bo: "block_ok msize k b" "msize < 2 ^ 32"
    using ok b by (simp_all add: cache_ok_def)
  then have "unat (StartAddress b) = unat k" by (simp add: block_ok_def)
  then show "validCode c k = Some ins \<and> code_bytes k ins \<inter> {unat a ..< unat a + n} = {}"
    using b unat_endAddress [OF bo] by (auto simp: validCode_def code_bytes_def invalidates_def)
qed (rule cache_ok_invalidateRange)

lemma validCode_extent:
  assumes "cache_ok msize c" "validCode c a = Some ins"
  shows "unat a + 4 * length ins \<le> msize" "msize < 2 ^ 32" "block_shape ins"
  using assms by (auto simp: validCode_def cache_ok_def block_ok_def split: option.splits if_splits)

section \<open>Coherence across writes\<close>

lemma read32_cong:
  assumes "length (Bytes m') = length (Bytes m)"
    and "\<And>i. unat a \<le> i \<Longrightarrow> i < unat a + 4 \<Longrightarrow> Bytes m' ! i = Bytes m ! i"
  shows "read32 m' a = read32 m a"
proof -
  have "take 4 (drop (unat a) (Bytes m')) = take 4 (drop (unat a) (Bytes m))"
    if "in_bounds m a 4"
    using that assms by (auto intro!: nth_equalityI simp: in_bounds_def)
  then show ?thesis by (simp add: read32_eq in_bounds_def assms(1))
qed

lemma decoded_at_cong:
  assumes "length (Bytes m') = length (Bytes m)" "unat a + 4 * length ins < 2 ^ 32"
    and "\<And>i. i \<in> code_bytes a ins \<Longrightarrow> Bytes m' ! i = Bytes m ! i"
  shows "decoded_at m' a ins = decoded_at m a ins"
  using assms(2,3)
proof (induction ins arbitrary: a)
  case (Cons i ins)
  have a4: "unat (a + 4) = unat a + 4"
    using Cons.prems(1) by (intro unat_plus_4) simp
  have "read32 m' a = read32 m a"
    using Cons.prems(2) by (intro read32_cong [OF assms(1)]) (simp add: code_bytes_def)
  moreover have "decoded_at m' (a + 4) ins = decoded_at m (a + 4) ins"
    using Cons.prems a4 by (intro Cons.IH) (auto simp: code_bytes_def)
  ultimately show ?case by simp
qed simp

text \<open>
  A change of memory keeps cached code coherent when every executable byte it changes is
  recorded as dirty.
\<close>

lemma coherent_step:
  assumes "coherent m (validCode c)" "cache_ok (length (Bytes m)) c"
    and "length (Bytes m') = length (Bytes m)" "ExecutableRegions m' = ExecutableRegions m"
    and "dirty_bytes m \<subseteq> dirty_bytes m'"
    and "\<And>i. i < length (Bytes m) \<Longrightarrow> i \<in> executable_bytes m \<Longrightarrow> Bytes m' ! i \<noteq> Bytes m ! i
      \<Longrightarrow> i \<in> dirty_bytes m'"
  shows "coherent m' (validCode c)"
  unfolding coherent_def
proof (intro allI impI)
  fix a ins
  assume code: "validCode c a = Some ins" and "code_bytes a ins \<subseteq> executable_bytes m'"
  then have x: "code_bytes a ins \<subseteq> executable_bytes m"
    using assms(4) by (simp add: executable_bytes_def)
  note ext = validCode_extent [OF assms(2) code]
  show "decoded_at m' a ins \<or> code_bytes a ins \<inter> dirty_bytes m' \<noteq> {}"
  proof (rule disjCI)
    assume "\<not> code_bytes a ins \<inter> dirty_bytes m' \<noteq> {}"
    then have clean: "code_bytes a ins \<inter> dirty_bytes m' = {}" by simp
    then have "decoded_at m a ins"
      using assms(1,5) code x unfolding coherent_def by blast
    moreover have "Bytes m' ! i = Bytes m ! i" if "i \<in> code_bytes a ins" for i
    proof -
      have "i < length (Bytes m)" using that ext by (simp add: code_bytes_def)
      moreover have "i \<in> executable_bytes m" "i \<notin> dirty_bytes m'" using that x clean by blast+
      ultimately show ?thesis using assms(6) by blast
    qed
    ultimately show "decoded_at m' a ins"
      using decoded_at_cong [of m' m a ins] assms(3) ext by auto
  qed
qed

lemma coherent_write32:
  assumes "coherent m (validCode c)" "cache_ok (length (Bytes m)) c" "write32 m a v = Inr m'"
  shows "coherent m' (validCode c)"
  using assms(1,2) write32_frame [OF assms(3)] write32_dirty_mono [OF assms(3)]
    write32_marks_dirty [OF assms(3)]
  by (intro coherent_step [of m c m']) auto

section \<open>Properties\<close>

text \<open>C22. Decoding a block of a memory below 4 GiB ends: in the error of the first fetch, or in a
  block that is what the memory decodes to, lies inside the memory, transfers control at most in
  its last instruction, and stops only there or at the end of the memory.\<close>

theorem decoding_a_block_ends:
  assumes "length (Bytes m) < 2 ^ 32"
  shows "(\<exists>e. read32 m a = Inl e \<and> decodeBlock_loop m a [] = Some (Inl e)) \<or>
    (\<exists>ins. decodeBlock_loop m a [] = Some (Inr ins) \<and> decoded_at m a ins \<and> block_shape ins
       \<and> unat a + 4 * length ins \<le> length (Bytes m)
       \<and> (endsBlock (OpCode (last ins)) \<or> length (Bytes m) < unat a + 4 * length ins + 4))"
  using decodeBlock_loop_result [OF assms, of a _ "[]"] decodeBlock_loop_error [of m a _ "[]"]
  by (cases "read32 m a") auto

lemma decoding_a_block_ends_witness:
  "\<exists>ins. decodeBlock_loop (TIMemory_new 8) 0 [] = Some (Inr ins) \<and> length ins \<le> 2"
proof -
  have "read32 (TIMemory_new 8) 0 \<noteq> Inl e" for e
    by (simp add: read32_eq in_bounds_def TIMemory_new_def aligned_def)
  then show ?thesis
    using decoding_a_block_ends [of "TIMemory_new 8" 0] by (auto simp: TIMemory_new_def)
qed

lemma aligned_fits: "aligned a \<Longrightarrow> unat a + 4 \<le> 4294967296"
  using unat_u32_less [of a] unfolding aligned_def by presburger

text \<open>C23. With a memory of 4 GiB or more the loop need not end: the address wraps around to 0 and
  the bound check never stops it when no instruction of the memory ends a block.\<close>

theorem decoding_may_diverge:
  assumes "2 ^ 32 \<le> length (Bytes m)"
    and "\<forall>a. aligned a \<longrightarrow> (\<exists>w. read32 m a = Inr w \<and> \<not> endsBlock (OpCode (decode w)))"
    and "aligned a"
  shows "decodeBlock_loop m a ins = None"
proof -
  have step: "aligned (b + 4)" "\<not> unat (b + 4) + 4 > mem_size m" if "aligned b" for b :: u32
  proof -
    have "unat (b + 4) mod 4 = (unat b + 4) mod 2 ^ 32 mod 4"
      by (simp add: unat_word_ariths)
    also have "\<dots> = (unat b + 4) mod 4" by (simp add: mod_mod_cancel)
    finally show al: "aligned (b + 4)" using that by (simp add: aligned_def)
    show "\<not> unat (b + 4) + 4 > mem_size m"
      using aligned_fits [OF al] assms(1) by (simp add: mem_size_def)
  qed
  have "decodeBlock_loop m a ins = Some r \<Longrightarrow> aligned a \<Longrightarrow> False" for r
  proof (induction m'\<equiv>m a ins r rule: decodeBlock_loop.raw_induct [rotated, consumes 1, case_names body])
    case (body rec b ins r)
    obtain w where "read32 m b = Inr w" "\<not> endsBlock (OpCode (decode w))"
      using assms(2) body by blast
    then show ?case using body step [of b] by (auto simp: Let_def)
  qed
  then show ?thesis using assms(3) by (cases "decodeBlock_loop m a ins") auto
qed

text \<open>Memory full of the byte 0x5C, every word of which is an ADDI.\<close>

lemma decoding_may_diverge_witness:
  "decodeBlock_loop \<lparr>Bytes = replicate (2 ^ 32) 0x5C, ExecutableRegions = [], DirtyCodeRanges = []\<rparr> 0 [] = None"
proof (rule decoding_may_diverge)
  let ?m = "\<lparr>Bytes = replicate (2 ^ 32) 0x5C, ExecutableRegions = [], DirtyCodeRanges = []\<rparr> :: TIMemory"
  show "\<forall>a. aligned a \<longrightarrow> (\<exists>w. read32 ?m a = Inr w \<and> \<not> endsBlock (OpCode (decode w)))"
  proof (intro allI impI)
    fix a :: u32
    assume al: "aligned a"
    then have b: "unat a + 4 \<le> 2 ^ 32" using aligned_fits by simp
    then have "take 4 (drop (unat a) (Bytes ?m)) = replicate 4 0x5C"
      by (simp add: min_def)
    then have "read32 ?m a = Inr (decodeLittleEndianWord False (replicate 4 0x5C))"
      using al b by (simp add: read32_eq in_bounds_def)
    moreover have "decodeLittleEndianWord False (replicate 4 0x5C) = 0x5C5C5C5C"
      by (simp add: decodeLittleEndianWord_eq word_of_bytes_def)
    moreover have "OpCode (decode 0x5C5C5C5C) = OP_ADDI"
      by (simp add: decode_def DecodeVector_def info_def decodeAddi_def instr_def Let_def)
    ultimately show "\<exists>w. read32 ?m a = Inr w \<and> \<not> endsBlock (OpCode (decode w))" by auto
  qed
qed (simp_all add: aligned_def)

text \<open>C19. Looking up a block in a well-formed cache returns: either the error of the fetch, or a
  valid block for the address that was cached before or is decoded from the memory. The cache
  stays well-formed in both cases.\<close>

theorem lookup_returns_a_valid_block:
  assumes "cache_ok (length (Bytes m)) c"
  shows "case getBlock c a m of
      None \<Rightarrow> False
    | Some (Done c') \<Rightarrow> cache_ok (length (Bytes m)) c' \<and>
        (\<exists>b. Blocks c' a = Some b \<and> Valid b \<and> StartAddress b = a \<and> block_shape (Instructions b)
           \<and> (Blocks c a = Some b \<or> decoded_at m a (Instructions b)))
    | Some (Throw e c') \<Rightarrow> cache_ok (length (Bytes m)) c' \<and> Blocks c' a = None
        \<and> (\<exists>x. e = SimulationException x \<and> read32 m a = Inl x)
    | Some Stuck \<Rightarrow> False"
  using assms
proof (cases rule: getBlock_cases [where a = a])
  case (hit b)
  then show ?thesis using assms by (auto simp: cache_ok_def block_ok_def)
next
  case (error e c')
  have "cache_ok (length (Bytes m)) c'" using cache_ok_getBlock [OF assms, of a] error(1) by simp
  moreover have "Blocks c' a = None"
    using error unfolding getBlock_def decodeBlock_def
    by (auto split: option.splits sum.splits if_splits)
  ultimately show ?thesis using error by simp
next
  case (decoded c0 ins)
  have "cache_ok (length (Bytes m)) (c0\<lparr>Blocks := (Blocks c)(a := Some (TIBasicBlock_new a ins))\<rparr>)"
    using cache_ok_getBlock [OF assms, of a] decoded(1) by simp
  then show ?thesis using decoded by (simp add: TIBasicBlock_new_def block_ok_def)
qed

lemma lookup_returns_a_valid_block_witness:
  "cache_ok 8 emptyCache \<and> getBlock emptyCache 0 (TIMemory_new 8) \<noteq> None"
proof -
  have "cache_ok (length (Bytes (TIMemory_new 8))) emptyCache"
    by (rule cache_ok_empty) (simp add: TIMemory_new_def)
  from lookup_returns_a_valid_block [OF this, of 0] this show ?thesis
    by (auto simp: TIMemory_new_def split: option.splits)
qed

end
