(* ===== verification/Syscalls.thy ===== *)
theory Syscalls
  imports GuestMemory
begin

text \<open>
  \<open>cpu_state.hpp\<close>, \<open>execution_state.hpp\<close> and \<open>syscall_emulator.hpp/.cpp\<close>. The operating
  system and \<open>std::cin\<close> are a parameter: functions on an opaque world. A call that fails
  gives its \<open>errno\<close>; a failed extraction gives the end-of-file flag of the stream.
\<close>

section \<open>Processor and execution state\<close>

record TICpuState =
  Registers :: "u32 list"
  PC :: u32

definition TICpuState_new :: TICpuState where
  "TICpuState_new = \<lparr>Registers = replicate (unat REGISTER_COUNT) 0, PC = 0\<rparr>"

definition wf_cpu :: "TICpuState \<Rightarrow> bool" where
  "wf_cpu cpu \<longleftrightarrow> length (Registers cpu) = unat REGISTER_COUNT"

datatype ExecutionStatus = RUNNING | HALTED | FAULTED

record TIExecutionState =
  Status :: ExecutionStatus
  ExitCode :: u32

definition TIExecutionState_new :: TIExecutionState where
  "TIExecutionState_new = \<lparr>Status = RUNNING, ExitCode = 0\<rparr>"

definition reset :: "TIExecutionState \<Rightarrow> TIExecutionState" where
  "reset st = st\<lparr>Status := RUNNING, ExitCode := 0\<rparr>"

definition halt :: "u32 \<Rightarrow> TIExecutionState \<Rightarrow> TIExecutionState" where
  "halt code st = st\<lparr>Status := HALTED, ExitCode := code\<rparr>"

definition fault :: "TIExecutionState \<Rightarrow> TIExecutionState" where
  "fault st = st\<lparr>Status := FAULTED\<rparr>"

section \<open>The host\<close>

record 'w Host =
  host_read :: "nat \<Rightarrow> 'w \<Rightarrow> (u32 + u8 list) \<times> 'w"
  host_write :: "u32 \<Rightarrow> u8 list \<Rightarrow> 'w \<Rightarrow> (u32 + nat) \<times> 'w"
  host_cin :: "'w \<Rightarrow> (bool + u32) \<times> 'w"

text \<open>POSIX: \<open>read\<close> and \<open>write\<close> transfer at most the bytes asked for.\<close>

definition host_ok :: "'w Host \<Rightarrow> bool" where
  "host_ok H \<longleftrightarrow>
     (\<forall>n w bs w'. host_read H n w = (Inr bs, w') \<longrightarrow> length bs \<le> n)
     \<and> (\<forall>fd bs w k w'. host_write H fd bs w = (Inr k, w') \<longrightarrow> k \<le> length bs)"

text \<open>Linux numbers.\<close>

definition EBADF :: u32 where [simp]: "EBADF = 9"
definition EINVAL :: u32 where [simp]: "EINVAL = 22"
definition ENODATA :: u32 where [simp]: "ENODATA = 61"
definition STDIN_FILENO :: u32 where [simp]: "STDIN_FILENO = 0"
definition STDOUT_FILENO :: u32 where [simp]: "STDOUT_FILENO = 1"
definition STDERR_FILENO :: u32 where [simp]: "STDERR_FILENO = 2"

section \<open>The emulator\<close>

type_synonym 'w sys_state = "TICpuState \<times> TIMemory \<times> TIExecutionState \<times> 'w"

definition READ_NUMBER_SYSCALL :: u32 where
  [simp]: "READ_NUMBER_SYSCALL = 337"

definition syscallError :: "u32 \<Rightarrow> u32" where
  "syscallError errno = 0 - errno"

definition set_x0 :: "u32 \<Rightarrow> TICpuState \<Rightarrow> TICpuState" where
  "set_x0 v cpu = cpu\<lparr>Registers := (Registers cpu)[0 := v]\<rparr>"

fun handleRead :: "'w Host \<Rightarrow> 'w sys_state \<Rightarrow> 'w sys_state outcome" where
  "handleRead H (cpu, memory, st, w) =
     (let guestFileDescriptor = Registers cpu ! 0;
          addr = Registers cpu ! 1;
          byteCount = Registers cpu ! 2
      in if guestFileDescriptor \<noteq> STDIN_FILENO
         then Done (set_x0 (0 - EBADF) cpu, memory, st, w)
         else case writableRange memory addr (unat byteCount) of
             Inl e \<Rightarrow> Throw (SimulationException e) (cpu, memory, st, w)
           | Inr buffer \<Rightarrow>
              (case host_read H (DataSize buffer) w of
                 (Inl errno, w') \<Rightarrow> Done (set_x0 (syscallError errno) cpu, memory, st, w')
               | (Inr bs, w') \<Rightarrow>
                   Done (set_x0 (of_nat (length bs)) cpu, writeThrough memory buffer 0 bs, st, w')))"

fun handleReadNumber :: "'w Host \<Rightarrow> 'w sys_state \<Rightarrow> 'w sys_state outcome" where
  "handleReadNumber H (cpu, memory, st, w) =
     (case host_cin H w of
        (Inr v, w') \<Rightarrow> Done (set_x0 v cpu, memory, st, w')
      | (Inl eof, w') \<Rightarrow>
          (let errno = if eof then ENODATA else EINVAL
           in Done (set_x0 (syscallError errno) cpu, memory, st, w')))"

fun handleWrite :: "'w Host \<Rightarrow> 'w sys_state \<Rightarrow> 'w sys_state outcome" where
  "handleWrite H (cpu, memory, st, w) =
     (let guestFileDescriptor = Registers cpu ! 0;
          addr = Registers cpu ! 1;
          byteCount = Registers cpu ! 2
      in if guestFileDescriptor \<noteq> STDOUT_FILENO \<and> guestFileDescriptor \<noteq> STDERR_FILENO
         then Done (set_x0 (0 - EBADF) cpu, memory, st, w)
         else case readableRange memory addr (unat byteCount) of
             Inl e \<Rightarrow> Throw (SimulationException e) (cpu, memory, st, w)
           | Inr buffer \<Rightarrow>
              (case host_write H guestFileDescriptor buffer w of
                 (Inl errno, w') \<Rightarrow> Done (set_x0 (syscallError errno) cpu, memory, st, w')
               | (Inr n, w') \<Rightarrow> Done (set_x0 (of_nat n) cpu, memory, st, w')))"

fun handleExit :: "'w Host \<Rightarrow> 'w sys_state \<Rightarrow> 'w sys_state outcome" where
  "handleExit H (cpu, memory, st, w) = Done (cpu, memory, halt (Registers cpu ! 0) st, w)"

definition Handlers ::
  "'w Host \<Rightarrow> u32 \<Rightarrow> ('w sys_state \<Rightarrow> 'w sys_state outcome) option" where
  "Handlers H =
     [0 \<mapsto> handleRead H, 1 \<mapsto> handleWrite H, 60 \<mapsto> handleExit H,
      READ_NUMBER_SYSCALL \<mapsto> handleReadNumber H]"

fun execute_syscall :: "'w Host \<Rightarrow> 'w sys_state \<Rightarrow> 'w sys_state outcome" where
  "execute_syscall H (cpu, memory, st, w) =
     (let syscallNumber = Registers cpu ! 8
      in case Handlers H syscallNumber of
           None \<Rightarrow> Throw (SimulationException UNSUPPORTED_SYSCALL) (cpu, memory, st, w)
         | Some handler \<Rightarrow> handler (cpu, memory, st, w))"

section \<open>What a system call changes\<close>

lemma set_x0_frame [simp, ti_frame]:
  "PC (set_x0 v cpu) = PC cpu"
  "length (Registers (set_x0 v cpu)) = length (Registers cpu)"
  "0 < k \<Longrightarrow> Registers (set_x0 v cpu) ! k = Registers cpu ! k"
  by (simp_all add: set_x0_def)

lemma wf_cpu_set_x0 [simp]: "wf_cpu (set_x0 v cpu) = wf_cpu cpu"
  by (simp add: wf_cpu_def)

text \<open>
  The relation between the states before and after any system call: registers other than x0
  and the program counter are kept, memory only changes through \<open>read\<close>, and the status only
  through \<open>exit\<close>.
\<close>

definition sys_frame :: "'w sys_state \<Rightarrow> 'w sys_state \<Rightarrow> bool" where
  "sys_frame s t \<longleftrightarrow>
     (case s of (cpu, m, st, w) \<Rightarrow> case t of (cpu', m', st', w') \<Rightarrow>
        (\<exists>v. cpu' = set_x0 v cpu \<or> cpu' = cpu)
        \<and> length (Bytes m') = length (Bytes m)
        \<and> ExecutableRegions m' = ExecutableRegions m
        \<and> DirtyCodeRanges m' = DirtyCodeRanges m
        \<and> (Registers cpu ! 8 \<noteq> 0 \<longrightarrow> m' = m)
        \<and> (Registers cpu ! 8 \<noteq> 60 \<longrightarrow> st' = st)
        \<and> (Registers cpu ! 8 = 60 \<longrightarrow> st' = halt (Registers cpu ! 0) st))"

lemmas handler_simps =
  handleRead.simps handleReadNumber.simps handleWrite.simps handleExit.simps

lemma execute_syscall_frame: "holds_in (sys_frame s) (execute_syscall H s)"
proof (cases s)
  case (fields cpu m st w)
  consider "Registers cpu ! 8 = 0" | "Registers cpu ! 8 = 1" | "Registers cpu ! 8 = 60"
    | "Registers cpu ! 8 = 337" | "Handlers H (Registers cpu ! 8) = None" "Registers cpu ! 8 \<noteq> 60"
    by (cases "Registers cpu ! 8 \<in> {0, 1, 60, 337}") (auto simp: Handlers_def)
  then show ?thesis
    by cases (auto simp: fields Handlers_def sys_frame_def Let_def
        split: sum.splits prod.splits option.splits)
qed

text \<open>Where \<open>read\<close> writes: the first \<open>length bs\<close> bytes of the buffer, nothing else.\<close>

lemma handleRead_bytes:
  assumes "handleRead H (cpu, m, st, w) = Done (cpu', m', st', w')" "host_ok H"
    and "i < length (Bytes m)" "Bytes m' ! i \<noteq> Bytes m ! i"
  shows "unat (Registers cpu ! 1) \<le> i \<and> i < unat (Registers cpu ! 1) + unat (Registers cpu ! 2)"
  using assms
  by (fastforce simp: host_ok_def Let_def writableRange_eq writeThrough_def nth_storeBytes
      split: if_splits sum.splits prod.splits option.splits)

section \<open>A host without input\<close>

text \<open>Standard input is at its end, writes take everything.\<close>

definition silent_host :: "'w Host" where
  "silent_host = \<lparr>host_read = (\<lambda>n w. (Inr [], w)), host_write = (\<lambda>fd bs w. (Inr (length bs), w)),
     host_cin = (\<lambda>w. (Inl True, w))\<rparr>"

lemma silent_host_ok: "host_ok silent_host"
  by (simp add: host_ok_def silent_host_def)

section \<open>Properties\<close>

text \<open>
  The failures a guest can see: a descriptor the handler does not serve, an error of the host's
  \<open>read\<close> or \<open>write\<close>, no number on standard input. The result is the \<open>errno\<close> and the outside world
  after the attempt.
\<close>

fun host_error :: "(u32 + 'r) \<times> 'w \<Rightarrow> (u32 \<times> 'w) option" where
  "host_error (Inl errno, w) = Some (errno, w)"
| "host_error (Inr r, w) = None"

definition call_error :: "'w Host \<Rightarrow> TICpuState \<Rightarrow> TIMemory \<Rightarrow> 'w \<Rightarrow> (u32 \<times> 'w) option" where
  "call_error H cpu m w =
     (let number = Registers cpu ! 8; fd = Registers cpu ! 0; buf = unat (Registers cpu ! 1);
          n = unat (Registers cpu ! 2)
      in if number = 0 \<and> fd \<noteq> 0 \<or> number = 1 \<and> fd \<noteq> 1 \<and> fd \<noteq> 2 then Some (EBADF, w)
         else if number \<in> {0, 1} \<and> \<not> in_bounds m (Registers cpu ! 1) n then None
         else if number = 0 then host_error (host_read H n w)
         else if number = 1 then host_error (host_write H fd (take n (drop buf (Bytes m))) w)
         else if number = 337 then (case host_cin H w of
             (Inl eof, w') \<Rightarrow> Some (if eof then ENODATA else EINVAL, w') | _ \<Rightarrow> None)
         else None)"

text \<open>C34. A system call throws in two cases only, and then changes nothing: its number has no
  handler, or it is a read from standard input or a write to standard output or error whose
  buffer is not all in memory. A call that fails otherwise (a descriptor it does not serve, an
  error of the host, no number to read) returns, leaves the negated \<open>errno\<close> in x0 and changes nothing
  else of the guest.\<close>

theorem syscall_throws_iff:
  "(execute_syscall H (cpu, m, st, w) = Throw e t \<longleftrightarrow>
     t = (cpu, m, st, w) \<and>
     (e = SimulationException UNSUPPORTED_SYSCALL \<and> Registers cpu ! 8 \<notin> {0, 1, 60, 337}
      \<or> e = SimulationException MEMORY_OUT_OF_BOUNDS
        \<and> \<not> in_bounds m (Registers cpu ! 1) (unat (Registers cpu ! 2))
        \<and> (Registers cpu ! 8 = 0 \<and> Registers cpu ! 0 = 0
           \<or> Registers cpu ! 8 = 1 \<and> Registers cpu ! 0 \<in> {1, 2})))
   \<and> (case call_error H cpu m w of
        Some (errno, w') \<Rightarrow> execute_syscall H (cpu, m, st, w) = Done (set_x0 (- errno) cpu, m, st, w')
      | None \<Rightarrow> True)"
proof (rule conjI)
  consider "Registers cpu ! 8 = 0" | "Registers cpu ! 8 = 1" | "Registers cpu ! 8 = 60"
    | "Registers cpu ! 8 = 337" | "Registers cpu ! 8 \<notin> {0, 1, 60, 337}" by blast
  then show "execute_syscall H (cpu, m, st, w) = Throw e t \<longleftrightarrow>
     t = (cpu, m, st, w) \<and>
     (e = SimulationException UNSUPPORTED_SYSCALL \<and> Registers cpu ! 8 \<notin> {0, 1, 60, 337}
      \<or> e = SimulationException MEMORY_OUT_OF_BOUNDS
        \<and> \<not> in_bounds m (Registers cpu ! 1) (unat (Registers cpu ! 2))
        \<and> (Registers cpu ! 8 = 0 \<and> Registers cpu ! 0 = 0
           \<or> Registers cpu ! 8 = 1 \<and> Registers cpu ! 0 \<in> {1, 2}))"
    by cases (auto simp: Handlers_def Let_def writableRange_eq readableRange_eq
        split: sum.split prod.split)
next
  consider "Registers cpu ! 8 = 0" | "Registers cpu ! 8 = 1" | "Registers cpu ! 8 = 337"
    | "call_error H cpu m w = None"
    by (cases "Registers cpu ! 8 \<in> {0, 1, 337}") (auto simp: call_error_def)
  then show "case call_error H cpu m w of
        Some (errno, w') \<Rightarrow> execute_syscall H (cpu, m, st, w) = Done (set_x0 (- errno) cpu, m, st, w')
      | None \<Rightarrow> True"
    by cases (auto simp: call_error_def syscallError_def Handlers_def Let_def writableRange_eq readableRange_eq
        split: sum.split prod.split option.split elim!: host_error.elims)
qed

text \<open>C35. What a system call may change: x0, the memory only in a read (never its size, its
  regions or the record of dirty code), the status only in an exit, which stores x0 as the exit
  code.\<close>

theorem syscall_frame:
  "holds_in (\<lambda>(cpu', m', st', w').
      PC cpu' = PC cpu \<and> length (Registers cpu') = length (Registers cpu)
      \<and> (\<exists>v. Registers cpu' = (Registers cpu)[0 := v])
      \<and> length (Bytes m') = length (Bytes m) \<and> ExecutableRegions m' = ExecutableRegions m
      \<and> DirtyCodeRanges m' = DirtyCodeRanges m
      \<and> (Registers cpu ! 8 = 0 \<or> m' = m)
      \<and> st' = (if Registers cpu ! 8 = 60 then st\<lparr>Status := HALTED, ExitCode := Registers cpu ! 0\<rparr> else st))
    (execute_syscall H (cpu, m, st, w))"
proof (rule holds_in_mono [OF execute_syscall_frame [of "(cpu, m, st, w)" H]])
  fix s
  assume "sys_frame (cpu, m, st, w) s"
  moreover have "\<exists>v. Registers cpu = (Registers cpu)[0 := v]"
    by (intro exI [of _ "Registers cpu ! 0"]) simp
  ultimately show "case s of (cpu', m', st', w') \<Rightarrow>
      PC cpu' = PC cpu \<and> length (Registers cpu') = length (Registers cpu)
      \<and> (\<exists>v. Registers cpu' = (Registers cpu)[0 := v])
      \<and> length (Bytes m') = length (Bytes m) \<and> ExecutableRegions m' = ExecutableRegions m
      \<and> DirtyCodeRanges m' = DirtyCodeRanges m
      \<and> (Registers cpu ! 8 = 0 \<or> m' = m)
      \<and> st' = (if Registers cpu ! 8 = 60 then st\<lparr>Status := HALTED, ExitCode := Registers cpu ! 0\<rparr> else st)"
    by (auto simp: sys_frame_def set_x0_def halt_def)
qed

text \<open>C36. A read system call from standard input stores the bytes the host returned at the start of
  the buffer, leaves every other byte, and returns their number.\<close>

theorem read_syscall_stores:
  assumes "Registers cpu ! 8 = 0" "Registers cpu ! 0 = 0"
    and "in_bounds m (Registers cpu ! 1) (unat (Registers cpu ! 2))"
    and "host_read H (unat (Registers cpu ! 2)) w = (Inr bs, w')" "host_ok H"
  shows "\<exists>m'. execute_syscall H (cpu, m, st, w) = Done (set_x0 (of_nat (length bs)) cpu, m', st, w')
     \<and> take (length bs) (drop (unat (Registers cpu ! 1)) (Bytes m')) = bs
     \<and> (\<forall>i < length (Bytes m). i < unat (Registers cpu ! 1) \<or> unat (Registers cpu ! 1) + length bs \<le> i
          \<longrightarrow> Bytes m' ! i = Bytes m ! i)"
proof -
  have l: "0 + length bs \<le> unat (Registers cpu ! 2)" using assms(4,5) by (auto simp: host_ok_def)
  then have "unat (Registers cpu ! 1) + length bs \<le> length (Bytes m)"
    using assms(3) by (simp add: in_bounds_def)
  then show ?thesis using assms
    by (auto simp: Handlers_def Let_def writableRange_eq writeThrough_eq [OF l] nth_storeBytes
        intro!: take_drop_storeBytes_same)
qed

definition read_sample_cpu :: TICpuState where
  "read_sample_cpu = TICpuState_new\<lparr>Registers := (replicate 32 0)[1 := 4, 2 := 2]\<rparr>"

definition read_sample_host :: "unit Host" where
  "read_sample_host = silent_host\<lparr>host_read := \<lambda>n w. (Inr (take n [65]), w)\<rparr>"

lemma read_syscall_stores_witness:
  "\<exists>m'. execute_syscall read_sample_host (read_sample_cpu, TIMemory_new 8, TIExecutionState_new, ())
      = Done (set_x0 1 read_sample_cpu, m', TIExecutionState_new, ()) \<and> take 1 (drop 4 (Bytes m')) = [65]"
proof -
  have r: "Registers read_sample_cpu ! 8 = 0" "Registers read_sample_cpu ! 0 = 0"
    "Registers read_sample_cpu ! 1 = 4" "Registers read_sample_cpu ! 2 = 2"
    by (simp_all add: read_sample_cpu_def)
  have b: "in_bounds (TIMemory_new 8) (Registers read_sample_cpu ! 1) (unat (Registers read_sample_cpu ! 2))"
    unfolding r by (simp add: in_bounds_def TIMemory_new_def)
  have h: "host_read read_sample_host (unat (Registers read_sample_cpu ! 2)) () = (Inr [65], ())"
    by (simp add: r read_sample_host_def)
  have ok: "host_ok read_sample_host" by (auto simp: host_ok_def read_sample_host_def silent_host_def)
  show ?thesis
    using read_syscall_stores [OF r(1,2) b h ok, of TIExecutionState_new] unfolding r by auto
qed

end
