(* ===== verification/Alu.thy ===== *)
theory Alu
  imports BitUtils
begin

text \<open>
  Namespace \<open>ExecutorDetail\<close> of \<open>executor.cpp\<close>: the loops and case splits behind CLZ, SSAT,
  RORI and BEXT, each proved equal to a direct description of the operation.
\<close>

section \<open>Count leading zeros\<close>

function countLeadingZeros_loop :: "u32 \<Rightarrow> u32 \<Rightarrow> u32 \<Rightarrow> u32" where
  "countLeadingZeros_loop v m count =
     (if m \<noteq> 0 \<and> v AND m = 0
      then countLeadingZeros_loop v (drop_bit 1 m) (count + 1)
      else count)"
  by pat_completeness auto
termination
proof (relation "measure (\<lambda>(v, m, count). unat m)")
  fix v m count :: u32
  assume "m \<noteq> 0 \<and> v AND m = 0"
  then have "0 < unat m" by (simp add: unat_gt_0)
  then have "unat m div 2 < unat m" by simp
  then show "((v, drop_bit 1 m, count + 1), v, m, count) \<in> measure (\<lambda>(v, m, count). unat m)"
    by (simp add: drop_bit_eq_div unat_div_distrib)
qed simp

declare countLeadingZeros_loop.simps [simp del]

definition countLeadingZeros :: "u32 \<Rightarrow> u32" where
  "countLeadingZeros v = countLeadingZeros_loop v 0x80000000 0"

text \<open>The number of zero bits above the highest set bit.\<close>

definition leading_zeros :: "u32 \<Rightarrow> nat" where
  "leading_zeros v = length (takeWhile (\<lambda>k. \<not> bit v k) (rev [0..<32]))"

lemma and_exp_eq_0_iff: "(v :: u32) AND 2 ^ j = 0 \<longleftrightarrow> \<not> bit v j"
  using bit_iff_and_push_bit_not_eq_0 [of v j] by simp

lemma countLeadingZeros_loop_eq:
  "j < 32 \<Longrightarrow> countLeadingZeros_loop v (2 ^ j) count =
     count + of_nat (length (takeWhile (\<lambda>k. \<not> bit v k) (rev [0..<Suc j])))"
proof (induction j arbitrary: count)
  case 0
  have "countLeadingZeros_loop v 0 c = c" for c
    by (simp add: countLeadingZeros_loop.simps)
  moreover have "drop_bit 1 (1 :: u32) = 0" by (simp add: drop_bit_eq_div)
  ultimately show ?case
    using and_exp_eq_0_iff [of v 0]
    by (subst countLeadingZeros_loop.simps) auto
next
  case (Suc j)
  have "bit (2 ^ Suc j :: u32) (Suc j)"
    using Suc.prems by (simp add: bit_exp_iff del: power_Suc)
  then have "(2 ^ Suc j :: u32) \<noteq> 0" by auto
  moreover have "drop_bit 1 (2 ^ Suc j) = (2 ^ j :: u32)"
    using Suc.prems by (intro bit_word_eqI) (auto simp: bit_simps)
  ultimately show ?case
    using Suc and_exp_eq_0_iff [of v "Suc j"]
    by (subst countLeadingZeros_loop.simps) (simp del: power_Suc)
qed

lemma countLeadingZeros_eq: "countLeadingZeros v = of_nat (leading_zeros v)"
proof -
  have "(0x80000000 :: u32) = 2 ^ 31" by simp
  then show ?thesis
    using countLeadingZeros_loop_eq [of 31 v 0]
    unfolding countLeadingZeros_def leading_zeros_def by (simp del: upt_Suc)
qed

lemma leading_zeros_le: "leading_zeros v \<le> 32"
  using length_takeWhile_le [of "\<lambda>k. \<not> bit v k" "rev [0..<32]"]
  by (simp add: leading_zeros_def del: upt_rec_numeral)

lemma unat_countLeadingZeros: "unat (countLeadingZeros v) = leading_zeros v"
  using leading_zeros_le [of v]
  by (simp add: countLeadingZeros_eq unat_of_nat take_bit_nat_eq_self)

lemma leading_zeros_0: "leading_zeros 0 = 32"
  by (simp add: leading_zeros_def takeWhile_eq_all_conv [THEN iffD2] del: upt_rec_numeral)

lemma leading_zeros_less:
  assumes "v \<noteq> 0"
  shows "leading_zeros v < 32"
proof -
  have "\<exists>b. bit v b"
    using assms by (metis bit_word_eqI bit_0_eq bot_apply bot_bool_def)
  then obtain b where "bit v b" "b < 32"
    using bit_imp_le_length by fastforce
  then show ?thesis
    using length_takeWhile_less [of b "rev [0..<32]" "\<lambda>k. \<not> bit v k"]
    by (simp add: leading_zeros_def del: upt_rec_numeral)
qed

lemma nth_rev_upt32: "i < 32 \<Longrightarrow> rev [0..<32] ! i = 31 - i"
  by (simp add: rev_nth del: upt_rec_numeral)

lemma leading_zeros_bit:
  assumes "v \<noteq> 0"
  shows "bit v (31 - leading_zeros v)"
  using nth_length_takeWhile [of "\<lambda>k. \<not> bit v k" "rev [0..<32]"] leading_zeros_less [OF assms]
  by (simp add: leading_zeros_def [symmetric] nth_rev_upt32 del: upt_rec_numeral)

lemma leading_zeros_above:
  assumes "31 < leading_zeros v + k"
  shows "\<not> bit v k"
proof (cases "k < 32")
  case True
  then have i: "31 - k < length (takeWhile (\<lambda>k. \<not> bit v k) (rev [0..<32]))"
    using assms by (simp add: leading_zeros_def [symmetric] del: upt_rec_numeral)
  have "takeWhile (\<lambda>k. \<not> bit v k) (rev [0..<32]) ! (31 - k) = k"
    using True nth_rev_upt32 [of "31 - k"] by (simp add: takeWhile_nth [OF i] del: upt_rec_numeral)
  then have "k \<in> set (takeWhile (\<lambda>k. \<not> bit v k) (rev [0..<32]))"
    using nth_mem [OF i] by simp
  then show ?thesis by (auto dest: set_takeWhileD simp del: upt_rec_numeral)
next
  case False
  then show ?thesis by (auto dest: bit_imp_le_length)
qed

section \<open>Signed saturation\<close>

definition saturateSigned :: "u32 \<Rightarrow> u32 \<Rightarrow> ErrorCode + u32" where
  "saturateSigned v width =
     (if width = 0 \<or> width \<ge> WORD_BIT_COUNT then Inl INVALID_INSTRUCTION
      else let maximum = makeMask (width - 1);
               minimum = NOT maximum;
               signBit = push_bit (unat (WORD_BIT_COUNT - 1)) 1
           in if v AND signBit = 0
              then Inr (if v > maximum then maximum else v)
              else Inr (if v < minimum then minimum else v))"

text \<open>Clamping to the signed \<open>width\<close>-bit range.\<close>

definition signed_clamp :: "nat \<Rightarrow> int \<Rightarrow> int" where
  "signed_clamp width i = max (- (2 ^ (width - 1))) (min (2 ^ (width - 1) - 1) i)"

lemma bit_31_iff: "bit (v :: u32) 31 \<longleftrightarrow> 2147483648 \<le> uint v"
proof -
  have "uint v div 2147483648 = (if 2147483648 \<le> uint v then 1 else 0)"
    using uint_lt2p [of v] by (auto simp: div_pos_geq)
  then have "bit (uint v) 31 \<longleftrightarrow> 2147483648 \<le> uint v"
    by (simp add: bit_iff_odd)
  then show ?thesis by (simp add: bit_uint_iff)
qed

lemma sint_u32_eq: "sint (v :: u32) = (if uint v < 2147483648 then uint v else uint v - 4294967296)"
proof -
  have "sint v = signed_take_bit 31 (uint v)" by (simp add: sint_uint)
  also have "\<dots> = take_bit 32 (uint v) - 4294967296 * of_bool (bit (uint v) 31)"
    by (simp add: signed_take_bit_eq_take_bit_minus)
  also have "take_bit 32 (uint v) = uint v"
    using uint_lt2p [of v] by (simp add: take_bit_int_eq_self)
  also have "bit (uint v) 31 \<longleftrightarrow> \<not> uint v < 2147483648"
    using bit_31_iff [of v] by (simp add: bit_uint_iff not_less)
  finally show ?thesis by simp
qed

lemma and_sign_bit_eq_0: "(v :: u32) AND 0x80000000 = 0 \<longleftrightarrow> uint v < 2147483648"
  using and_exp_eq_0_iff [of v 31] by (simp add: bit_31_iff not_le)

lemma uint_not_u32: "uint (NOT (v :: u32)) = 4294967295 - uint v"
proof -
  have "NOT v = -1 - v"
    by (simp add: not_eq_complement)
  moreover have "uint v \<le> uint (-1 :: u32)"
    using word_n1_ge [of v] by (simp add: word_le_def)
  ultimately show ?thesis
    by (simp add: uint_sub_lem [THEN iffD1] unsigned_minus_1_eq_mask mask_eq_exp_minus_1)
qed

lemma clamp_cases:
  fixes a p :: int
  assumes "0 < p" "p \<le> 1073741824" "0 \<le> a" "a < 4294967296"
    and "b = (if a < 2147483648 then if p - 1 < a then p - 1 else a
              else if a < 4294967295 - (p - 1) then 4294967295 - (p - 1) else a)"
  shows "(if b < 2147483648 then b else b - 4294967296)
    = max (- p) (min (p - 1) (if a < 2147483648 then a else a - 4294967296))"
  using assms by (auto simp: max_def min_def)

lemma saturateSigned_eq:
  assumes "width \<noteq> 0" "width < 32"
  shows "\<exists>r. saturateSigned v width = Inr r \<and> sint r = signed_clamp (unat width) (sint v)"
proof -
  define k where "k = unat width - 1"
  define mx where "mx = makeMask (width - 1)"
  have "0 < unat width" "unat width < 32"
    using assms by (simp_all add: unat_gt_0 word_less_nat_alt)
  then have w: "unat width = Suc k" "k < 31" "unat (width - 1) = k"
    using assms by (simp_all add: k_def unat_minus_one)
  have p: "(2::int) ^ k \<le> 2 ^ 30" "(0::int) < 2 ^ k"
    using w(2) power_increasing [of k 30 "2::int"] by simp_all
  have "makeMask_asserts (width - 1)"
    using w by (simp add: makeMask_asserts_def word_le_nat_alt)
  then have mx: "uint mx = 2 ^ k - 1"
  proof -
    assume "makeMask_asserts (width - 1)"
    then have "uint mx = mask (min 32 k)"
      by (simp only: mx_def makeMask_eq uint_mask_eq w) simp
    then show ?thesis using w by (simp add: min_def mask_eq_exp_minus_1)
  qed
  have sat: "saturateSigned v width =
      Inr (if uint v < 2147483648 then (if v > mx then mx else v)
           else (if v < NOT mx then NOT mx else v))"
    using assms
    by (simp add: saturateSigned_def mx_def Let_def and_sign_bit_eq_0 not_le)
  define r where "r = (if uint v < 2147483648 then (if v > mx then mx else v)
           else (if v < NOT mx then NOT mx else v))"
  have "uint r = (if uint v < 2147483648 then if 2 ^ k - 1 < uint v then 2 ^ k - 1 else uint v
      else if uint v < 4294967295 - (2 ^ k - 1) then 4294967295 - (2 ^ k - 1) else uint v)"
    using mx uint_not_u32 [of mx] by (simp add: r_def word_less_def)
  then have "sint r = signed_clamp (unat width) (sint v)"
    using clamp_cases [of "2 ^ k" "uint v" "uint r"] p uint_lt2p [of v]
    by (simp add: sint_u32_eq signed_clamp_def w)
  then show ?thesis using sat r_def by blast
qed

lemma saturateSigned_error:
  "width = 0 \<or> 32 \<le> width \<Longrightarrow> saturateSigned v width = Inl INVALID_INSTRUCTION"
  by (auto simp: saturateSigned_def)

section \<open>Rotate right\<close>

definition rotateRight :: "u32 \<Rightarrow> u32 \<Rightarrow> u32" where
  "rotateRight v shift =
     (if shift = 0 then v
      else drop_bit (unat shift) v OR push_bit (unat (WORD_BIT_COUNT - shift)) v)"

lemma rotateRight_eq:
  assumes "shift < 32"
  shows "rotateRight v shift = word_rotr (unat shift) v"
proof (cases "shift = 0")
  case False
  have s: "unat shift < 32" "0 < unat shift"
    using assms False by (simp_all add: word_less_nat_alt unat_gt_0)
  have "shift \<le> 32" using assms by simp
  then have d: "unat (32 - shift) = 32 - unat shift"
    by (simp add: unat_sub)
  have "rotateRight v shift = drop_bit (unat shift) v OR push_bit (32 - unat shift) v"
    using False d by (simp add: rotateRight_def)
  also have "\<dots> = word_rotr (unat shift) v"
  proof (rule bit_word_eqI)
    fix n assume "n < LENGTH(32)"
    then have n: "n < 32" by simp
    have rot: "bit (word_rotr (unat shift) v) n \<longleftrightarrow> bit v ((n + unat shift) mod 32)"
      using n by (simp add: bit_word_rotr_iff)
    show "bit (drop_bit (unat shift) v OR push_bit (32 - unat shift) v) n
        = bit (word_rotr (unat shift) v) n"
    proof (cases "n + unat shift < 32")
      case True
      then have "\<not> 32 - unat shift \<le> n" by simp
      then show ?thesis using n s True unfolding rot by (simp add: bit_simps add.commute)
    next
      case False
      then have "(n + unat shift) mod 32 = n - (32 - unat shift)"
        using n s by (simp add: mod_if)
      moreover have "\<not> bit v (unat shift + n)" "32 - unat shift \<le> n"
        using False by (auto dest: bit_imp_le_length)
      ultimately show ?thesis using n s False unfolding rot by (simp add: bit_simps)
    qed
  qed
  finally show ?thesis .
qed (auto intro!: bit_word_eqI simp: rotateRight_def bit_word_rotr_iff)

section \<open>Bit compression\<close>

function compressBits_loop :: "u32 \<Rightarrow> u32 \<Rightarrow> u32 \<Rightarrow> u32 \<Rightarrow> u32 \<Rightarrow> u32" where
  "compressBits_loop v m inputBit outputBit result =
     (if inputBit < WORD_BIT_COUNT
      then if m AND push_bit (unat inputBit) 1 \<noteq> 0
           then compressBits_loop v m (inputBit + 1) (outputBit + 1)
                  (result OR push_bit (unat outputBit) (drop_bit (unat inputBit) v AND 1))
           else compressBits_loop v m (inputBit + 1) outputBit result
      else result)"
  by pat_completeness auto
termination
  by (relation "measure (\<lambda>(v, m, inputBit, _, _). 32 - unat inputBit)")
    (auto simp: word_less_nat_alt unat_word_ariths)

declare compressBits_loop.simps [simp del]

definition compressBits :: "u32 \<Rightarrow> u32 \<Rightarrow> u32" where
  "compressBits v m = compressBits_loop v m 0 0 0"

text \<open>The bits of \<open>v\<close> at the set positions of \<open>m\<close>, packed from bit 0 upwards.\<close>

definition selected :: "u32 \<Rightarrow> nat list" where
  "selected m = filter (bit m) [0..<32]"

definition packed_bits :: "u32 \<Rightarrow> u32 \<Rightarrow> u32" where
  "packed_bits v m = horner_sum of_bool 2 (map (bit v) (selected m))"

lemma bit_packed_bits:
  "bit (horner_sum of_bool 2 (map (bit v) ks) :: u32) n \<longleftrightarrow>
     n < 32 \<and> n < length ks \<and> bit v (ks ! n)"
  by (auto simp: bit_horner_sum_bit_word_iff)

lemma compressBits_loop_step:
  fixes v :: u32
  assumes "length ks < 32"
  shows "(horner_sum of_bool 2 (map (bit v) ks) :: u32) OR push_bit (length ks) (drop_bit i v AND 1)
     = horner_sum of_bool 2 (map (bit v) (ks @ [i]))"
proof (rule bit_word_eqI)
  fix n assume "n < LENGTH(32)"
  then have n: "n < 32" by simp
  have one: "drop_bit i v AND 1 = of_bool (bit v i)"
    by (simp add: and_one_eq mod_2_eq_odd bit_iff_odd_drop_bit)
  have "bit (push_bit (length ks) (of_bool (bit v i) :: u32)) n \<longleftrightarrow> n = length ks \<and> bit v i"
    using n by (cases "bit v i") (auto simp: bit_exp_iff)
  then show "bit ((horner_sum of_bool 2 (map (bit v) ks) :: u32)
      OR push_bit (length ks) (drop_bit i v AND 1)) n
    = bit (horner_sum of_bool 2 (map (bit v) (ks @ [i])) :: u32) n"
    unfolding one bit_or_iff bit_packed_bits using n
    by (auto simp: nth_append less_Suc_eq)
qed

lemma compressBits_loop_eq:
  assumes "i \<le> 32" and "ks = filter (bit m) [0..<i]"
  shows "compressBits_loop v m (of_nat i) (of_nat (length ks)) (horner_sum of_bool 2 (map (bit v) ks))
     = packed_bits v m"
  using assms
proof (induction "32 - i" arbitrary: i ks)
  case 0
  then have "i = 32" by simp
  then show ?case using 0
    by (subst compressBits_loop.simps) (simp add: packed_bits_def selected_def del: upt_rec_numeral)
next
  case (Suc d)
  then have i: "i < 32" and d: "d = 32 - Suc i" "Suc i \<le> 32" by simp_all
  have len: "length ks \<le> i"
    using length_filter_le [of "bit m" "[0..<i]"] Suc.prems by simp
  have u: "unat (of_nat i :: u32) = i" "unat (of_nat (length ks) :: u32) = length ks"
    using i len by (simp_all add: unat_of_nat take_bit_nat_eq_self)
  have lt: "(of_nat i :: u32) < 32"
    using i u by (simp add: word_less_nat_alt)
  have sel: "m AND push_bit i 1 \<noteq> 0 \<longleftrightarrow> bit m i"
    by (rule bit_iff_and_push_bit_not_eq_0 [symmetric])
  have suc: "(of_nat i :: u32) + 1 = of_nat (Suc i)"
    "(of_nat (length ks) :: u32) + 1 = of_nat (Suc (length ks))" by simp_all
  show ?case
  proof (cases "bit m i")
    case True
    have "compressBits_loop v m (of_nat i) (of_nat (length ks)) (horner_sum of_bool 2 (map (bit v) ks))
      = compressBits_loop v m (of_nat (Suc i)) (of_nat (length (ks @ [i])))
          (horner_sum of_bool 2 (map (bit v) (ks @ [i])))"
      using True sel lt len i compressBits_loop_step [of ks v i]
      by (subst compressBits_loop.simps) (simp add: u suc del: of_nat_Suc map_append horner_sum_append)
    also have "\<dots> = packed_bits v m"
      using Suc.hyps(1) [OF d] True Suc.prems by simp
    finally show ?thesis .
  next
    case False
    have "compressBits_loop v m (of_nat i) (of_nat (length ks)) (horner_sum of_bool 2 (map (bit v) ks))
      = compressBits_loop v m (of_nat (Suc i)) (of_nat (length ks))
          (horner_sum of_bool 2 (map (bit v) ks))"
      using False sel lt
      by (subst compressBits_loop.simps) (simp add: u suc del: of_nat_Suc)
    also have "\<dots> = packed_bits v m"
      using Suc.hyps(1) [OF d] False Suc.prems by simp
    finally show ?thesis .
  qed
qed

lemma compressBits_eq: "compressBits v m = packed_bits v m"
  using compressBits_loop_eq [of 0 "[]" m v] by (simp add: compressBits_def)

lemma length_selected: "length (selected m) \<le> 32"
  using length_filter_le [of "bit m" "[0..<32]"] by (simp add: selected_def del: upt_rec_numeral)

lemma bit_compressBits:
  "bit (compressBits v m) n \<longleftrightarrow> n < length (selected m) \<and> bit v (selected m ! n)"
  using length_selected [of m] by (auto simp: compressBits_eq packed_bits_def bit_packed_bits)

section \<open>Properties\<close>

text \<open>The count of leading zeros of a nonzero word brackets it between powers of two; the
  count of 0 is 32.\<close>

lemma clz_brackets:
  assumes "v \<noteq> 0"
  shows "countLeadingZeros 0 = 32 \<and> unat (countLeadingZeros v) \<le> 31
    \<and> 2 ^ (31 - unat (countLeadingZeros v)) \<le> unat v
    \<and> unat v < 2 ^ (32 - unat (countLeadingZeros v))"
proof -
  define n where "n = leading_zeros v"
  have n: "n < 32" "bit v (31 - n)" using leading_zeros_less [OF assms] leading_zeros_bit [OF assms]
    by (simp_all add: n_def)
  have "take_bit (32 - n) v = v"
  proof (rule bit_word_eqI)
    fix k assume "k < LENGTH(32)"
    show "bit (take_bit (32 - n) v) k = bit v k"
      using leading_zeros_above [of v k] n(1) by (cases "k < 32 - n") (auto simp: bit_take_bit_iff n_def)
  qed
  then have "unat v < 2 ^ (32 - n)" using unat_take_bit_less [of "32 - n" v] by simp
  moreover have "2 ^ (31 - n) \<le> unat v"
  proof -
    have "bit (unat v) (31 - n)" using n(2) by (simp add: bit_unsigned_iff)
    then have "odd (unat v div 2 ^ (31 - n))" by (simp add: bit_iff_odd)
    then have "unat v div 2 ^ (31 - n) \<noteq> 0" by (metis even_zero)
    then show ?thesis by (simp add: div_eq_0_iff)
  qed
  moreover have "countLeadingZeros 0 = 32" by (simp add: countLeadingZeros_eq leading_zeros_0)
  ultimately show ?thesis using n(1) by (simp add: unat_countLeadingZeros n_def [symmetric])
qed

text \<open>Signed saturation clamps to the signed range of the width; widths 0 and from 32 on are
  the invalid-instruction error.\<close>

lemma ssat_clamps:
  "case saturateSigned v width of
     Inl e \<Rightarrow> e = INVALID_INSTRUCTION \<and> (width = 0 \<or> 32 \<le> unat width)
   | Inr r \<Rightarrow> 0 < unat width \<and> unat width < 32
       \<and> sint r = max (- (2 ^ (unat width - 1))) (min (2 ^ (unat width - 1) - 1) (sint v))"
proof (cases "width = 0 \<or> 32 \<le> width")
  case True
  then show ?thesis by (auto simp: saturateSigned_error word_le_nat_alt)
next
  case False
  then have w: "width \<noteq> 0" "width < 32" "0 < unat width" by (auto simp: unat_gt_0)
  then show ?thesis using saturateSigned_eq [OF w(1,2), of v]
    by (auto simp: signed_clamp_def word_less_nat_alt)
qed

text \<open>Rotating right by less than 32 moves bit \<open>(n + shift) mod 32\<close> to bit \<open>n\<close>.\<close>

lemma rori_rotates:
  assumes "shift < 32" "n < 32"
  shows "bit (rotateRight v shift) n \<longleftrightarrow> bit v ((n + unat shift) mod 32)"
  using assms(2) by (simp add: rotateRight_eq [OF assms(1)] bit_word_rotr_iff)

text \<open>Bit extraction packs the bits of the value that the mask selects, from bit 0 upwards;
  the remaining bits are 0.\<close>

lemma bext_packs:
  "bit (compressBits v m) n \<longleftrightarrow>
     n < length (filter (bit m) [0..<32]) \<and> bit v (filter (bit m) [0..<32] ! n)"
  using bit_compressBits [of v m n] unfolding selected_def .

end
