(* ===== verification/Executor.thy ===== *)
theory Executor
  imports CacheInvariants Syscalls Alu
begin

text \<open>
  The state of \<open>ExecutionContext\<close>, \<open>flushInstructionCache\<close>, and the execute functions of
  \<open>executor.cpp\<close>, one per opcode. A function returns the context it leaves, also when it
  throws: a store pair that fails on its second word has written the first.
\<close>

section \<open>The execution context\<close>

datatype TIExecutionMode = THREADED | SWITCH | JIT

record 'w ExecutionContext =
  Cpu :: TICpuState
  Memory :: TIMemory
  State :: TIExecutionState
  BlockCache :: TIBasicBlockCache
  Mode :: TIExecutionMode
  JitThreshold :: u64
  JitOptimizationLevel :: u8
  World :: 'w

definition ExecutionContext_new ::
  "nat \<Rightarrow> TIExecutionMode \<Rightarrow> u64 \<Rightarrow> u8 \<Rightarrow> 'w \<Rightarrow> 'w ExecutionContext" where
  "ExecutionContext_new memorySize executionMode jitThreshold jitOptimizationLevel w =
     \<lparr>Cpu = TICpuState_new, Memory = TIMemory_new memorySize, State = TIExecutionState_new,
      BlockCache = emptyCache, Mode = executionMode, JitThreshold = jitThreshold,
      JitOptimizationLevel = jitOptimizationLevel, World = w\<rparr>"

definition flushInstructionCache :: "'w ExecutionContext \<Rightarrow> 'w ExecutionContext" where
  "flushInstructionCache C =
     (let (ranges, memory) = takeDirtyCodeRanges (Memory C)
      in C\<lparr>Memory := memory, BlockCache := dropRanges invalidateRange (BlockCache C) ranges\<rparr>)"

section \<open>Register access\<close>

definition reg :: "TICpuState \<Rightarrow> Operand \<Rightarrow> u32" where
  "reg cpu operand = Registers cpu ! unat (Value operand)"

definition set_reg :: "Operand \<Rightarrow> u32 \<Rightarrow> TICpuState \<Rightarrow> TICpuState" where
  "set_reg operand v cpu = cpu\<lparr>Registers := (Registers cpu)[unat (Value operand) := v]\<rparr>"

definition advance :: "TICpuState \<Rightarrow> TICpuState" where
  "advance cpu = cpu\<lparr>PC := PC cpu + INSTRUCTION_SIZE\<rparr>"

lemma set_reg_frame [simp, ti_frame]:
  "PC (set_reg r v cpu) = PC cpu"
  "length (Registers (set_reg r v cpu)) = length (Registers cpu)"
  "wf_cpu (set_reg r v cpu) = wf_cpu cpu"
  by (simp_all add: set_reg_def wf_cpu_def)

lemma advance_frame [simp, ti_frame]:
  "Registers (advance cpu) = Registers cpu"
  "PC (advance cpu) = PC cpu + 4"
  "wf_cpu (advance cpu) = wf_cpu cpu"
  by (simp_all add: advance_def wf_cpu_def)

lemma reg_set_reg:
  "wf_cpu cpu \<Longrightarrow> wf_operand \<lparr>Type = REGISTER, Value = r\<rparr> \<Longrightarrow>
     reg (set_reg \<lparr>Type = REGISTER, Value = r\<rparr> v cpu) \<lparr>Type = REGISTER, Value = s\<rparr> =
       (if r = s then v else reg cpu \<lparr>Type = REGISTER, Value = s\<rparr>)"
  by (auto simp: reg_def set_reg_def wf_cpu_def wf_operand_def word_less_nat_alt nth_list_update
      word_unat_eq_iff)

section \<open>The execute functions\<close>

definition executeLi :: "'w ExecutionContext \<Rightarrow> TIInstruction \<Rightarrow> 'w ExecutionContext outcome" where
  "executeLi C i =
     (let cpu = Cpu C; operands = Operands i
      in Done (C\<lparr>Cpu := advance (set_reg (operands ! 0) (Value (operands ! 1)) cpu)\<rparr>))"

definition executeAdd :: "'w ExecutionContext \<Rightarrow> TIInstruction \<Rightarrow> 'w ExecutionContext outcome" where
  "executeAdd C i =
     (let cpu = Cpu C; operands = Operands i
      in Done (C\<lparr>Cpu := advance (set_reg (operands ! 0)
                   (reg cpu (operands ! 1) + reg cpu (operands ! 2)) cpu)\<rparr>))"

definition executeAddi :: "'w ExecutionContext \<Rightarrow> TIInstruction \<Rightarrow> 'w ExecutionContext outcome" where
  "executeAddi C i =
     (let cpu = Cpu C; operands = Operands i
      in Done (C\<lparr>Cpu := advance (set_reg (operands ! 0)
                   (reg cpu (operands ! 1) + Value (operands ! 2)) cpu)\<rparr>))"

definition executeOr :: "'w ExecutionContext \<Rightarrow> TIInstruction \<Rightarrow> 'w ExecutionContext outcome" where
  "executeOr C i =
     (let cpu = Cpu C; operands = Operands i
      in Done (C\<lparr>Cpu := advance (set_reg (operands ! 0)
                   (reg cpu (operands ! 1) OR reg cpu (operands ! 2)) cpu)\<rparr>))"

definition executeLdReg :: "'w ExecutionContext \<Rightarrow> TIInstruction \<Rightarrow> 'w ExecutionContext outcome" where
  "executeLdReg C i =
     (let cpu = Cpu C; memory = Memory C; operands = Operands i;
          addr = reg cpu (operands ! 1) + reg cpu (operands ! 2)
      in case read32 memory addr of
           Inl e \<Rightarrow> Throw (SimulationException e) C
         | Inr v \<Rightarrow> Done (C\<lparr>Cpu := advance (set_reg (operands ! 0) v cpu)\<rparr>))"

definition executeLdImm :: "'w ExecutionContext \<Rightarrow> TIInstruction \<Rightarrow> 'w ExecutionContext outcome" where
  "executeLdImm C i =
     (let cpu = Cpu C; memory = Memory C; operands = Operands i;
          addr = reg cpu (operands ! 1) + Value (operands ! 2)
      in case read32 memory addr of
           Inl e \<Rightarrow> Throw (SimulationException e) C
         | Inr v \<Rightarrow> Done (C\<lparr>Cpu := advance (set_reg (operands ! 0) v cpu)\<rparr>))"

definition executeSt :: "'w ExecutionContext \<Rightarrow> TIInstruction \<Rightarrow> 'w ExecutionContext outcome" where
  "executeSt C i =
     (let cpu = Cpu C; memory = Memory C; operands = Operands i;
          addr = reg cpu (operands ! 1) + Value (operands ! 2)
      in case write32 memory addr (reg cpu (operands ! 0)) of
           Inl e \<Rightarrow> Throw (SimulationException e) C
         | Inr memory1 \<Rightarrow> Done (C\<lparr>Memory := memory1, Cpu := advance cpu\<rparr>))"

definition executeStp :: "'w ExecutionContext \<Rightarrow> TIInstruction \<Rightarrow> 'w ExecutionContext outcome" where
  "executeStp C i =
     (let cpu = Cpu C; memory = Memory C; operands = Operands i;
          addr = reg cpu (operands ! 2) + Value (operands ! 3)
      in case write32 memory addr (reg cpu (operands ! 0)) of
           Inl e \<Rightarrow> Throw (SimulationException e) C
         | Inr memory1 \<Rightarrow>
            (case write32 memory1 (addr + WORD_SIZE) (reg cpu (operands ! 1)) of
               Inl e \<Rightarrow> Throw (SimulationException e) (C\<lparr>Memory := memory1\<rparr>)
             | Inr memory2 \<Rightarrow> Done (C\<lparr>Memory := memory2, Cpu := advance cpu\<rparr>)))"

definition executeFlush :: "'w ExecutionContext \<Rightarrow> TIInstruction \<Rightarrow> 'w ExecutionContext outcome" where
  "executeFlush C i =
     (let C1 = flushInstructionCache C in Done (C1\<lparr>Cpu := advance (Cpu C1)\<rparr>))"

definition executeBeq :: "'w ExecutionContext \<Rightarrow> TIInstruction \<Rightarrow> 'w ExecutionContext outcome" where
  "executeBeq C i =
     (let cpu = Cpu C; operands = Operands i
      in if reg cpu (operands ! 0) = reg cpu (operands ! 1)
         then Done (C\<lparr>Cpu := cpu\<lparr>PC := PC cpu + Value (operands ! 2) * INSTRUCTION_SIZE\<rparr>\<rparr>)
         else Done (C\<lparr>Cpu := advance cpu\<rparr>))"

definition executeJ :: "'w ExecutionContext \<Rightarrow> TIInstruction \<Rightarrow> 'w ExecutionContext outcome" where
  "executeJ C i =
     (let cpu = Cpu C; operands = Operands i
      in Done (C\<lparr>Cpu := cpu\<lparr>PC := (PC cpu AND 0xF0000000)
                  OR (Value (operands ! 0) * INSTRUCTION_SIZE)\<rparr>\<rparr>))"

definition executeClz :: "'w ExecutionContext \<Rightarrow> TIInstruction \<Rightarrow> 'w ExecutionContext outcome" where
  "executeClz C i =
     (let cpu = Cpu C; operands = Operands i
      in Done (C\<lparr>Cpu := advance (set_reg (operands ! 0)
                   (countLeadingZeros (reg cpu (operands ! 1))) cpu)\<rparr>))"

definition executeSsat :: "'w ExecutionContext \<Rightarrow> TIInstruction \<Rightarrow> 'w ExecutionContext outcome" where
  "executeSsat C i =
     (let cpu = Cpu C; operands = Operands i
      in case saturateSigned (reg cpu (operands ! 1)) (Value (operands ! 2)) of
           Inl e \<Rightarrow> Throw (SimulationException e) C
         | Inr v \<Rightarrow> Done (C\<lparr>Cpu := advance (set_reg (operands ! 0) v cpu)\<rparr>))"

definition executeRori :: "'w ExecutionContext \<Rightarrow> TIInstruction \<Rightarrow> 'w ExecutionContext outcome" where
  "executeRori C i =
     (let cpu = Cpu C; operands = Operands i
      in Done (C\<lparr>Cpu := advance (set_reg (operands ! 0)
                   (rotateRight (reg cpu (operands ! 1)) (Value (operands ! 2))) cpu)\<rparr>))"

definition executeBext :: "'w ExecutionContext \<Rightarrow> TIInstruction \<Rightarrow> 'w ExecutionContext outcome" where
  "executeBext C i =
     (let cpu = Cpu C; operands = Operands i
      in Done (C\<lparr>Cpu := advance (set_reg (operands ! 0)
                   (compressBits (reg cpu (operands ! 1)) (reg cpu (operands ! 2))) cpu)\<rparr>))"

definition put_sys :: "'w ExecutionContext \<Rightarrow> 'w sys_state \<Rightarrow> 'w ExecutionContext" where
  "put_sys C s = (case s of (cpu, memory, st, w) \<Rightarrow>
     C\<lparr>Cpu := cpu, Memory := memory, State := st, World := w\<rparr>)"

definition executeSyscall ::
  "'w Host \<Rightarrow> 'w ExecutionContext \<Rightarrow> TIInstruction \<Rightarrow> 'w ExecutionContext outcome" where
  "executeSyscall H C i =
     bind_outcome (execute_syscall H (Cpu C, Memory C, State C, World C))
       (\<lambda>s. let C1 = put_sys C s
            in if Status (State C1) = RUNNING then Done (C1\<lparr>Cpu := advance (Cpu C1)\<rparr>) else Done C1)
       (put_sys C)"

definition executeInvalid :: "'w ExecutionContext \<Rightarrow> TIInstruction \<Rightarrow> 'w ExecutionContext outcome" where
  "executeInvalid C i = Throw (SimulationException INVALID_INSTRUCTION) C"

lemmas execute_defs =
  executeLi_def executeAdd_def executeAddi_def executeOr_def executeLdReg_def executeLdImm_def
  executeSt_def executeStp_def executeFlush_def executeBeq_def executeJ_def executeClz_def
  executeSsat_def executeRori_def executeBext_def executeInvalid_def

end
