(* ===== verification/SwitchExecutor.thy ===== *)
theory SwitchExecutor
  imports Executor
begin

text \<open>
  \<open>switch_executor.cpp\<close>, and what one instruction keeps: the well-formedness of the context,
  the size and the executable regions of the memory, and the agreement of cached code with it.
\<close>

section \<open>The engine\<close>

definition executeInstructionSwitch ::
  "'w Host \<Rightarrow> 'w ExecutionContext \<Rightarrow> TIInstruction \<Rightarrow> 'w ExecutionContext outcome" where
  "executeInstructionSwitch H C i =
     (case OpCode i of
        OP_LI \<Rightarrow> executeLi C i
      | OP_ADD \<Rightarrow> executeAdd C i
      | OP_ADDI \<Rightarrow> executeAddi C i
      | OP_OR \<Rightarrow> executeOr C i
      | OP_LDreg \<Rightarrow> executeLdReg C i
      | OP_ST \<Rightarrow> executeSt C i
      | OP_STP \<Rightarrow> executeStp C i
      | OP_FLUSH \<Rightarrow> executeFlush C i
      | OP_BEQ \<Rightarrow> executeBeq C i
      | OP_J \<Rightarrow> executeJ C i
      | OP_CLZ \<Rightarrow> executeClz C i
      | OP_SSAT \<Rightarrow> executeSsat C i
      | OP_RORI \<Rightarrow> executeRori C i
      | OP_BEXT \<Rightarrow> executeBext C i
      | OP_SYSCALL \<Rightarrow> executeSyscall H C i
      | OP_LDimm \<Rightarrow> executeLdImm C i
      | OP_INVALID \<Rightarrow> executeInvalid C i)"

fun executeSwitch_loop ::
  "'w Host \<Rightarrow> 'w ExecutionContext \<Rightarrow> TIInstruction list \<Rightarrow> 'w ExecutionContext outcome" where
  "executeSwitch_loop H C [] = Done C"
| "executeSwitch_loop H C (i # is) =
     andThen (executeInstructionSwitch H C i) (\<lambda>C1. executeSwitch_loop H C1 is)"

definition executeSwitchBlock ::
  "'w Host \<Rightarrow> 'w ExecutionContext \<Rightarrow> TIBasicBlock \<Rightarrow> 'w ExecutionContext outcome" where
  "executeSwitchBlock H C b = executeSwitch_loop H C (Instructions b)"

lemma executeSwitch_loop_append:
  "executeSwitch_loop H C (xs @ ys) =
     andThen (executeSwitch_loop H C xs) (\<lambda>C1. executeSwitch_loop H C1 ys)"
  by (induction xs arbitrary: C) (simp_all add: andThen_assoc)

lemma switch_opcode_cases:
  "executeInstructionSwitch H C i = executeLi C i \<and> OpCode i = OP_LI \<or>
   executeInstructionSwitch H C i = executeAdd C i \<and> OpCode i = OP_ADD \<or>
   executeInstructionSwitch H C i = executeAddi C i \<and> OpCode i = OP_ADDI \<or>
   executeInstructionSwitch H C i = executeOr C i \<and> OpCode i = OP_OR \<or>
   executeInstructionSwitch H C i = executeLdReg C i \<and> OpCode i = OP_LDreg \<or>
   executeInstructionSwitch H C i = executeSt C i \<and> OpCode i = OP_ST \<or>
   executeInstructionSwitch H C i = executeStp C i \<and> OpCode i = OP_STP \<or>
   executeInstructionSwitch H C i = executeFlush C i \<and> OpCode i = OP_FLUSH \<or>
   executeInstructionSwitch H C i = executeBeq C i \<and> OpCode i = OP_BEQ \<or>
   executeInstructionSwitch H C i = executeJ C i \<and> OpCode i = OP_J \<or>
   executeInstructionSwitch H C i = executeClz C i \<and> OpCode i = OP_CLZ \<or>
   executeInstructionSwitch H C i = executeSsat C i \<and> OpCode i = OP_SSAT \<or>
   executeInstructionSwitch H C i = executeRori C i \<and> OpCode i = OP_RORI \<or>
   executeInstructionSwitch H C i = executeBext C i \<and> OpCode i = OP_BEXT \<or>
   executeInstructionSwitch H C i = executeSyscall H C i \<and> OpCode i = OP_SYSCALL \<or>
   executeInstructionSwitch H C i = executeLdImm C i \<and> OpCode i = OP_LDimm \<or>
   executeInstructionSwitch H C i = executeInvalid C i \<and> OpCode i = OP_INVALID"
  by (cases "OpCode i") (simp_all add: executeInstructionSwitch_def)

section \<open>What an instruction may change\<close>

text \<open>
  The configuration never changes, the memory keeps its size and regions, the processor its
  32 registers, and only FLUSH touches the block cache.
\<close>

definition instr_frame :: "'w ExecutionContext \<Rightarrow> 'w ExecutionContext \<Rightarrow> bool" where
  "instr_frame C D \<longleftrightarrow>
     length (Bytes (Memory D)) = length (Bytes (Memory C))
     \<and> ExecutableRegions (Memory D) = ExecutableRegions (Memory C)
     \<and> length (Registers (Cpu D)) = length (Registers (Cpu C))
     \<and> Mode D = Mode C \<and> JitThreshold D = JitThreshold C
     \<and> JitOptimizationLevel D = JitOptimizationLevel C"

lemma instr_frame_refl [simp]: "instr_frame C C"
  by (simp add: instr_frame_def)

lemma instr_frame_trans: "instr_frame C D \<Longrightarrow> instr_frame D E \<Longrightarrow> instr_frame C E"
  by (simp add: instr_frame_def)

lemma flush_frame [simp, ti_frame]:
  "Bytes (Memory (flushInstructionCache C)) = Bytes (Memory C)"
  "ExecutableRegions (Memory (flushInstructionCache C)) = ExecutableRegions (Memory C)"
  "DirtyCodeRanges (Memory (flushInstructionCache C)) = []"
  "Cpu (flushInstructionCache C) = Cpu C"
  "State (flushInstructionCache C) = State C"
  "World (flushInstructionCache C) = World C"
  "Mode (flushInstructionCache C) = Mode C"
  "JitThreshold (flushInstructionCache C) = JitThreshold C"
  "JitOptimizationLevel (flushInstructionCache C) = JitOptimizationLevel C"
  "BlockCache (flushInstructionCache C) =
     dropRanges invalidateRange (BlockCache C) (DirtyCodeRanges (Memory C))"
  by (simp_all add: flushInstructionCache_def takeDirtyCodeRanges_def)

lemma put_sys_frame [simp, ti_frame]:
  "BlockCache (put_sys C s) = BlockCache C"
  "Mode (put_sys C s) = Mode C"
  "JitThreshold (put_sys C s) = JitThreshold C"
  "JitOptimizationLevel (put_sys C s) = JitOptimizationLevel C"
  by (simp_all add: put_sys_def split: prod.split)

lemma executeSyscall_holds:
  assumes "\<And>s. sys_frame (Cpu C, Memory C, State C, World C) s \<Longrightarrow> P (put_sys C s)"
    and "\<And>s. sys_frame (Cpu C, Memory C, State C, World C) s \<Longrightarrow> Status (State (put_sys C s)) = RUNNING
      \<Longrightarrow> P ((put_sys C s)\<lparr>Cpu := advance (Cpu (put_sys C s))\<rparr>)"
  shows "holds_in P (executeSyscall H C i)"
  using execute_syscall_frame [of "(Cpu C, Memory C, State C, World C)" H]
  by (cases "execute_syscall H (Cpu C, Memory C, State C, World C)")
    (auto simp: executeSyscall_def Let_def assms)

lemma executeSyscall_instr_frame: "holds_in (instr_frame C) (executeSyscall H C i)"
  by (rule executeSyscall_holds) (auto simp: sys_frame_def instr_frame_def put_sys_def)

lemma switch_instr_frame: "holds_in (instr_frame C) (executeInstructionSwitch H C i)"
  using switch_opcode_cases [of H C i]
proof (elim disjE conjE)
qed (auto simp: execute_defs Let_def instr_frame_def write32_frame executeSyscall_instr_frame
    split: sum.split dest: write32_frame)

section \<open>Well-formed contexts\<close>

definition ctx_ok :: "'w ExecutionContext \<Rightarrow> bool" where
  "ctx_ok C \<longleftrightarrow> wf_cpu (Cpu C) \<and> cache_ok (length (Bytes (Memory C))) (BlockCache C)"

lemma switch_cache_frame:
  "OpCode i \<noteq> OP_FLUSH \<Longrightarrow>
     holds_in (\<lambda>D. BlockCache D = BlockCache C) (executeInstructionSwitch H C i)"
  using switch_opcode_cases [of H C i]
proof (elim disjE conjE)
  assume "executeInstructionSwitch H C i = executeSyscall H C i"
  then show ?thesis by (auto intro!: executeSyscall_holds)
qed (auto simp: execute_defs Let_def split: sum.split)

lemma cache_ok_flush:
  "ctx_ok C \<Longrightarrow>
     cache_ok (length (Bytes (Memory C))) (BlockCache (flushInstructionCache C))"
  by (simp add: ctx_ok_def bbcache.dropRanges_inv)

lemma switch_ctx_ok:
  assumes "ctx_ok C"
  shows "holds_in ctx_ok (executeInstructionSwitch H C i)"
proof (cases "OpCode i = OP_FLUSH")
  case True
  then show ?thesis using assms cache_ok_flush [OF assms]
    by (simp add: executeInstructionSwitch_def executeFlush_def ctx_ok_def Let_def)
next
  case False
  show ?thesis
    using switch_instr_frame [of C H i] switch_cache_frame [OF False, of C H] assms
    by (cases "executeInstructionSwitch H C i") (auto simp: ctx_ok_def instr_frame_def wf_cpu_def)
qed

section \<open>Coherence of the code cache under execution\<close>

text \<open>
  A \<open>read\<close> system call whose buffer meets the executable regions: the one operation that
  writes the memory without recording it (\<open>handleRead\<close> writes through the pointer).
\<close>

definition reads_into_code :: "'w ExecutionContext \<Rightarrow> TIInstruction \<Rightarrow> bool" where
  "reads_into_code C i \<longleftrightarrow>
     OpCode i = OP_SYSCALL \<and> Registers (Cpu C) ! 8 = 0
     \<and> {unat (Registers (Cpu C) ! 1) ..<
         unat (Registers (Cpu C) ! 1) + unat (Registers (Cpu C) ! 2)}
        \<inter> executable_bytes (Memory C) \<noteq> {}"

definition ctx_coherent :: "'w ExecutionContext \<Rightarrow> bool" where
  "ctx_coherent C \<longleftrightarrow> coherent (Memory C) (validCode (BlockCache C))"

lemma flush_ctx_coherent:
  assumes "ctx_ok C" "ctx_coherent C"
    and "validCode (BlockCache (flushInstructionCache C)) a = Some ins"
    and "code_bytes a ins \<subseteq> executable_bytes (Memory C)"
  shows "decoded_at (Memory C) a ins"
  using assms bbcache.flush_coherent [of "length (Bytes (Memory C))" "BlockCache C" "Memory C" a ins]
  by (simp add: ctx_ok_def ctx_coherent_def)

lemma coherent_executeFlush:
  assumes "ctx_ok C" "ctx_coherent C"
  shows "holds_in ctx_coherent (executeFlush C i)"
proof -
  have "decoded_at (Memory (flushInstructionCache C)) a ins = decoded_at (Memory C) a ins"
    if "validCode (BlockCache (flushInstructionCache C)) a = Some ins" for a ins
  proof (rule decoded_at_cong)
    show "unat a + 4 * length ins < 2 ^ 32"
      using validCode_extent [OF cache_ok_flush [OF assms(1)] that] by simp
  qed simp_all
  then show ?thesis
    using flush_ctx_coherent [OF assms]
    by (auto simp: executeFlush_def ctx_coherent_def coherent_def Let_def executable_bytes_def)
qed

lemma coherent_executeSyscall:
  assumes "ctx_ok C" "ctx_coherent C" "host_ok H" "\<not> reads_into_code C i" "OpCode i = OP_SYSCALL"
  shows "holds_in ctx_coherent (executeSyscall H C i)"
proof -
  define s where "s = (Cpu C, Memory C, State C, World C)"
  have "coherent (fst (snd t)) (validCode (BlockCache C))"
    if t: "execute_syscall H s = Done t \<or> (\<exists>e. execute_syscall H s = Throw e t)" for t
  proof -
    obtain cpu' m' st' w' where t': "t = (cpu', m', st', w')" by (cases t)
    have fr: "sys_frame s t"
      using execute_syscall_frame [of s H] t by auto
    show ?thesis
    proof (cases "Registers (Cpu C) ! 8 = 0")
      case False
      then have "m' = Memory C" using fr by (simp add: sys_frame_def s_def t')
      then show ?thesis using assms(2) by (simp add: t' ctx_coherent_def)
    next
      case read: True
      have "i \<in> dirty_bytes m'"
        if "i < length (Bytes (Memory C))" "i \<in> executable_bytes (Memory C)"
          "Bytes m' ! i \<noteq> Bytes (Memory C) ! i" for i
      proof -
        have "handleRead H s = execute_syscall H s"
          using read by (simp add: s_def Handlers_def Let_def)
        then have d: "handleRead H (Cpu C, Memory C, State C, World C) = Done (cpu', m', st', w')"
          using t that(3) by (auto simp: s_def t' Let_def split: if_splits sum.splits prod.splits)
        have "unat (Registers (Cpu C) ! 1) \<le> i"
            "i < unat (Registers (Cpu C) ! 1) + unat (Registers (Cpu C) ! 2)"
          using handleRead_bytes [OF d assms(3) that(1,3)] by auto
        then show ?thesis using assms(4,5) read that(2) by (auto simp: reads_into_code_def)
      qed
      then show ?thesis
        using assms(1,2) fr
        by (auto simp: ctx_ok_def ctx_coherent_def t' sys_frame_def s_def dirty_bytes_def
            intro!: coherent_step [of "Memory C"])
    qed
  qed
  then show ?thesis
    by (cases "execute_syscall H s")
      (auto simp: executeSyscall_def s_def [symmetric] Let_def ctx_coherent_def put_sys_def
        split: prod.splits)
qed

lemma switch_coherent:
  assumes "ctx_ok C" "ctx_coherent C" "host_ok H" "\<not> reads_into_code C i"
  shows "holds_in ctx_coherent (executeInstructionSwitch H C i)"
proof -
  have w: "coherent m' (validCode (BlockCache C))" "cache_ok (length (Bytes m')) (BlockCache C)"
    if "write32 (Memory C) a v = Inr m'" for a v m'
    using that assms(1,2) coherent_write32 write32_frame(1) [OF that]
    by (auto simp: ctx_ok_def ctx_coherent_def)
  note w2 = coherent_write32 [OF w]
  show ?thesis
    using switch_opcode_cases [of H C i] coherent_executeFlush [OF assms(1,2), of i]
      coherent_executeSyscall [OF assms] assms(2)
    by (elim disjE conjE)
      (auto simp: execute_defs Let_def ctx_coherent_def split: sum.split dest: w w2)
qed

section \<open>Properties\<close>

text \<open>C11. No instruction makes cached code disagree with the memory unnoticed: if the code cached
  inside the executable regions is what the memory decodes to, or has a byte recorded as dirty,
  it is so afterwards. The one exception is a read system call into an executable region.\<close>

theorem instructions_keep_code_coherent:
  assumes "ctx_ok C" "ctx_coherent C" "host_ok H" "\<not> reads_into_code C i"
  shows "holds_in (\<lambda>D. ctx_ok D \<and> ctx_coherent D) (executeInstructionSwitch H C i)"
  using switch_coherent [OF assms] switch_ctx_ok [OF assms(1), of H i] by (intro holds_in_conj)

definition new_context :: "nat \<Rightarrow> unit ExecutionContext" where
  "new_context n = ExecutionContext_new n SWITCH 0 0 ()"

lemma new_context_ok: "n < 2 ^ 32 \<Longrightarrow> ctx_ok (new_context n)" "ctx_coherent (new_context n)"
  by (simp_all add: new_context_def ExecutionContext_new_def ctx_ok_def wf_cpu_def TICpuState_new_def
      cache_ok_def TIMemory_new_def ctx_coherent_def coherent_def validCode_def emptyCache_def)

lemma instructions_keep_code_coherent_witness:
  "holds_in (\<lambda>D. ctx_ok D \<and> ctx_coherent D)
     (executeInstructionSwitch silent_host (new_context 8) (decode 0))"
proof (rule instructions_keep_code_coherent)
  show "ctx_ok (new_context 8)" "ctx_coherent (new_context 8)" by (rule new_context_ok; simp)+
  show "host_ok (silent_host :: unit Host)" by (rule silent_host_ok)
  show "\<not> reads_into_code (new_context 8) (decode 0)"
    by (simp add: reads_into_code_def executable_bytes_def new_context_def ExecutionContext_new_def
        TIMemory_new_def)
qed

text \<open>C12. FLUSH always succeeds: afterwards nothing is recorded as dirty, the memory and its code
  regions are unchanged, only the program counter of the processor moves, and a block is in the
  cache only if it was there before and none of its bytes was recorded. If the cached code inside the executable regions disagreed with the memory only where a
  byte was recorded as dirty, then every block cached there afterwards is exactly what the memory
  decodes to. (Without that condition, which a read system call can break, a stale block stays.)\<close>

theorem flush_drops_stale_code:
  assumes "ctx_ok C"
  shows "\<exists>D. executeFlush C i = Done D \<and> DirtyCodeRanges (Memory D) = []
    \<and> Bytes (Memory D) = Bytes (Memory C) \<and> ExecutableRegions (Memory D) = ExecutableRegions (Memory C)
    \<and> Cpu D = (Cpu C)\<lparr>PC := PC (Cpu C) + 4\<rparr>
    \<and> (\<forall>a ins. validCode (BlockCache D) a = Some ins \<longrightarrow> validCode (BlockCache C) a = Some ins
         \<and> (\<forall>r \<in> set (DirtyCodeRanges (Memory C)). code_bytes a ins \<inter> range_bytes r = {}))
    \<and> (ctx_coherent C \<longrightarrow> (\<forall>a ins. validCode (BlockCache D) a = Some ins
         \<longrightarrow> code_bytes a ins \<subseteq> executable_bytes (Memory D) \<longrightarrow> decoded_at (Memory D) a ins))"
proof -
  define D where "D = (flushInstructionCache C)\<lparr>Cpu := advance (Cpu (flushInstructionCache C))\<rparr>"
  have stays: "validCode (BlockCache C) a = Some ins
      \<and> (\<forall>r \<in> set (DirtyCodeRanges (Memory C)). code_bytes a ins \<inter> range_bytes r = {})"
    if "validCode (BlockCache D) a = Some ins" for a ins
    using that assms bbcache.dropRanges_only [of "length (Bytes (Memory C))" "BlockCache C"]
    by (simp add: D_def ctx_ok_def)
  have fresh: "decoded_at (Memory D) a ins"
    if "ctx_coherent C" "validCode (BlockCache D) a = Some ins" "code_bytes a ins \<subseteq> executable_bytes (Memory D)" for a ins
  proof -
    have "decoded_at (Memory C) a ins"
      using flush_ctx_coherent [OF assms that(1), of a ins] that(2,3) by (simp add: D_def executable_bytes_def)
    moreover have "decoded_at (Memory D) a ins = decoded_at (Memory C) a ins"
    proof (rule decoded_at_cong)
      show "unat a + 4 * length ins < 2 ^ 32"
        using validCode_extent [OF cache_ok_flush [OF assms], of a ins] that(2) by (simp add: D_def)
    qed (simp_all add: D_def)
    ultimately show ?thesis by simp
  qed
  have "executeFlush C i = Done D" by (simp add: executeFlush_def D_def Let_def)
  with stays fresh show ?thesis by (intro exI [of _ D]) (simp add: D_def advance_def)
qed

text \<open>A context with an executable word 0 and the block cached from it.\<close>

definition code_context :: "unit ExecutionContext" where
  "code_context = (new_context 8)\<lparr>
     Memory := (TIMemory_new 8)\<lparr>ExecutableRegions := [\<lparr>Address = 0, Size = 4\<rparr>]\<rparr>,
     BlockCache := emptyCache\<lparr>Blocks := [0 \<mapsto> TIBasicBlock_new 0 [decode 0]]\<rparr>\<rparr>"

lemma decode_0: "decode 0 = \<lparr>OpCode = OP_INVALID, Operands = [], ThreadedHandler = Some threadedInvalid\<rparr>"
  by (simp add: decode_def DecodeVector_def info_def)

lemma read32_new_0: "read32 (TIMemory_new 8\<lparr>ExecutableRegions := rs\<rparr>) 0 = Inr 0"
  by (simp add: read32_eq in_bounds_def TIMemory_new_def aligned_def decodeLittleEndianWord_eq
      word_of_bytes_def)

lemma code_context_ok: "ctx_ok code_context" "ctx_coherent code_context"
proof -
  have "cache_ok 8 (BlockCache code_context)"
    by (simp add: cache_ok_def code_context_def block_ok_def TIBasicBlock_new_def aligned_def
        decode_0 wf_instruction_def emptyCache_def)
  then show "ctx_ok code_context"
    by (simp add: ctx_ok_def code_context_def TIMemory_new_def new_context_def ExecutionContext_new_def
        wf_cpu_def TICpuState_new_def)
  show "ctx_coherent code_context"
    by (auto simp: ctx_coherent_def coherent_def code_context_def validCode_def TIBasicBlock_new_def
        read32_new_0 emptyCache_def split: if_splits)
qed

lemma flush_drops_stale_code_witness:
  "\<exists>D. executeFlush code_context (decode 0) = Done D \<and> validCode (BlockCache D) 0 = Some [decode 0]
     \<and> decoded_at (Memory D) 0 [decode 0]"
proof -
  obtain D where f: "executeFlush code_context (decode 0) = Done D"
    "ExecutableRegions (Memory D) = ExecutableRegions (Memory code_context)"
    and fresh: "\<And>a ins. validCode (BlockCache D) a = Some ins \<Longrightarrow> code_bytes a ins \<subseteq> executable_bytes (Memory D)
      \<Longrightarrow> decoded_at (Memory D) a ins"
    using flush_drops_stale_code [OF code_context_ok(1), of "decode 0"] code_context_ok(2) by blast
  have D: "D = (flushInstructionCache code_context)\<lparr>Cpu := advance (Cpu (flushInstructionCache code_context))\<rparr>"
    using f(1) by (simp add: executeFlush_def Let_def)
  have v: "validCode (BlockCache D) 0 = Some [decode 0]"
    by (simp add: D code_context_def TIMemory_new_def validCode_def TIBasicBlock_new_def emptyCache_def)
  have "code_bytes 0 [decode 0] \<subseteq> executable_bytes (Memory D)"
    by (simp add: f(2) code_context_def code_bytes_def executable_bytes_def range_bytes_def)
  from fresh [OF v this] f(1) v show ?thesis by blast
qed

text \<open>C29. The exception is real: a read system call and the FLUSH after it leave the whole block
  cache as it was, whatever bytes the call stored and wherever, when nothing else was dirty.\<close>

theorem read_syscall_escapes_flush:
  assumes "DirtyCodeRanges (Memory C) = []" "executeSyscall H C i = Done D" "executeFlush D j = Done E"
  shows "BlockCache E = BlockCache C \<and> Bytes (Memory E) = Bytes (Memory D)"
proof -
  have "holds_in (\<lambda>D. DirtyCodeRanges (Memory D) = [] \<and> BlockCache D = BlockCache C) (executeSyscall H C i)"
    by (rule executeSyscall_holds) (use assms(1) in \<open>auto simp: sys_frame_def put_sys_def\<close>)
  then have D: "DirtyCodeRanges (Memory D) = []" "BlockCache D = BlockCache C" using assms(2) by simp_all
  have E: "E = (flushInstructionCache D)\<lparr>Cpu := advance (Cpu (flushInstructionCache D))\<rparr>"
    using assms(3) by (simp add: executeFlush_def Let_def)
  show ?thesis unfolding E using D by simp
qed

text \<open>The word 0x1E, a SYSCALL, is read over the INVALID at address 0; after the flush the block of
  address 0 is still the INVALID, and coherence is lost.\<close>

definition patch_context :: "unit ExecutionContext" where
  "patch_context = code_context\<lparr>Cpu := TICpuState_new\<lparr>Registers := (replicate 32 0)[2 := 4]\<rparr>\<rparr>"

definition patch_host :: "unit Host" where
  "patch_host = silent_host\<lparr>host_read := \<lambda>n w. (Inr (take n [0x1E, 0, 0, 0]), w)\<rparr>"

lemma read_syscall_escapes_flush_witness:
  "\<exists>D E. executeSyscall patch_host patch_context (decode 0x1E) = Done D \<and> executeFlush D (decode 0x98000000) = Done E
     \<and> validCode (BlockCache E) 0 = Some [decode 0] \<and> read32 (Memory E) 0 = Inr 0x1E
     \<and> decode 0x1E \<noteq> decode 0 \<and> \<not> ctx_coherent E"
proof -
  define m where "m = (TIMemory_new 8)\<lparr>ExecutableRegions := [\<lparr>Address = 0, Size = 4\<rparr>],
    Bytes := [0x1E, 0, 0, 0, 0, 0, 0, 0]\<rparr>"
  define cpu where "cpu = set_x0 4 (Cpu patch_context)"
  define D where "D = patch_context\<lparr>Cpu := advance cpu, Memory := m\<rparr>"
  have "execute_syscall patch_host (Cpu patch_context, Memory patch_context, State patch_context, ())
      = Done (cpu, m, State patch_context, ())"
  proof -
    have r: "Registers (Cpu patch_context) ! 8 = 0" "Registers (Cpu patch_context) ! 0 = 0"
      "Registers (Cpu patch_context) ! Suc 0 = 0" "Registers (Cpu patch_context) ! 2 = 4"
      by (simp_all add: patch_context_def)
    have "replicate 8 (0 :: u8) = [0, 0, 0, 0, 0, 0, 0, 0]" by (simp add: numeral_eq_Suc)
    then have b: "Bytes (Memory patch_context) = [0, 0, 0, 0, 0, 0, 0, 0]"
      by (simp add: patch_context_def code_context_def TIMemory_new_def)
    then have "(Memory patch_context)\<lparr>Bytes := [0x1E, 0, 0, 0, 0, 0, 0, 0]\<rparr> = m"
      by (simp add: m_def patch_context_def code_context_def)
    then show ?thesis using r b
      by (simp add: Handlers_def Let_def writableRange_eq in_bounds_def writeThrough_def patch_host_def
          cpu_def)
  qed
  then have D: "executeSyscall patch_host patch_context (decode 0x1E) = Done D"
    by (simp add: executeSyscall_def put_sys_def D_def Let_def)
      (simp add: patch_context_def code_context_def new_context_def ExecutionContext_new_def
        TIExecutionState_new_def)
  obtain E where E: "executeFlush D (decode 0x98000000) = Done E" by (simp add: executeFlush_def Let_def)
  have same: "BlockCache E = BlockCache patch_context" "Bytes (Memory E) = Bytes m"
    using read_syscall_escapes_flush [OF _ D E]
    by (simp_all add: patch_context_def code_context_def TIMemory_new_def D_def)
  have regions: "ExecutableRegions (Memory E) = [\<lparr>Address = 0, Size = 4\<rparr>]"
      "DirtyCodeRanges (Memory E) = []"
    using E by (auto simp: executeFlush_def Let_def D_def m_def)
  have v: "validCode (BlockCache E) 0 = Some [decode 0]"
    by (simp add: same patch_context_def code_context_def validCode_def TIBasicBlock_new_def)
  have r: "read32 (Memory E) 0 = Inr 0x1E"
    by (simp add: read32_eq in_bounds_def aligned_def same m_def decodeLittleEndianWord_eq word_of_bytes_def)
  have d: "decode 0x1E \<noteq> decode 0"
    by (simp add: decode_def DecodeVector_def info_def decodeSyscall_def instr_def)
  have "code_bytes 0 [decode 0] \<subseteq> executable_bytes (Memory E)" "dirty_bytes (Memory E) = {}"
    using regions by (simp_all add: code_bytes_def executable_bytes_def range_bytes_def dirty_bytes_def)
  then have "\<not> ctx_coherent E"
    using v r d unfolding ctx_coherent_def coherent_def by force
  then show ?thesis using D E v r d by blast
qed

end
