(* ===== verification/ThreadedExecutor.thy ===== *)
theory ThreadedExecutor
  imports SwitchExecutor
begin

text \<open>
  \<open>threaded_executor.cpp\<close>: every decoded instruction carries the handler that executes it and
  then calls the handler of the next one; the handlers of block-ending instructions return.
  The contract both engines meet is the locale \<open>block_engine\<close>.
\<close>

section \<open>The engine\<close>

text \<open>
  \<open>callHandler h H C i next\<close> is the call of the function \<open>h\<close> names on the current
  instruction \<open>i\<close>; \<open>next\<close> is \<open>DISPATCH_NEXT\<close>, which the ordinary handlers end with.
\<close>

fun callHandler ::
  "TIThreadedHandler \<Rightarrow> 'w Host \<Rightarrow> 'w ExecutionContext \<Rightarrow> TIInstruction
     \<Rightarrow> ('w ExecutionContext \<Rightarrow> 'w ExecutionContext outcome) \<Rightarrow> 'w ExecutionContext outcome" where
  "callHandler threadedLi H C i next = andThen (executeLi C i) next"
| "callHandler threadedAdd H C i next = andThen (executeAdd C i) next"
| "callHandler threadedAddi H C i next = andThen (executeAddi C i) next"
| "callHandler threadedOr H C i next = andThen (executeOr C i) next"
| "callHandler threadedLdReg H C i next = andThen (executeLdReg C i) next"
| "callHandler threadedLdImm H C i next = andThen (executeLdImm C i) next"
| "callHandler threadedSt H C i next = andThen (executeSt C i) next"
| "callHandler threadedStp H C i next = andThen (executeStp C i) next"
| "callHandler threadedClz H C i next = andThen (executeClz C i) next"
| "callHandler threadedSsat H C i next = andThen (executeSsat C i) next"
| "callHandler threadedRori H C i next = andThen (executeRori C i) next"
| "callHandler threadedBext H C i next = andThen (executeBext C i) next"
| "callHandler threadedFlush H C i next = executeFlush C i"
| "callHandler threadedBeq H C i next = executeBeq C i"
| "callHandler threadedJ H C i next = executeJ C i"
| "callHandler threadedSyscall H C i next = executeSyscall H C i"
| "callHandler threadedInvalid H C i next = executeInvalid C i"

text \<open>The instructions from \<open>Current\<close> up to \<open>End\<close>; a null handler, or none at all, is a bad call.\<close>

primrec runThreaded ::
  "TIInstruction list \<Rightarrow> 'w Host \<Rightarrow> 'w ExecutionContext \<Rightarrow> 'w ExecutionContext outcome" where
  "runThreaded [] H C = Stuck"
| "runThreaded (i # is) H C =
     (case ThreadedHandler i of
        None \<Rightarrow> Stuck
      | Some h \<Rightarrow> callHandler h H C i (\<lambda>C1. if is = [] then Done C1 else runThreaded is H C1))"

definition executeThreadedBlock ::
  "'w Host \<Rightarrow> 'w ExecutionContext \<Rightarrow> TIBasicBlock \<Rightarrow> 'w ExecutionContext outcome" where
  "executeThreadedBlock H C b = runThreaded (Instructions b) H C"

lemma callHandler_eq:
  "callHandler (getThreadedHandler (OpCode i)) H C i next =
     (if endsBlock (OpCode i) then executeInstructionSwitch H C i
      else andThen (executeInstructionSwitch H C i) next)"
  by (cases "OpCode i") (simp_all add: executeInstructionSwitch_def)

section \<open>What every engine promises\<close>

lemma executeSyscall_not_stuck: "executeSyscall H C i \<noteq> Stuck"
proof -
  have "execute_syscall H s \<noteq> Stuck" for s
    by (cases s) (auto simp: Handlers_def Let_def split: option.splits sum.splits prod.splits if_splits)
  then show ?thesis
    by (cases "execute_syscall H (Cpu C, Memory C, State C, World C)")
      (auto simp: executeSyscall_def Let_def)
qed

lemma switch_not_stuck: "executeInstructionSwitch H C i \<noteq> Stuck"
  using switch_opcode_cases [of H C i] executeSyscall_not_stuck [of H C i]
  by (elim disjE conjE) (auto simp: execute_defs Let_def split: sum.splits)

definition pc_aligned :: "'w ExecutionContext \<Rightarrow> bool" where
  "pc_aligned C \<longleftrightarrow> PC (Cpu C) AND 3 = 0"

lemma pc_aligned_iff: "pc_aligned C \<longleftrightarrow> \<not> bit (PC (Cpu C)) 0 \<and> \<not> bit (PC (Cpu C)) 1"
proof -
  have "PC (Cpu C) AND 3 = take_bit 2 (PC (Cpu C))"
    by (simp add: take_bit_eq_mask mask_eq_exp_minus_1)
  moreover have "take_bit 2 (x :: u32) = 0 \<longleftrightarrow> \<not> bit x 0 \<and> \<not> bit x 1" for x
  proof
    assume "take_bit 2 x = 0"
    then have "\<not> bit (take_bit 2 x) 0" "\<not> bit (take_bit 2 x) 1" by auto
    then show "\<not> bit x 0 \<and> \<not> bit x 1" by (simp add: bit_take_bit_iff)
  next
    assume "\<not> bit x 0 \<and> \<not> bit x 1"
    then show "take_bit 2 x = 0"
      by (auto intro!: bit_word_eqI simp: bit_take_bit_iff less_2_cases_iff)
  qed
  ultimately show ?thesis by (simp add: pc_aligned_def)
qed

locale block_engine =
  fixes exec :: "TIInstruction list \<Rightarrow> 'w Host \<Rightarrow> 'w ExecutionContext \<Rightarrow> 'w ExecutionContext outcome"
  assumes exec_single: "wf_instruction i \<Longrightarrow> exec [i] H C = executeInstructionSwitch H C i"
    and exec_cons: "wf_instruction i \<Longrightarrow> \<not> endsBlock (OpCode i) \<Longrightarrow>
      exec (i # j # is) H C =
        andThen (executeInstructionSwitch H C i) (\<lambda>C1. exec (j # is) H C1)"
begin

lemma exec_eq_loop: "block_shape ins \<Longrightarrow> exec ins H C = executeSwitch_loop H C ins"
  by (induction ins arbitrary: C rule: block_shape.induct) (simp_all add: exec_single exec_cons)

lemma exec_holds:
  assumes "\<And>C i. P C \<Longrightarrow> holds_in P (executeInstructionSwitch H C i)"
    and "block_shape ins" "P C"
  shows "holds_in P (exec ins H C)"
  using assms(2,3)
  by (induction ins arbitrary: C rule: block_shape.induct)
    (auto simp: exec_single exec_cons assms(1) intro!: holds_in_andThen)

lemma exec_not_stuck: "block_shape ins \<Longrightarrow> exec ins H C \<noteq> Stuck"
proof (induction ins arbitrary: C rule: block_shape.induct)
  case (3 i j "is")
  then show ?case using switch_not_stuck [of H C i]
    by (cases "executeInstructionSwitch H C i") (simp_all add: exec_cons)
qed (simp_all add: exec_single switch_not_stuck)

lemma exec_ctx_ok: "block_shape ins \<Longrightarrow> ctx_ok C \<Longrightarrow> holds_in ctx_ok (exec ins H C)"
  by (rule exec_holds) (simp_all add: switch_ctx_ok)

lemma exec_instr_frame:
  assumes "block_shape ins"
  shows "holds_in (instr_frame C) (exec ins H C)"
proof (rule exec_holds [OF _ assms])
  fix D :: "'w ExecutionContext" and i
  assume "instr_frame C D"
  then show "holds_in (instr_frame C) (executeInstructionSwitch H D i)"
    using switch_instr_frame [of D H i] by (blast intro: holds_in_mono instr_frame_trans)
qed simp

end

interpretation switch: block_engine "\<lambda>ins H C. executeSwitch_loop H C ins"
  by unfold_locales simp_all

interpretation threaded: block_engine runThreaded
  by unfold_locales (simp_all add: wf_instruction_def callHandler_eq)

lemma threaded_eq_switch:
  "block_shape (Instructions b) \<Longrightarrow> executeThreadedBlock H C b = executeSwitchBlock H C b"
  by (simp add: executeThreadedBlock_def executeSwitchBlock_def threaded.exec_eq_loop)

section \<open>Where an instruction leaves the program counter\<close>

lemma switch_pc:
  assumes "\<not> endsBlock (OpCode i)"
  shows "executeInstructionSwitch H C i = Done D \<Longrightarrow> PC (Cpu D) = PC (Cpu C) + 4"
    and "executeInstructionSwitch H C i = Throw e D \<Longrightarrow> PC (Cpu D) = PC (Cpu C)"
  using switch_opcode_cases [of H C i] assms
  by (elim disjE conjE; auto simp: execute_defs Let_def split: sum.splits)+

lemma switch_state:
  assumes "\<not> endsBlock (OpCode i)"
  shows "holds_in (\<lambda>D. State D = State C \<and> World D = World C) (executeInstructionSwitch H C i)"
  using switch_opcode_cases [of H C i] assms
  by (elim disjE conjE) (auto simp: execute_defs Let_def split: sum.splits)

lemma plus_4_aligned: "(x :: u32) AND 3 = 0 \<Longrightarrow> (x + 4 * y) AND 3 = 0"
proof -
  have and3: "(z :: u32) AND 3 = z mod 4" for z
  proof -
    have "z AND 3 = take_bit 2 z" by (simp add: take_bit_eq_mask mask_eq_exp_minus_1)
    then show ?thesis by (simp add: take_bit_eq_mod)
  qed
  assume "x AND 3 = 0"
  then have "unat x mod 4 = 0"
    by (simp add: and3 word_unat_eq_iff unat_mod_distrib)
  moreover have "unat (x + 4 * y) mod 4 = (unat x + 4 * unat y) mod 4"
    by (simp add: unat_word_ariths mod_mod_cancel mod_add_right_eq)
  ultimately show ?thesis
    by (simp add: and3 word_unat_eq_iff unat_mod_distrib mod_add_eq [symmetric])
qed

lemma switch_pc_aligned:
  assumes "pc_aligned C"
  shows "holds_in pc_aligned (executeInstructionSwitch H C i)"
proof -
  have pc: "PC (Cpu C) AND 3 = 0" using assms by (simp add: pc_aligned_def)
  have four: "(PC (Cpu C) + 4) AND 3 = 0" using plus_4_aligned [OF pc, of 1] by simp
  have j: "(PC (Cpu C) AND 0xF0000000 OR x * 4) AND 3 = 0" for x
  proof -
    have "(0xF0000000 :: u32) AND 3 = 0" by simp
    then have "(PC (Cpu C) AND 0xF0000000) AND 3 = 0" by (simp add: and.assoc)
    moreover have "(x * 4) AND 3 = 0" using plus_4_aligned [of 0 x] by (simp add: mult.commute)
    ultimately show ?thesis by (simp add: bit.conj_disj_distrib2)
  qed
  have beq: "(PC (Cpu C) + x * 4) AND 3 = 0" for x
    using plus_4_aligned [OF pc, of x] by (simp add: mult.commute)
  have sys: "holds_in pc_aligned (executeSyscall H C i)"
    by (rule executeSyscall_holds)
      (use pc four in \<open>auto simp: sys_frame_def pc_aligned_def put_sys_def\<close>)
  show ?thesis
    using switch_opcode_cases [of H C i] pc four j sys beq
    by (elim disjE conjE)
      (auto simp: execute_defs Let_def pc_aligned_def split: sum.split)
qed

end
