(* ===== verification/JitEncoder.thy ===== *)
theory JitEncoder
  imports ThreadedExecutor
begin

text \<open>
  The encoders of \<open>jit_executor.cpp\<close>: the builder calls they make, appended to the nodes of
  the function under construction. \<open>&Context.cpu().Registers[r]\<close> and the like are the constant
  addresses of \<open>IrSyntax\<close>.
\<close>

type_synonym ir_ctx = "ir_node list"

text \<open>A builder call: the reference of the new node and the context with it.\<close>

definition emit :: "ir_node \<Rightarrow> ir_ctx \<Rightarrow> ir_ref \<times> ir_ctx" where
  "emit node ctx = (Node (length ctx), ctx @ [node])"

abbreviation ir_CONST_ADDR :: "host_addr \<Rightarrow> ir_ref" where
  "ir_CONST_ADDR a \<equiv> Const (VAddr a)"

abbreviation ir_CONST_U32 :: "u32 \<Rightarrow> ir_ref" where
  "ir_CONST_U32 v \<equiv> Const (VU32 v)"

definition regPtr :: "TIInstruction \<Rightarrow> nat \<Rightarrow> ir_ref" where
  "regPtr inst k = ir_CONST_ADDR (RegisterAddr (Value (Operands inst ! k)))"

section \<open>Calls and the exit after them\<close>

definition encodeExitIfStopped :: "ir_ctx \<Rightarrow> ir_ctx" where
  "encodeExitIfStopped ctx =
     (let (status, ctx) = emit (IR_LOAD (ir_CONST_ADDR StatusAddr)) ctx;
          (ne, ctx) = emit (IR_BIN IR_NE status (Const (VU8 0))) ctx;
          (stopped, ctx) = emit (IR_IF ne) ctx;
          (_, ctx) = emit (IR_IF_TRUE stopped) ctx;
          (_, ctx) = emit (IR_RETURN (Const (VEntry None))) ctx;
          (_, ctx) = emit (IR_IF_FALSE stopped) ctx
      in ctx)"

definition encodeCall ::
  "ir_ctx \<Rightarrow> ir_ref \<Rightarrow> TIInstruction \<Rightarrow> TIInstructionHandler \<Rightarrow> ir_ctx" where
  "encodeCall ctx contextReference inst handler =
     (let (_, ctx) = emit (IR_CALL (Const (VFun F_executeInstructionHelper))
            [contextReference, Const (VInstruction inst), Const (VHandler handler)]) ctx
      in encodeExitIfStopped ctx)"

section \<open>Register instructions\<close>

definition encodeLi :: "ir_ctx \<Rightarrow> TIInstruction \<Rightarrow> ir_ctx" where
  "encodeLi ctx inst =
     (let v = Value (Operands inst ! 1)
      in snd (emit (IR_STORE (regPtr inst 0) (ir_CONST_U32 v)) ctx))"

definition encodeAdd :: "ir_ctx \<Rightarrow> TIInstruction \<Rightarrow> ir_ctx" where
  "encodeAdd ctx inst =
     (let (rsVal, ctx) = emit (IR_LOAD (regPtr inst 1)) ctx;
          (rtVal, ctx) = emit (IR_LOAD (regPtr inst 2)) ctx;
          (newRdVal, ctx) = emit (IR_BIN IR_ADD rsVal rtVal) ctx
      in snd (emit (IR_STORE (regPtr inst 0) newRdVal) ctx))"

definition encodeAddi :: "ir_ctx \<Rightarrow> TIInstruction \<Rightarrow> ir_ctx" where
  "encodeAddi ctx inst =
     (let imm = Value (Operands inst ! 2);
          (rsVal, ctx) = emit (IR_LOAD (regPtr inst 1)) ctx;
          (newRdVal, ctx) = emit (IR_BIN IR_ADD rsVal (ir_CONST_U32 imm)) ctx
      in snd (emit (IR_STORE (regPtr inst 0) newRdVal) ctx))"

definition encodeOr :: "ir_ctx \<Rightarrow> TIInstruction \<Rightarrow> ir_ctx" where
  "encodeOr ctx inst =
     (let (rsVal, ctx) = emit (IR_LOAD (regPtr inst 1)) ctx;
          (rtVal, ctx) = emit (IR_LOAD (regPtr inst 2)) ctx;
          (newRdVal, ctx) = emit (IR_BIN IR_OR rsVal rtVal) ctx
      in snd (emit (IR_STORE (regPtr inst 0) newRdVal) ctx))"

definition encodeClz :: "ir_ctx \<Rightarrow> TIInstruction \<Rightarrow> ir_ctx" where
  "encodeClz ctx inst =
     (let (rsVal, ctx) = emit (IR_LOAD (regPtr inst 1)) ctx;
          (isZero, ctx) = emit (IR_BIN IR_EQ rsVal (ir_CONST_U32 0)) ctx;
          (zeroAdjustment, ctx) = emit (IR_UN IR_ZEXT isZero) ctx;
          (safeValue, ctx) = emit (IR_BIN IR_OR rsVal zeroAdjustment) ctx;
          (ctlz, ctx) = emit (IR_UN IR_CTLZ safeValue) ctx;
          (v, ctx) = emit (IR_BIN IR_ADD ctlz zeroAdjustment) ctx
      in snd (emit (IR_STORE (regPtr inst 0) v) ctx))"

definition encodeSsat :: "ir_ctx \<Rightarrow> ir_ref \<Rightarrow> TIInstruction \<Rightarrow> ir_ctx" where
  "encodeSsat ctx contextReference inst =
     (let width = Value (Operands inst ! 2)
      in if width = 0 \<or> width \<ge> WORD_BIT_COUNT
         then encodeCall ctx contextReference inst H_executeSsat
         else
           let maximum = push_bit (unat (width - 1)) 1 - 1;
               minimum = - maximum - 1;
               (rsVal, ctx) = emit (IR_LOAD (regPtr inst 1)) ctx;
               (signedRsVal, ctx) = emit (IR_UN IR_BITCAST rsVal) ctx;
               (lowerBound, ctx) = emit (IR_BIN IR_MAX_I32 signedRsVal (ir_CONST_U32 minimum)) ctx;
               (saturated, ctx) = emit (IR_BIN IR_MIN_I32 lowerBound (ir_CONST_U32 maximum)) ctx;
               (result, ctx) = emit (IR_UN IR_BITCAST saturated) ctx
           in snd (emit (IR_STORE (regPtr inst 0) result) ctx))"

definition encodeRori :: "ir_ctx \<Rightarrow> TIInstruction \<Rightarrow> ir_ctx" where
  "encodeRori ctx inst =
     (let shift = Value (Operands inst ! 2);
          (rsVal, ctx) = emit (IR_LOAD (regPtr inst 1)) ctx;
          (v, ctx) = emit (IR_BIN IR_ROR rsVal (ir_CONST_U32 shift)) ctx
      in snd (emit (IR_STORE (regPtr inst 0) v) ctx))"

definition encodeBext :: "ir_ctx \<Rightarrow> TIInstruction \<Rightarrow> ir_ctx" where
  "encodeBext ctx inst =
     (let (rs1Val, ctx) = emit (IR_LOAD (regPtr inst 1)) ctx;
          (rs2Val, ctx) = emit (IR_LOAD (regPtr inst 2)) ctx;
          (v, ctx) = emit (IR_CALL (Const (VFun F_compressBits)) [rs1Val, rs2Val]) ctx
      in snd (emit (IR_STORE (regPtr inst 0) v) ctx))"

section \<open>Memory instructions\<close>

definition encodeLdImm :: "ir_ctx \<Rightarrow> ir_ref \<Rightarrow> TIInstruction \<Rightarrow> ir_ctx" where
  "encodeLdImm ctx contextReference inst =
     (let imm = Value (Operands inst ! 2);
          (baseVal, ctx) = emit (IR_LOAD (regPtr inst 1)) ctx;
          (addr, ctx) = emit (IR_BIN IR_ADD baseVal (ir_CONST_U32 imm)) ctx;
          (v, ctx) = emit (IR_CALL (Const (VFun F_readMemory32)) [contextReference, addr]) ctx;
          ctx = encodeExitIfStopped ctx
      in snd (emit (IR_STORE (regPtr inst 0) v) ctx))"

definition encodeLdReg :: "ir_ctx \<Rightarrow> ir_ref \<Rightarrow> TIInstruction \<Rightarrow> ir_ctx" where
  "encodeLdReg ctx contextReference inst =
     (let (baseVal, ctx) = emit (IR_LOAD (regPtr inst 1)) ctx;
          (rmVal, ctx) = emit (IR_LOAD (regPtr inst 2)) ctx;
          (addr, ctx) = emit (IR_BIN IR_ADD baseVal rmVal) ctx;
          (v, ctx) = emit (IR_CALL (Const (VFun F_readMemory32)) [contextReference, addr]) ctx;
          ctx = encodeExitIfStopped ctx
      in snd (emit (IR_STORE (regPtr inst 0) v) ctx))"

definition encodeSt :: "ir_ctx \<Rightarrow> ir_ref \<Rightarrow> TIInstruction \<Rightarrow> ir_ctx" where
  "encodeSt ctx contextReference inst =
     (let imm = Value (Operands inst ! 2);
          (baseVal, ctx) = emit (IR_LOAD (regPtr inst 1)) ctx;
          (addr, ctx) = emit (IR_BIN IR_ADD baseVal (ir_CONST_U32 imm)) ctx;
          (v, ctx) = emit (IR_LOAD (regPtr inst 0)) ctx;
          (_, ctx) = emit (IR_CALL (Const (VFun F_writeMemory32)) [contextReference, addr, v]) ctx
      in encodeExitIfStopped ctx)"

definition encodeStp :: "ir_ctx \<Rightarrow> ir_ref \<Rightarrow> TIInstruction \<Rightarrow> ir_ctx" where
  "encodeStp ctx contextReference inst =
     (let imm = Value (Operands inst ! 3);
          (baseVal, ctx) = emit (IR_LOAD (regPtr inst 2)) ctx;
          (addr1, ctx) = emit (IR_BIN IR_ADD baseVal (ir_CONST_U32 imm)) ctx;
          (addr2, ctx) = emit (IR_BIN IR_ADD addr1 (ir_CONST_U32 INSTRUCTION_SIZE)) ctx;
          (value1, ctx) = emit (IR_LOAD (regPtr inst 0)) ctx;
          (value2, ctx) = emit (IR_LOAD (regPtr inst 1)) ctx;
          (_, ctx) = emit (IR_CALL (Const (VFun F_writeMemory32)) [contextReference, addr1, value1]) ctx;
          ctx = encodeExitIfStopped ctx;
          (_, ctx) = emit (IR_CALL (Const (VFun F_writeMemory32)) [contextReference, addr2, value2]) ctx
      in encodeExitIfStopped ctx)"

section \<open>Control transfers\<close>

definition encodePc :: "ir_ctx \<Rightarrow> u32 \<Rightarrow> ir_ctx" where
  "encodePc ctx v = snd (emit (IR_STORE (ir_CONST_ADDR PcAddr) (ir_CONST_U32 v)) ctx)"

definition encodeJ :: "ir_ctx \<Rightarrow> TIInstruction \<Rightarrow> u32 \<Rightarrow> ir_ctx" where
  "encodeJ ctx inst instructionAddress =
     (let target = (instructionAddress AND 0xF0000000)
            OR (Value (Operands inst ! 0) * INSTRUCTION_SIZE)
      in encodePc ctx target)"

definition encodeInstruction ::
  "ir_ctx \<Rightarrow> ir_ref \<Rightarrow> TIInstruction \<Rightarrow> u32 \<Rightarrow> ir_ctx" where
  "encodeInstruction ctx contextReference inst instructionAddress =
     (case OpCode inst of
        OP_LI \<Rightarrow> encodeLi ctx inst
      | OP_ADD \<Rightarrow> encodeAdd ctx inst
      | OP_ADDI \<Rightarrow> encodeAddi ctx inst
      | OP_OR \<Rightarrow> encodeOr ctx inst
      | OP_LDreg \<Rightarrow> encodeLdReg ctx contextReference inst
      | OP_ST \<Rightarrow> encodeSt ctx contextReference inst
      | OP_STP \<Rightarrow> encodeStp ctx contextReference inst
      | OP_FLUSH \<Rightarrow>
          (let ctx = encodeCall ctx contextReference inst H_executeFlush
           in encodePc ctx (instructionAddress + INSTRUCTION_SIZE))
      | OP_J \<Rightarrow> encodeJ ctx inst instructionAddress
      | OP_CLZ \<Rightarrow> encodeClz ctx inst
      | OP_SSAT \<Rightarrow> encodeSsat ctx contextReference inst
      | OP_RORI \<Rightarrow> encodeRori ctx inst
      | OP_BEXT \<Rightarrow> encodeBext ctx inst
      | OP_SYSCALL \<Rightarrow>
          (let ctx = encodePc ctx instructionAddress
           in encodeCall ctx contextReference inst H_executeSyscall)
      | OP_LDimm \<Rightarrow> encodeLdImm ctx contextReference inst
      | _ \<Rightarrow>
          (let ctx = encodePc ctx instructionAddress
           in encodeCall ctx contextReference inst H_executeInvalid))"

fun updatesPc :: "TIOpcode \<Rightarrow> bool" where
  "updatesPc OP_BEQ = True"
| "updatesPc OP_J = True"
| "updatesPc OP_SYSCALL = True"
| "updatesPc OP_INVALID = True"
| "updatesPc OP_FLUSH = True"
| "updatesPc _ = False"

section \<open>The entry of the next block\<close>

definition encodeJitEntryLoad ::
  "ir_ctx \<Rightarrow> TIBasicBlockCache \<Rightarrow> u32 \<Rightarrow> ir_ref \<times> ir_ctx \<times> TIBasicBlockCache" where
  "encodeJitEntryLoad ctx cache a =
     (let cache1 = jitEntrySlot cache a;
          (entry, ctx) = emit (IR_LOAD (ir_CONST_ADDR (JitEntryAddr a))) ctx
      in (entry, ctx, cache1))"

definition encodeNextJitEntry ::
  "ir_ctx \<Rightarrow> TIBasicBlockCache \<Rightarrow> TIBasicBlock \<Rightarrow> ir_ref \<times> ir_ctx \<times> TIBasicBlockCache" where
  "encodeNextJitEntry ctx cache block =
     (if Instructions block = [] then encodeJitEntryLoad ctx cache (endAddress block)
      else
        let lastInstruction = last (Instructions block);
            instructionAddress = endAddress block - INSTRUCTION_SIZE
        in case OpCode lastInstruction of
             OP_BEQ \<Rightarrow>
               (let takenAddress = instructionAddress
                      + Value (Operands lastInstruction ! 2) * INSTRUCTION_SIZE;
                    fallthroughAddress = instructionAddress + INSTRUCTION_SIZE;
                    (rsVal, ctx) = emit (IR_LOAD (regPtr lastInstruction 0)) ctx;
                    (rtVal, ctx) = emit (IR_LOAD (regPtr lastInstruction 1)) ctx;
                    (eq, ctx) = emit (IR_BIN IR_EQ rsVal rtVal) ctx;
                    (condition, ctx) = emit (IR_IF eq) ctx;
                    (_, ctx) = emit (IR_IF_TRUE condition) ctx;
                    (takenEntry, ctx, cache) = encodeJitEntryLoad ctx cache takenAddress;
                    (_, ctx) = emit (IR_STORE (ir_CONST_ADDR PcAddr) (ir_CONST_U32 takenAddress)) ctx;
                    (takenEnd, ctx) = emit IR_END ctx;
                    (_, ctx) = emit (IR_IF_FALSE condition) ctx;
                    (fallthroughEntry, ctx, cache) =
                      encodeJitEntryLoad ctx cache fallthroughAddress;
                    (_, ctx) = emit (IR_STORE (ir_CONST_ADDR PcAddr)
                      (ir_CONST_U32 fallthroughAddress)) ctx;
                    (fallthroughEnd, ctx) = emit IR_END ctx;
                    (_, ctx) = emit (IR_MERGE_2 takenEnd fallthroughEnd) ctx;
                    (phi, ctx) = emit (IR_PHI_2 takenEntry fallthroughEntry) ctx
                in (phi, ctx, cache))
           | OP_J \<Rightarrow>
               (let target = (instructionAddress AND 0xF0000000)
                      OR (Value (Operands lastInstruction ! 0) * INSTRUCTION_SIZE)
                in encodeJitEntryLoad ctx cache target)
           | OP_INVALID \<Rightarrow> (Const (VEntry None), ctx, cache)
           | OP_SYSCALL \<Rightarrow> encodeJitEntryLoad ctx cache (instructionAddress + INSTRUCTION_SIZE)
           | OP_FLUSH \<Rightarrow> (Const (VEntry None), ctx, cache)
           | _ \<Rightarrow> encodeJitEntryLoad ctx cache (endAddress block))"

section \<open>A whole block\<close>

text \<open>The loop of \<open>compileBlock\<close>: \<open>index\<close> counts up, a final BEQ is left to the next-entry code.\<close>

fun encodeInstructions ::
  "ir_ctx \<Rightarrow> ir_ref \<Rightarrow> u32 \<Rightarrow> nat \<Rightarrow> TIInstruction list \<Rightarrow> ir_ctx" where
  "encodeInstructions ctx contextReference startAddr index [] = ctx"
| "encodeInstructions ctx contextReference startAddr index (i # is) =
     (if is = [] \<and> OpCode i = OP_BEQ
      then encodeInstructions ctx contextReference startAddr (index + 1) is
      else
        let instructionAddress = startAddr + of_nat (index * unat INSTRUCTION_SIZE);
            ctx = encodeInstruction ctx contextReference i instructionAddress
        in encodeInstructions ctx contextReference startAddr (index + 1) is)"

definition compileBlock_nodes ::
  "TIBasicBlockCache \<Rightarrow> TIBasicBlock \<Rightarrow> ir_ctx \<times> TIBasicBlockCache" where
  "compileBlock_nodes cache block =
     (let ctx = [];
          (_, ctx) = emit IR_START ctx;
          (contextReference, ctx) = emit IR_PARAM ctx;
          instructions = Instructions block;
          ctx = encodeInstructions ctx contextReference (StartAddress block) 0 instructions;
          ctx = (if instructions = [] \<or> \<not> updatesPc (OpCode (last instructions))
                 then encodePc ctx (endAddress block) else ctx);
          (entry, ctx, cache) = encodeNextJitEntry ctx cache block;
          (_, ctx) = emit (IR_RETURN entry) ctx
      in (ctx, cache))"

lemma updatesPc_eq_endsBlock: "updatesPc opc = endsBlock opc"
  by (cases opc) simp_all

end
