(* ===== verification/IrSemantics.thy ===== *)
theory IrSemantics
  imports JitEncoder
begin

text \<open>
  The documented meaning of the builder calls the JIT uses. It is not a model of the IR
  library, which is not in the repository: the compiler of the library is a parameter of
  \<open>JitExecutor\<close>, and this meaning is what the hypothesis \<open>lib_ok\<close> there asks of it. The host
  functions the generated code calls are the repository's and are modelled here.
\<close>

section \<open>Host functions\<close>

text \<open>\<open>executeHelper\<close>: whatever is thrown becomes a fault of the context.\<close>

fun executeHelper :: "'w ExecutionContext outcome \<Rightarrow> 'w ExecutionContext outcome" where
  "executeHelper (Done C) = Done C"
| "executeHelper (Throw e C) = Done (C\<lparr>State := fault (State C)\<rparr>)"
| "executeHelper Stuck = Stuck"

fun handlerCode ::
  "TIInstructionHandler \<Rightarrow> 'w Host \<Rightarrow> 'w ExecutionContext \<Rightarrow> TIInstruction
     \<Rightarrow> 'w ExecutionContext outcome" where
  "handlerCode H_executeSsat H C i = executeSsat C i"
| "handlerCode H_executeFlush H C i = executeFlush C i"
| "handlerCode H_executeSyscall H C i = executeSyscall H C i"
| "handlerCode H_executeInvalid H C i = executeInvalid C i"

definition executeInstructionHelper ::
  "'w Host \<Rightarrow> 'w ExecutionContext \<Rightarrow> TIInstruction \<Rightarrow> TIInstructionHandler
     \<Rightarrow> 'w ExecutionContext outcome" where
  "executeInstructionHelper H C inst handler = executeHelper (handlerCode handler H C inst)"

definition readMemory32 :: "'w ExecutionContext \<Rightarrow> u32 \<Rightarrow> u32 \<times> 'w ExecutionContext" where
  "readMemory32 C a =
     (case read32 (Memory C) a of
        Inl e \<Rightarrow> (0, C\<lparr>State := fault (State C)\<rparr>)
      | Inr v \<Rightarrow> (v, C))"

definition writeMemory32 :: "'w ExecutionContext \<Rightarrow> u32 \<Rightarrow> u32 \<Rightarrow> 'w ExecutionContext" where
  "writeMemory32 C a v =
     (case write32 (Memory C) a v of
        Inl e \<Rightarrow> C\<lparr>State := fault (State C)\<rparr>
      | Inr m \<Rightarrow> C\<lparr>Memory := m\<rparr>)"

section \<open>Values\<close>

fun statusCode :: "ExecutionStatus \<Rightarrow> u8" where
  "statusCode RUNNING = 0"
| "statusCode HALTED = 1"
| "statusCode FAULTED = 2"

fun ir_load :: "'w ExecutionContext \<Rightarrow> host_addr \<Rightarrow> ir_value option" where
  "ir_load C (RegisterAddr r) =
     (if unat r < length (Registers (Cpu C)) then Some (VU32 (Registers (Cpu C) ! unat r)) else None)"
| "ir_load C PcAddr = Some (VU32 (PC (Cpu C)))"
| "ir_load C StatusAddr = Some (VU8 (statusCode (Status (State C))))"
| "ir_load C (JitEntryAddr a) = map_option VEntry (JitEntries (BlockCache C) a)"

fun ir_store :: "'w ExecutionContext \<Rightarrow> host_addr \<Rightarrow> ir_value \<Rightarrow> 'w ExecutionContext option" where
  "ir_store C (RegisterAddr r) (VU32 v) =
     (if unat r < length (Registers (Cpu C))
      then Some (C\<lparr>Cpu := (Cpu C)\<lparr>Registers := (Registers (Cpu C))[unat r := v]\<rparr>\<rparr>) else None)"
| "ir_store C PcAddr (VU32 v) = Some (C\<lparr>Cpu := (Cpu C)\<lparr>PC := v\<rparr>\<rparr>)"
| "ir_store C _ _ = None"

text \<open>Counting the leading zeros of 0 and rotating by the width or more are undefined.\<close>

fun ir_un :: "ir_unop \<Rightarrow> ir_value \<Rightarrow> ir_value option" where
  "ir_un IR_ZEXT (VBool b) = Some (VU32 (of_bool b))"
| "ir_un IR_CTLZ (VU32 v) = (if v = 0 then None else Some (VU32 (of_nat (leading_zeros v))))"
| "ir_un IR_BITCAST (VU32 v) = Some (VU32 v)"
| "ir_un _ _ = None"

definition on_u32 :: "(u32 \<Rightarrow> u32 \<Rightarrow> ir_value option) \<Rightarrow> ir_value \<Rightarrow> ir_value \<Rightarrow> ir_value option" where
  "on_u32 f x y = (case x of VU32 v \<Rightarrow> (case y of VU32 w \<Rightarrow> f v w | _ \<Rightarrow> None) | _ \<Rightarrow> None)"

fun ir_bin :: "ir_binop \<Rightarrow> ir_value \<Rightarrow> ir_value \<Rightarrow> ir_value option" where
  "ir_bin IR_ADD x y = on_u32 (\<lambda>v w. Some (VU32 (v + w))) x y"
| "ir_bin IR_OR x y = on_u32 (\<lambda>v w. Some (VU32 (v OR w))) x y"
| "ir_bin IR_ROR x y =
     on_u32 (\<lambda>v w. if unat w < 32 then Some (VU32 (word_rotr (unat w) v)) else None) x y"
| "ir_bin IR_EQ x y = on_u32 (\<lambda>v w. Some (VBool (v = w))) x y"
| "ir_bin IR_MAX_I32 x y = on_u32 (\<lambda>v w. Some (VU32 (if v <s w then w else v))) x y"
| "ir_bin IR_MIN_I32 x y = on_u32 (\<lambda>v w. Some (VU32 (if v <s w then v else w))) x y"
| "ir_bin IR_NE x y =
     (case x of VU8 v \<Rightarrow> (case y of VU8 w \<Rightarrow> Some (VBool (v \<noteq> w)) | _ \<Rightarrow> None) | _ \<Rightarrow> None)"

lemma on_u32_simp [simp]: "on_u32 f (VU32 v) (VU32 w) = f v w"
  by (simp add: on_u32_def)

fun ir_call ::
  "'w Host \<Rightarrow> 'w ExecutionContext \<Rightarrow> host_function \<Rightarrow> ir_value list
     \<Rightarrow> (ir_value \<times> 'w ExecutionContext) option" where
  "ir_call H C F_executeInstructionHelper args =
     (case args of
        [VContext, VInstruction i, VHandler h] \<Rightarrow>
          (case executeInstructionHelper H C i h of Done C1 \<Rightarrow> Some (VVoid, C1) | _ \<Rightarrow> None)
      | _ \<Rightarrow> None)"
| "ir_call H C F_readMemory32 args =
     (case args of
        [VContext, VU32 a] \<Rightarrow> (let (v, C1) = readMemory32 C a in Some (VU32 v, C1))
      | _ \<Rightarrow> None)"
| "ir_call H C F_writeMemory32 args =
     (case args of
        [VContext, VU32 a, VU32 v] \<Rightarrow> Some (VVoid, writeMemory32 C a v)
      | _ \<Rightarrow> None)"
| "ir_call H C F_compressBits args =
     (case args of [VU32 v, VU32 m] \<Rightarrow> Some (VU32 (compressBits v m), C) | _ \<Rightarrow> None)"

section \<open>Running the nodes\<close>

text \<open>
  Nodes run in order. \<open>Live\<close> code executes (with the arm a merge was reached by, for the phi
  after it); an \<open>IR_IF\<close> skips to the arm its condition selects, an \<open>IR_END\<close> to the merge that
  names it.
\<close>

datatype ir_mode = Live "bool option" | SeekTrue nat | SeekFalse nat | SeekMerge nat

type_synonym ir_env = "nat \<Rightarrow> ir_value"

datatype 'w ir_result =
    Falls ir_env "'w ExecutionContext" ir_mode
  | Returns "'w ExecutionContext" ir_value
  | Undefined

fun ir_eval :: "ir_env \<Rightarrow> ir_ref \<Rightarrow> ir_value" where
  "ir_eval env (Const v) = v"
| "ir_eval env (Node n) = env n"

fun ir_live ::
  "'w Host \<Rightarrow> nat \<Rightarrow> ir_node \<Rightarrow> ir_env \<Rightarrow> 'w ExecutionContext \<Rightarrow> bool option \<Rightarrow> 'w ir_result" where
  "ir_live H n IR_START env C p = Falls env C (Live p)"
| "ir_live H n IR_PARAM env C p = Falls (env(n := VContext)) C (Live p)"
| "ir_live H n (IR_LOAD r) env C p =
     (case ir_eval env r of
        VAddr a \<Rightarrow> (case ir_load C a of Some v \<Rightarrow> Falls (env(n := v)) C (Live p) | None \<Rightarrow> Undefined)
      | _ \<Rightarrow> Undefined)"
| "ir_live H n (IR_STORE r v) env C p =
     (case ir_eval env r of
        VAddr a \<Rightarrow> (case ir_store C a (ir_eval env v) of Some C1 \<Rightarrow> Falls env C1 (Live p) | None \<Rightarrow> Undefined)
      | _ \<Rightarrow> Undefined)"
| "ir_live H n (IR_UN opr r) env C p =
     (case ir_un opr (ir_eval env r) of Some v \<Rightarrow> Falls (env(n := v)) C (Live p) | None \<Rightarrow> Undefined)"
| "ir_live H n (IR_BIN opr r s) env C p =
     (case ir_bin opr (ir_eval env r) (ir_eval env s) of
        Some v \<Rightarrow> Falls (env(n := v)) C (Live p) | None \<Rightarrow> Undefined)"
| "ir_live H n (IR_CALL f args) env C p =
     (case ir_eval env f of
        VFun g \<Rightarrow> (case ir_call H C g (map (ir_eval env) args) of
            Some (v, C1) \<Rightarrow> Falls (env(n := v)) C1 (Live p) | None \<Rightarrow> Undefined)
      | _ \<Rightarrow> Undefined)"
| "ir_live H n (IR_IF r) env C p =
     (case ir_eval env r of
        VBool b \<Rightarrow> Falls env C (if b then SeekTrue n else SeekFalse n) | _ \<Rightarrow> Undefined)"
| "ir_live H n (IR_RETURN r) env C p = Returns C (ir_eval env r)"
| "ir_live H n IR_END env C p = Falls env C (SeekMerge n)"
| "ir_live H n (IR_PHI_2 r s) env C p =
     (case p of Some b \<Rightarrow> Falls (env(n := ir_eval env (if b then r else s))) C (Live p) | None \<Rightarrow> Undefined)"
| "ir_live H n _ env C p = Undefined"

fun ir_step :: "'w Host \<Rightarrow> nat \<Rightarrow> ir_node \<Rightarrow> 'w ir_result \<Rightarrow> 'w ir_result" where
  "ir_step H n node (Falls env C (Live p)) = ir_live H n node env C p"
| "ir_step H n node (Falls env C (SeekTrue k)) =
     Falls env C (if node = IR_IF_TRUE (Node k) then Live None else SeekTrue k)"
| "ir_step H n node (Falls env C (SeekFalse k)) =
     Falls env C (if node = IR_IF_FALSE (Node k) then Live None else SeekFalse k)"
| "ir_step H n node (Falls env C (SeekMerge k)) =
     Falls env C (case node of
         IR_MERGE_2 r s \<Rightarrow> (if r = Node k then Live (Some True)
                          else if s = Node k then Live (Some False) else SeekMerge k)
       | _ \<Rightarrow> SeekMerge k)"
| "ir_step H n node (Returns C v) = Returns C v"
| "ir_step H n node Undefined = Undefined"

fun ir_steps :: "'w Host \<Rightarrow> nat \<Rightarrow> ir_node list \<Rightarrow> 'w ir_result \<Rightarrow> 'w ir_result" where
  "ir_steps H n [] r = r"
| "ir_steps H n (node # nodes) r = ir_steps H (Suc n) nodes (ir_step H n node r)"

definition ir_run :: "'w Host \<Rightarrow> ir_ctx \<Rightarrow> 'w ExecutionContext \<Rightarrow> 'w ir_result" where
  "ir_run H ctx C = ir_steps H 0 ctx (Falls (\<lambda>_. VVoid) C (Live None))"

definition ir_meaning ::
  "'w Host \<Rightarrow> ir_code \<Rightarrow> 'w ExecutionContext \<Rightarrow> ('w ExecutionContext \<times> code_addr option) option" where
  "ir_meaning H code C =
     (case ir_run H (Nodes code) C of Returns C1 (VEntry e) \<Rightarrow> Some (C1, e) | _ \<Rightarrow> None)"

lemma ir_steps_append:
  "ir_steps H n (xs @ ys) r = ir_steps H (n + length xs) ys (ir_steps H n xs r)"
  by (induction xs arbitrary: n r) simp_all

section \<open>Appending a node\<close>

definition grow :: "ir_ctx \<Rightarrow> ir_node \<Rightarrow> ir_ctx" where
  "grow ctx node = ctx @ [node]"

lemma emit_grow: "emit node ctx = (Node (length ctx), grow ctx node)"
  by (simp add: emit_def grow_def)

lemma length_grow [simp, ti_len]: "length (grow ctx node) = Suc (length ctx)"
  by (simp add: grow_def)

lemma ir_run_grow [simp]: "ir_run H (grow ctx node) C = ir_step H (length ctx) node (ir_run H ctx C)"
  by (simp add: ir_run_def grow_def ir_steps_append)

text \<open>The code generated so far, started in \<open>C0\<close>, goes on in \<open>C\<close>; or it has returned.\<close>

definition reaches :: "'w Host \<Rightarrow> ir_ctx \<Rightarrow> 'w ExecutionContext \<Rightarrow> 'w ExecutionContext \<Rightarrow> bool" where
  "reaches H ctx C0 C \<longleftrightarrow>
     (\<exists>env p. ir_run H ctx C0 = Falls env C (Live p) \<and> env 1 = VContext \<and> 1 < length ctx)"

definition exits ::
  "'w Host \<Rightarrow> ir_ctx \<Rightarrow> 'w ExecutionContext \<Rightarrow> 'w ExecutionContext \<Rightarrow> code_addr option \<Rightarrow> bool" where
  "exits H ctx C0 C e \<longleftrightarrow> ir_run H ctx C0 = Returns C (VEntry e)"

lemma exits_grow [simp]: "exits H ctx C0 C e \<Longrightarrow> exits H (grow ctx node) C0 C e"
  by (simp add: exits_def)

end
