(* ===== verification/JitCorrect.thy ===== *)
theory JitCorrect
  imports IrSemantics
begin

text \<open>
  The generated code of a block does what the switch engine does. An instruction of the block
  leaves the context of the switch engine, except that the code keeps the program counter of
  the block's start until its end; an exception of the engine is a return with a fault and no
  next entry.
\<close>

section \<open>Stale program counters and faults\<close>

definition with_pc :: "u32 \<Rightarrow> 'w ExecutionContext \<Rightarrow> 'w ExecutionContext" where
  "with_pc p C = C\<lparr>Cpu := (Cpu C)\<lparr>PC := p\<rparr>\<rparr>"

definition faulted :: "'w ExecutionContext \<Rightarrow> 'w ExecutionContext" where
  "faulted C = C\<lparr>State := fault (State C)\<rparr>"

lemma with_pc_frame [simp, ti_frame]:
  "Registers (Cpu (with_pc p C)) = Registers (Cpu C)"
  "PC (Cpu (with_pc p C)) = p"
  "Memory (with_pc p C) = Memory C"
  "State (with_pc p C) = State C"
  "BlockCache (with_pc p C) = BlockCache C"
  "World (with_pc p C) = World C"
  "Mode (with_pc p C) = Mode C"
  "JitThreshold (with_pc p C) = JitThreshold C"
  "JitOptimizationLevel (with_pc p C) = JitOptimizationLevel C"
  by (simp_all add: with_pc_def)

lemma with_pc_same [simp]: "with_pc (PC (Cpu C)) C = C"
  by (simp add: with_pc_def)

lemma faulted_frame [simp, ti_frame]:
  "Cpu (faulted C) = Cpu C"
  "Memory (faulted C) = Memory C"
  "Status (State (faulted C)) = FAULTED"
  "ExitCode (State (faulted C)) = ExitCode (State C)"
  "BlockCache (faulted C) = BlockCache C"
  "World (faulted C) = World C"
  "Mode (faulted C) = Mode C"
  "JitThreshold (faulted C) = JitThreshold C"
  "JitOptimizationLevel (faulted C) = JitOptimizationLevel C"
  by (simp_all add: faulted_def fault_def)

lemma Status_fault [simp]: "Status (fault st) = FAULTED"
  by (simp add: fault_def)

section \<open>The exit after a call\<close>

lemma statusCode_0 [simp]: "statusCode st = 0 \<longleftrightarrow> st = RUNNING"
  by (cases st) simp_all

lemma encodeExitIfStopped_run:
  assumes "ir_run H ctx C0 = Falls env C (Live p)"
  shows "ir_run H (encodeExitIfStopped ctx) C0 =
     (if Status (State C) = RUNNING
      then Falls (env(length ctx := VU8 0, Suc (length ctx) := VBool False)) C (Live None)
      else Returns C (VEntry None))"
  using assms by (simp add: encodeExitIfStopped_def emit_grow Let_def)

lemma encodeExitIfStopped_Returns:
  "ir_run H ctx C0 = Returns C v \<Longrightarrow> ir_run H (encodeExitIfStopped ctx) C0 = Returns C v"
  by (simp add: encodeExitIfStopped_def emit_grow Let_def)

lemma length_encodeExitIfStopped [simp]: "length (encodeExitIfStopped ctx) = length ctx + 6"
  by (simp add: encodeExitIfStopped_def emit_grow Let_def)

lemma operand_kinds_register:
  assumes "wf_instruction i" "k < length (operand_kinds (OpCode i))"
    "operand_kinds (OpCode i) ! k = REGISTER"
  shows "unat (Value (Operands i ! k)) < 32"
proof -
  have m: "map Type (Operands i) = operand_kinds (OpCode i)" and w: "list_all wf_operand (Operands i)"
    using assms(1) by (simp_all add: wf_instruction_def)
  have l: "k < length (Operands i)" using arg_cong [OF m, of length] assms(2) by simp
  then have "Type (Operands i ! k) = REGISTER"
    using arg_cong [OF m, of "\<lambda>xs. xs ! k"] assms(3) by simp
  then show ?thesis using w l by (simp add: list_all_length wf_operand_def word_less_nat_alt)
qed

section \<open>One instruction inside a block\<close>

definition simulates ::
  "'w Host \<Rightarrow> ir_ctx \<Rightarrow> 'w ExecutionContext \<Rightarrow> u32 \<Rightarrow> 'w ExecutionContext outcome \<Rightarrow> bool" where
  "simulates H ctx C0 p r \<longleftrightarrow>
     (case r of
        Done T \<Rightarrow> reaches H ctx C0 (with_pc p T)
      | Throw e T \<Rightarrow> exits H ctx C0 (with_pc p (faulted T)) None
      | Stuck \<Rightarrow> False)"

lemma with_pc_advance [simp]:
  "with_pc p (S\<lparr>Cpu := advance (set_reg r v (Cpu S))\<rparr>) =
     (with_pc p S)\<lparr>Cpu := (Cpu (with_pc p S))
        \<lparr>Registers := (Registers (Cpu S))[unat (Value r) := v]\<rparr>\<rparr>"
  "with_pc p (S\<lparr>Memory := m, Cpu := advance (Cpu S)\<rparr>) = (with_pc p S)\<lparr>Memory := m\<rparr>"
  "with_pc p (S\<lparr>Memory := m\<rparr>) = (with_pc p S)\<lparr>Memory := m\<rparr>"
  "with_pc p (faulted S) = faulted (with_pc p S)"
  by (simp_all add: with_pc_def advance_def set_reg_def faulted_def)

lemma leading_zeros_1: "leading_zeros 1 = 31"
  by (simp add: leading_zeros_def upt_rec)

lemma encode_register:
  assumes "reaches H ctx C0 (with_pc p S)" "wf_instruction i" "wf_cpu (Cpu S)"
    "OpCode i \<in> {OP_LI, OP_ADD, OP_ADDI, OP_OR, OP_CLZ, OP_RORI, OP_BEXT}"
  shows "simulates H (encodeInstruction ctx (Node 1) i a) C0 p (executeInstructionSwitch H S i)"
proof -
  have rori: "OpCode i = OP_RORI \<Longrightarrow> Value (Operands i ! 2) < 32"
    using assms(2) by (simp add: wf_instruction_def)
  note regs = operand_kinds_register [OF assms(2), of 0] operand_kinds_register [OF assms(2), of 1]
    operand_kinds_register [OF assms(2), of 2]
  obtain env q where run: "ir_run H ctx C0 = Falls env (with_pc p S) (Live q)"
      "env 1 = VContext" "1 < length ctx"
    using assms(1) by (auto simp: reaches_def)
  then have "ctx \<noteq> []" by auto
  with run regs assms(3,4) rori show ?thesis
    by (elim insertE)
      (simp_all add: simulates_def reaches_def exits_def encodeInstruction_def
        executeInstructionSwitch_def execute_defs encodeLi_def encodeAdd_def encodeAddi_def
        encodeOr_def encodeClz_def encodeRori_def encodeBext_def emit_grow Let_def regPtr_def
        reg_def wf_cpu_def countLeadingZeros_eq leading_zeros_0 leading_zeros_1 rotateRight_eq
        word_less_nat_alt)
qed

lemma saturateSigned_min_max:
  fixes v :: u32
  assumes "w \<noteq> 0" "w < 32"
  defines "mx \<equiv> push_bit (unat (w - 1)) 1 - 1 :: u32"
  defines "low \<equiv> (if v <s - mx - 1 then - mx - 1 else v)"
  shows "saturateSigned v w = Inr (if low <s mx then low else mx)"
proof -
  define k where "k = unat w - 1"
  have "0 < unat w" "unat w < 32"
    using assms by (simp_all add: unat_gt_0 word_less_nat_alt)
  then have w: "unat w = Suc k" "k < 31" "unat (w - 1) = k"
    using assms by (simp_all add: k_def unat_minus_one)
  have p: "(2::int) ^ k \<le> 1073741824" "(0::int) < 2 ^ k"
    using w(2) power_increasing [of k 30 "2::int"] by simp_all
  have mx_int: "mx = word_of_int (2 ^ k - 1)"
    by (simp add: mx_def w push_bit_eq_mult)
  have sint_small: "sint (word_of_int i :: u32) = i"
    if "- 2147483648 \<le> i" "i < 2147483648" for i
    using that by (simp add: sint_sbintrunc' signed_take_bit_int_eq_self)
  have mx: "sint mx = 2 ^ k - 1" using p by (simp only: mx_int) (rule sint_small; linarith)
  have mn_int: "- mx - 1 = word_of_int (- (2 ^ k))"
    by (simp add: mx_int)
  have mn: "sint (- mx - 1) = - (2 ^ k)" using p by (simp only: mn_int) (rule sint_small; linarith)
  obtain r where r: "saturateSigned v w = Inr r" "sint r = signed_clamp (unat w) (sint v)"
    using saturateSigned_eq [OF assms(1,2)] by blast
  have "sint (if low <s mx then low else mx) = sint r"
  proof -
    define P :: int where "P = 2 ^ k"
    have "1 \<le> P" using p by (simp add: P_def)
    then show ?thesis unfolding r(2) low_def
      by (auto simp: word_sless_alt mx mn signed_clamp_def w max_def min_def P_def [symmetric])
  qed
  then have "(if low <s mx then low else mx) = r" by (rule signed_word_eqI)
  then show ?thesis using r(1) by simp
qed

lemma encode_ssat:
  assumes "reaches H ctx C0 (with_pc p S)" "wf_instruction i" "wf_cpu (Cpu S)"
    "OpCode i = OP_SSAT"
  shows "simulates H (encodeInstruction ctx (Node 1) i a) C0 p (executeInstructionSwitch H S i)"
proof -
  note regs = operand_kinds_register [OF assms(2), of 0] operand_kinds_register [OF assms(2), of 1]
  obtain env q where run: "ir_run H ctx C0 = Falls env (with_pc p S) (Live q)"
      "env 1 = VContext" "1 < length ctx"
    using assms(1) by (auto simp: reaches_def)
  then have "ctx \<noteq> []" by auto
  show ?thesis
  proof (cases "Value (Operands i ! 2) = 0 \<or> Value (Operands i ! 2) \<ge> 32")
    case True
    then have e: "executeSsat D i = Throw (SimulationException INVALID_INSTRUCTION) D" for D :: "'a ExecutionContext"
      by (auto simp: executeSsat_def Let_def saturateSigned_error)
    show ?thesis using True run assms \<open>ctx \<noteq> []\<close>
      by (simp add: encodeInstruction_def encodeSsat_def encodeCall_def emit_grow Let_def simulates_def
        executeInstructionSwitch_def e exits_def encodeExitIfStopped_run
        executeInstructionHelper_def faulted_def)
  next
    case False
    then have "Value (Operands i ! 2) \<noteq> 0" "\<not> 32 \<le> Value (Operands i ! 2)" "Value (Operands i ! 2) < 32"
      by auto
    then show ?thesis using run assms \<open>ctx \<noteq> []\<close> regs
      by (simp add: encodeInstruction_def encodeSsat_def emit_grow Let_def simulates_def reg_def wf_cpu_def
        executeInstructionSwitch_def reaches_def executeSsat_def saturateSigned_min_max regPtr_def)
  qed
qed


lemma encode_load:
  assumes "reaches H ctx C0 (with_pc p S)" "wf_instruction i" "wf_cpu (Cpu S)"
    "Status (State S) = RUNNING" "OpCode i \<in> {OP_LDreg, OP_LDimm}"
  shows "simulates H (encodeInstruction ctx (Node 1) i a) C0 p (executeInstructionSwitch H S i)"
proof -
  note regs = operand_kinds_register [OF assms(2), of 0] operand_kinds_register [OF assms(2), of 1]
    operand_kinds_register [OF assms(2), of 2]
  obtain env q where run: "ir_run H ctx C0 = Falls env (with_pc p S) (Live q)"
      "env 1 = VContext" "1 < length ctx"
    using assms(1) by (auto simp: reaches_def)
  then have "ctx \<noteq> []" by auto
  with run regs assms(3-) show ?thesis
    by (elim insertE)
      (auto simp: simulates_def reaches_def exits_def encodeInstruction_def
        executeInstructionSwitch_def execute_defs encodeLdReg_def encodeLdImm_def emit_grow Let_def
        regPtr_def reg_def wf_cpu_def readMemory32_def encodeExitIfStopped_run
        encodeExitIfStopped_Returns faulted_def split: sum.split)
qed

lemma encode_store:
  assumes "reaches H ctx C0 (with_pc p S)" "wf_instruction i" "wf_cpu (Cpu S)"
    "Status (State S) = RUNNING" "OpCode i \<in> {OP_ST, OP_STP}"
  shows "simulates H (encodeInstruction ctx (Node 1) i a) C0 p (executeInstructionSwitch H S i)"
proof -
  note regs = operand_kinds_register [OF assms(2), of 0] operand_kinds_register [OF assms(2), of 1]
    operand_kinds_register [OF assms(2), of 2]
  obtain env q where run: "ir_run H ctx C0 = Falls env (with_pc p S) (Live q)"
      "env 1 = VContext" "1 < length ctx"
    using assms(1) by (auto simp: reaches_def)
  then have "ctx \<noteq> []" by auto
  with run regs assms(3-) show ?thesis
    by (elim insertE)
      (auto simp: simulates_def reaches_def exits_def encodeInstruction_def
        executeInstructionSwitch_def execute_defs encodeSt_def encodeStp_def emit_grow Let_def
        regPtr_def reg_def wf_cpu_def writeMemory32_def encodeExitIfStopped_run
        encodeExitIfStopped_Returns faulted_def split: sum.split)
qed

lemma encode_straight:
  assumes "reaches H ctx C0 (with_pc p S)" "wf_instruction i" "wf_cpu (Cpu S)"
    "Status (State S) = RUNNING" "\<not> endsBlock (OpCode i)"
  shows "simulates H (encodeInstruction ctx (Node 1) i a) C0 p (executeInstructionSwitch H S i)"
  using assms encode_register [OF assms(1-3)] encode_ssat [OF assms(1-3)]
    encode_load [OF assms(1-4)] encode_store [OF assms(1-4)]
  by (cases "OpCode i") simp_all

lemmas encode_defs =
  encodeLi_def encodeAdd_def encodeAddi_def encodeOr_def encodeClz_def encodeSsat_def
  encodeRori_def encodeBext_def encodeLdImm_def encodeLdReg_def encodeSt_def encodeStp_def
  encodePc_def encodeJ_def encodeCall_def encodeExitIfStopped_def

lemma exits_encodeInstruction:
  "exits H ctx C0 C e \<Longrightarrow> exits H (encodeInstruction ctx cr i a) C0 C e"
  by (cases "OpCode i") (simp_all add: encodeInstruction_def encode_defs emit_grow Let_def)

section \<open>The instruction that ends a block\<close>

lemma flush_with_pc: "flushInstructionCache (with_pc p S) = with_pc p (flushInstructionCache S)"
  by (simp add: flushInstructionCache_def with_pc_def takeDirtyCodeRanges_def)

lemma with_pc_twice [simp]: "with_pc p (with_pc q S) = with_pc p S"
  by (simp add: with_pc_def)

lemma encodePc_run:
  assumes "ir_run H ctx C0 = Falls env C (Live p)"
  shows "ir_run H (encodePc ctx v) C0 = Falls env (with_pc v C) (Live p)"
  using assms by (simp add: encodePc_def emit_grow with_pc_def)

lemma length_encodePc [simp]: "length (encodePc ctx v) = Suc (length ctx)"
  by (simp add: encodePc_def emit_grow)

lemma encodeCall_run:
  assumes "ir_run H ctx C0 = Falls env C (Live p)" "env 1 = VContext" "1 < length ctx"
    "executeInstructionHelper H C i h = Done D"
  shows "ir_run H (encodeCall ctx (Node 1) i h) C0 =
     (if Status (State D) = RUNNING
      then Falls (env(length ctx := VVoid, Suc (length ctx) := VU8 0,
        Suc (Suc (length ctx)) := VBool False)) D (Live None)
      else Returns D (VEntry None))"
  using assms
  by (simp add: encodeCall_def emit_grow Let_def
      encodeExitIfStopped_run [where env = "env(length ctx := VVoid)" and C = D and p = p])

lemma length_encodeCall [simp]: "length (encodeCall ctx cr i h) = length ctx + 7"
  by (simp add: encodeCall_def emit_grow Let_def)

definition ends_as ::
  "'w Host \<Rightarrow> ir_ctx \<Rightarrow> 'w ExecutionContext \<Rightarrow> 'w ExecutionContext outcome \<Rightarrow> bool" where
  "ends_as H ctx C0 r \<longleftrightarrow>
     (case r of
        Done T \<Rightarrow> if Status (State T) = RUNNING then reaches H ctx C0 T else exits H ctx C0 T None
      | Throw e T \<Rightarrow> exits H ctx C0 (faulted T) None
      | Stuck \<Rightarrow> False)"

lemma encode_ending:
  assumes "reaches H ctx C0 (with_pc p S)" "wf_cpu (Cpu S)"
    "Status (State S) = RUNNING" "OpCode i \<in> {OP_J, OP_SYSCALL, OP_INVALID, OP_FLUSH}"
  shows "ends_as H (encodeInstruction ctx (Node 1) i (PC (Cpu S))) C0 (executeInstructionSwitch H S i)"
proof -
  obtain env q where run: "ir_run H ctx C0 = Falls env (with_pc p S) (Live q)"
      "env 1 = VContext" "1 < length ctx"
    using assms(1) by (auto simp: reaches_def)
  note pc = encodePc_run [OF run(1), of "PC (Cpu S)", simplified]
  have ctx: "ctx \<noteq> []" using run(3) by auto
  consider "OpCode i = OP_J" | "OpCode i = OP_FLUSH" | "OpCode i = OP_INVALID" | "OpCode i = OP_SYSCALL"
    using assms(4) by auto
  then show ?thesis
  proof cases
    case 1
    then show ?thesis using run assms(3)
      by (auto simp: ends_as_def encodeInstruction_def executeInstructionSwitch_def executeJ_def
        encodeJ_def reaches_def Let_def encodePc_run with_pc_def)
  next
    case 2
    have h: "executeInstructionHelper H (with_pc p S) i H_executeFlush
        = Done (with_pc (p + 4) (flushInstructionCache S))"
      by (simp add: executeInstructionHelper_def executeFlush_def flush_with_pc Let_def
          with_pc_def advance_def)
    have "encodePc_target = with_pc (PC (Cpu S) + 4) (flushInstructionCache S) \<Longrightarrow>
        executeFlush S i = Done encodePc_target" for encodePc_target
      by (simp add: executeFlush_def Let_def with_pc_def advance_def)
    then show ?thesis using run 2 assms(3) encodeCall_run [OF run h] ctx
      by (auto simp: ends_as_def encodeInstruction_def executeInstructionSwitch_def Let_def
        reaches_def encodePc_run)
  next
    case 3
    have h: "executeInstructionHelper H S i H_executeInvalid = Done (faulted S)"
      by (simp add: executeInstructionHelper_def executeInvalid_def faulted_def)
    show ?thesis using run 3 assms(3) encodeCall_run [OF pc _ _ h] ctx
      by (auto simp: ends_as_def encodeInstruction_def executeInstructionSwitch_def Let_def
        exits_def executeInvalid_def)
  next
    case 4
    show ?thesis
    proof (cases "executeSyscall H S i")
      case (Done T)
      then have h: "executeInstructionHelper H S i H_executeSyscall = Done T"
        by (simp add: executeInstructionHelper_def)
      show ?thesis using run 4 Done encodeCall_run [OF pc _ _ h] ctx
        by (auto simp: ends_as_def encodeInstruction_def executeInstructionSwitch_def Let_def
          exits_def reaches_def)
    next
      case (Throw e T)
      then have h: "executeInstructionHelper H S i H_executeSyscall = Done (faulted T)"
        by (simp add: executeInstructionHelper_def faulted_def)
      show ?thesis using run 4 Throw encodeCall_run [OF pc _ _ h] ctx
        by (auto simp: ends_as_def encodeInstruction_def executeInstructionSwitch_def Let_def
          exits_def)
    next
      case Stuck
      then show ?thesis using executeSyscall_not_stuck by blast
    qed
  qed
qed

section \<open>The loop over the instructions\<close>

lemma block_shape_snoc:
  "block_shape (pre @ [l]) \<longleftrightarrow>
     (\<forall>i \<in> set pre. wf_instruction i \<and> \<not> endsBlock (OpCode i)) \<and> wf_instruction l"
proof (induction pre)
  case (Cons i pre)
  then show ?case by (cases pre) auto
qed simp

lemma encodeInstructions_snoc:
  assumes "\<forall>i \<in> set pre. \<not> endsBlock (OpCode i)"
  shows "encodeInstructions ctx cr s index (pre @ [l]) =
     (if OpCode l = OP_BEQ then encodeInstructions ctx cr s index pre
      else encodeInstruction (encodeInstructions ctx cr s index pre) cr l
        (s + of_nat ((index + length pre) * 4)))"
  using assms
proof (induction pre arbitrary: ctx index)
  case (Cons i pre)
  then have "OpCode i \<noteq> OP_BEQ" by auto
  with Cons show ?case by (simp add: Let_def)
qed (simp add: Let_def)

lemma exits_encodeInstructions:
  "exits H ctx C0 C e \<Longrightarrow> exits H (encodeInstructions ctx cr s index ins) C0 C e"
  by (induction ins arbitrary: ctx index) (auto simp: Let_def exits_encodeInstruction)

lemma encodeInstructions_straight:
  assumes "\<forall>i \<in> set pre. wf_instruction i \<and> \<not> endsBlock (OpCode i)"
    and "reaches H ctx C0 (with_pc p S)" "wf_cpu (Cpu S)" "Status (State S) = RUNNING"
  shows "simulates H (encodeInstructions ctx (Node 1) s index pre) C0 p (executeSwitch_loop H S pre)"
  using assms
proof (induction pre arbitrary: ctx index S)
  case Nil
  then show ?case by (simp add: simulates_def)
next
  case (Cons i pre)
  define ctx1 where "ctx1 = encodeInstruction ctx (Node 1) i (s + of_nat (index * 4))"
  have i: "wf_instruction i" "\<not> endsBlock (OpCode i)" "OpCode i \<noteq> OP_BEQ" using Cons.prems(1) by auto
  have e: "encodeInstructions ctx (Node 1) s index (i # pre) =
      encodeInstructions ctx1 (Node 1) s (index + 1) pre"
    using i by (simp add: ctx1_def Let_def)
  have sim: "simulates H ctx1 C0 p (executeInstructionSwitch H S i)"
    unfolding ctx1_def by (rule encode_straight [OF Cons.prems(2) i(1) Cons.prems(3,4) i(2)])
  show ?case
  proof (cases "executeInstructionSwitch H S i")
    case (Done T)
    have "State T = State S" "wf_cpu (Cpu T)"
      using switch_state [OF i(2), of S H] switch_instr_frame [of S H i] Done Cons.prems(3)
      by (simp_all add: instr_frame_def wf_cpu_def)
    then have "simulates H (encodeInstructions ctx1 (Node 1) s (index + 1) pre) C0 p
        (executeSwitch_loop H T pre)"
      using Cons.prems sim Done by (intro Cons.IH) (simp_all add: simulates_def)
    then show ?thesis using Done unfolding e by simp
  next
    case (Throw x T)
    then show ?thesis using sim unfolding e by (simp add: simulates_def exits_encodeInstructions)
  qed (use switch_not_stuck in blast)
qed

text \<open>What a straight run keeps of the state, and where it leaves the program counter.\<close>

lemma straight_keeps:
  assumes "\<forall>i \<in> set pre. \<not> endsBlock (OpCode i)" "executeSwitch_loop H S pre = Done T"
    "wf_cpu (Cpu S)"
  shows "PC (Cpu T) = PC (Cpu S) + of_nat (length pre * 4) \<and> State T = State S
     \<and> wf_cpu (Cpu T) \<and> BlockCache T = BlockCache S"
  using assms
proof (induction pre arbitrary: S)
  case (Cons i pre)
  obtain U where U: "executeInstructionSwitch H S i = Done U" "executeSwitch_loop H U pre = Done T"
    using Cons.prems(2) by (cases "executeInstructionSwitch H S i") auto
  have i: "\<not> endsBlock (OpCode i)" "OpCode i \<noteq> OP_FLUSH" using Cons.prems(1) by auto
  have s: "PC (Cpu U) = PC (Cpu S) + 4" "State U = State S" "BlockCache U = BlockCache S"
      "wf_cpu (Cpu U)"
    using switch_pc(1) [OF i(1) U(1)] switch_state [OF i(1), of S H]
      switch_cache_frame [OF i(2), of S H] switch_instr_frame [of S H i] U(1) Cons.prems(3)
    by (simp_all add: instr_frame_def wf_cpu_def)
  then show ?case using Cons.IH [of U] U Cons.prems(1) by (simp add: algebra_simps)
qed simp

section \<open>The entry of the next block\<close>

text \<open>The addresses whose slots the code of a block loads.\<close>

definition jit_targets :: "TIBasicBlock \<Rightarrow> u32 list" where
  "jit_targets b =
     (if Instructions b = [] then [endAddress b]
      else
        let l = last (Instructions b); ia = endAddress b - 4
        in case OpCode l of
             OP_BEQ \<Rightarrow> [ia + Value (Operands l ! 2) * 4, ia + 4]
           | OP_J \<Rightarrow> [(ia AND 0xF0000000) OR (Value (Operands l ! 0) * 4)]
           | OP_INVALID \<Rightarrow> []
           | OP_SYSCALL \<Rightarrow> [ia + 4]
           | OP_FLUSH \<Rightarrow> []
           | _ \<Rightarrow> [endAddress b])"

definition with_entry ::
  "ir_ctx \<Rightarrow> TIBasicBlockCache \<Rightarrow> TIBasicBlock \<Rightarrow> ir_ctx" where
  "with_entry ctx cache b =
     (case encodeNextJitEntry ctx cache b of (entry, ctx1, cache1) \<Rightarrow> grow ctx1 (IR_RETURN entry))"

lemma exits_with_entry: "exits H ctx C0 C e \<Longrightarrow> exits H (with_entry ctx cache b) C0 C e"
  by (cases "OpCode (last (Instructions b))")
    (auto simp: with_entry_def encodeNextJitEntry_def encodeJitEntryLoad_def emit_grow Let_def)

lemma next_entry_cache:
  "snd (snd (encodeNextJitEntry ctx cache b)) = foldl jitEntrySlot cache (jit_targets b)"
  by (cases "OpCode (last (Instructions b))")
    (auto simp: encodeNextJitEntry_def encodeJitEntryLoad_def emit_grow Let_def jit_targets_def)

definition slots_of :: "TIBasicBlockCache \<Rightarrow> TIBasicBlock \<Rightarrow> bool" where
  "slots_of c b \<longleftrightarrow> (\<forall>t \<in> set (jit_targets b). JitEntries c t \<noteq> None)"

definition entry_of :: "TIBasicBlockCache \<Rightarrow> u32 \<Rightarrow> code_addr option \<Rightarrow> bool" where
  "entry_of c a e \<longleftrightarrow> e = None \<or> JitEntries c a = Some e"

lemma with_entry_exits:
  assumes "reaches H ctx C0 T" "slots_of (BlockCache T) b" "Instructions b \<noteq> []"
    "OpCode (last (Instructions b)) \<noteq> OP_BEQ"
    "OpCode (last (Instructions b)) \<notin> {OP_INVALID, OP_FLUSH} \<longrightarrow> jit_targets b = [PC (Cpu T)]"
  shows "\<exists>e. exits H (with_entry ctx cache b) C0 T e \<and> entry_of (BlockCache T) (PC (Cpu T)) e"
proof -
  obtain env q where run: "ir_run H ctx C0 = Falls env T (Live q)"
    using assms(1) by (auto simp: reaches_def)
  show ?thesis
  proof (cases "OpCode (last (Instructions b)) \<in> {OP_INVALID, OP_FLUSH}")
    case True
    then show ?thesis using assms(3) run
      by (auto simp: with_entry_def encodeNextJitEntry_def exits_def entry_of_def Let_def)
  next
    case False
    then have t: "jit_targets b = [PC (Cpu T)]" using assms(5) by blast
    then obtain e where e: "JitEntries (BlockCache T) (PC (Cpu T)) = Some e"
      using assms(2) by (auto simp: slots_of_def)
    have "with_entry ctx cache b =
        grow (grow ctx (IR_LOAD (ir_CONST_ADDR (JitEntryAddr (PC (Cpu T))))))
          (IR_RETURN (Node (length ctx)))"
      using assms(3,4) False t
      by (cases "OpCode (last (Instructions b))")
        (auto simp: with_entry_def encodeNextJitEntry_def encodeJitEntryLoad_def emit_grow
          Let_def jit_targets_def)
    then show ?thesis using run e by (auto simp: exits_def entry_of_def)
  qed
qed

lemma with_entry_beq:
  assumes "reaches H ctx C0 (with_pc p S)" "slots_of (BlockCache S) b" "Instructions b \<noteq> []"
    "l = last (Instructions b)" "OpCode l = OP_BEQ" "wf_instruction l" "wf_cpu (Cpu S)"
    "PC (Cpu S) = endAddress b - 4" "executeBeq S l = Done T"
  shows "\<exists>e. exits H (with_entry ctx cache b) C0 T e \<and> entry_of (BlockCache T) (PC (Cpu T)) e"
proof -
  obtain env q where run: "ir_run H ctx C0 = Falls env (with_pc p S) (Live q)"
    using assms(1) by (auto simp: reaches_def)
  note regs = operand_kinds_register [OF assms(6), of 0] operand_kinds_register [OF assms(6), of 1]
  obtain e1 e2 where e: "JitEntries (BlockCache S) (endAddress b - 4 + Value (Operands l ! 2) * 4) = Some e1"
      "JitEntries (BlockCache S) (endAddress b - 4 + 4) = Some e2"
    using assms(2,3,5) by (auto simp: slots_of_def jit_targets_def Let_def assms(4) [symmetric])
  show ?thesis using run regs e assms(3,5,7,8,9)
    by (auto simp: with_entry_def encodeNextJitEntry_def encodeJitEntryLoad_def emit_grow Let_def
        assms(4) [symmetric] exits_def entry_of_def executeBeq_def regPtr_def wf_cpu_def reg_def
        with_pc_def advance_def split: if_splits)
qed

section \<open>A whole block\<close>

text \<open>The code of a block; it does not depend on the cache, which only gets the slots.\<close>

definition block_nodes :: "TIBasicBlock \<Rightarrow> ir_ctx" where
  "block_nodes b = fst (compileBlock_nodes emptyCache b)"

lemma with_entry_cache: "with_entry ctx cache b = with_entry ctx emptyCache b"
  by (cases "OpCode (last (Instructions b))")
    (auto simp: with_entry_def encodeNextJitEntry_def encodeJitEntryLoad_def emit_grow Let_def)

definition block_body :: "TIBasicBlock \<Rightarrow> ir_ctx" where
  "block_body b =
     (let ctx = encodeInstructions (grow (grow [] IR_START) IR_PARAM) (Node 1) (StartAddress b) 0
                  (Instructions b)
      in if Instructions b = [] \<or> \<not> updatesPc (OpCode (last (Instructions b)))
         then encodePc ctx (endAddress b) else ctx)"

lemma compileBlock_nodes_eq:
  "compileBlock_nodes cache b = (block_nodes b, foldl jitEntrySlot cache (jit_targets b))"
proof -
  have c: "compileBlock_nodes c b =
      (with_entry (block_body b) c b, snd (snd (encodeNextJitEntry (block_body b) c b)))" for c
    by (simp add: compileBlock_nodes_def with_entry_def block_body_def emit_grow Let_def split_def)
  show ?thesis
    using with_entry_cache [of "block_body b" cache b]
    by (simp add: block_nodes_def c next_entry_cache)
qed

lemma block_nodes_eq: "block_nodes b = with_entry (block_body b) emptyCache b"
  by (simp add: block_nodes_def compileBlock_nodes_def with_entry_def block_body_def emit_grow Let_def
        split: prod.split)

text \<open>What a return of the code of a block means for the run of the switch engine.\<close>

definition returns_as ::
  "'w Host \<Rightarrow> ir_ctx \<Rightarrow> 'w ExecutionContext \<Rightarrow> 'w ExecutionContext outcome \<Rightarrow> bool" where
  "returns_as H ctx S r \<longleftrightarrow>
     (case r of
        Done T \<Rightarrow> (\<exists>e. exits H ctx S T e \<and> entry_of (BlockCache T) (PC (Cpu T)) e
          \<and> (Status (State T) \<noteq> RUNNING \<longrightarrow> e = None))
      | Throw x T \<Rightarrow> (\<exists>q. exits H ctx S (with_pc q (faulted T)) None
          \<and> (q = PC (Cpu S) \<or> q = PC (Cpu T)))
      | Stuck \<Rightarrow> False)"

lemma dropRanges_slots:
  "JitEntries (dropRanges invalidateRange c rs) a = None \<longleftrightarrow> JitEntries c a = None"
proof (induction rs arbitrary: c)
  case (Cons r rs)
  then show ?case
    by (auto simp: invalidateRange_def split: option.splits)
qed simp

lemma switch_slots:
  "holds_in (\<lambda>T. \<forall>a. JitEntries (BlockCache T) a = None \<longleftrightarrow> JitEntries (BlockCache S) a = None)
     (executeInstructionSwitch H S i)"
proof (cases "OpCode i = OP_FLUSH")
  case True
  then show ?thesis
    by (simp add: executeInstructionSwitch_def executeFlush_def Let_def dropRanges_slots)
next
  case False
  show ?thesis using switch_cache_frame [OF False, of S H] by (rule holds_in_mono) simp
qed

lemma slots_of_switch:
  assumes "executeInstructionSwitch H S i = Done T"
  shows "slots_of (BlockCache T) b = slots_of (BlockCache S) b"
  using switch_slots [of S H i] assms by (simp add: slots_of_def)

lemma start_reaches: "reaches H (grow (grow [] IR_START) IR_PARAM) S S"
  by (simp add: reaches_def ir_run_def grow_def)

lemma ending_target:
  assumes "executeInstructionSwitch H S l = Done T" "Status (State S) = RUNNING"
    "Status (State T) = RUNNING"
    "OpCode l \<in> {OP_J, OP_SYSCALL}" "last (Instructions b) = l" "Instructions b \<noteq> []"
    "PC (Cpu S) = endAddress b - 4"
  shows "jit_targets b = [PC (Cpu T)]"
proof (cases "OpCode l = OP_J")
  case True
  then show ?thesis using assms
    by (auto simp: executeInstructionSwitch_def executeJ_def jit_targets_def Let_def)
next
  case False
  then have l: "OpCode l = OP_SYSCALL" "executeSyscall H S l = Done T"
    using assms by (auto simp: executeInstructionSwitch_def)
  have "PC (Cpu T) = PC (Cpu S) + 4"
    using l(2) assms(3) execute_syscall_frame [of "(Cpu S, Memory S, State S, World S)" H]
    by (cases "execute_syscall H (Cpu S, Memory S, State S, World S)")
      (auto simp: executeSyscall_def Let_def put_sys_def sys_frame_def split: if_splits prod.splits)
  then show ?thesis using assms l by (auto simp: jit_targets_def Let_def)
qed

text \<open>The three ways a block ends: at the end of memory, in a branch, in another terminator.\<close>

lemma tail_straight:
  assumes "reaches H ctx S (with_pc (PC (Cpu S)) U)" "wf_instruction l" "wf_cpu (Cpu U)"
    "Status (State U) = RUNNING" "\<not> endsBlock (OpCode l)"
    and "block_body b = encodePc (encodeInstruction ctx (Node 1) l a) (endAddress b)"
    and "last (Instructions b) = l" "Instructions b \<noteq> []"
    and "PC (Cpu U) = endAddress b - 4" "slots_of (BlockCache U) b"
  shows "returns_as H (block_nodes b) S (executeInstructionSwitch H U l)"
proof -
  define ctx1 where "ctx1 = encodeInstruction ctx (Node 1) l a"
  have s1: "simulates H ctx1 S (PC (Cpu S)) (executeInstructionSwitch H U l)"
    unfolding ctx1_def by (rule encode_straight [OF assms(1-5)])
  show ?thesis
  proof (cases "executeInstructionSwitch H U l")
    case (Done T)
    have pc: "PC (Cpu T) = endAddress b" using switch_pc(1) [OF assms(5) Done] assms(9) by simp
    have "reaches H (encodePc ctx1 (endAddress b)) S (with_pc (endAddress b) T)"
      using s1 Done by (auto simp: simulates_def reaches_def encodePc_run)
    then have r: "reaches H (block_body b) S T"
      using assms(6) pc by (metis ctx1_def with_pc_same)
    have t: "jit_targets b = [PC (Cpu T)]"
      using pc assms(5,7,8) by (cases "OpCode l") (simp_all add: jit_targets_def Let_def)
    have "State T = State U" using switch_state [OF assms(5), of U H] Done by simp
    moreover have "OpCode l \<noteq> OP_BEQ" using assms(5) by auto
    ultimately show ?thesis
      using with_entry_exits [OF r _ assms(8), of emptyCache] slots_of_switch [OF Done]
        assms(4,7,10) t Done
      by (auto simp: returns_as_def block_nodes_eq)
  next
    case (Throw x T)
    then have "exits H (block_nodes b) S (with_pc (PC (Cpu S)) (faulted T)) None"
      using s1 unfolding block_nodes_eq assms(6) ctx1_def
      by (intro exits_with_entry) (simp add: simulates_def encodePc_def emit_grow)
    then show ?thesis using Throw by (auto simp: returns_as_def)
  qed (use switch_not_stuck in blast)
qed

lemma tail_branch:
  assumes "reaches H ctx S (with_pc p U)" "wf_instruction l" "wf_cpu (Cpu U)"
    "Status (State U) = RUNNING" "OpCode l = OP_BEQ" "block_body b = ctx"
    and "last (Instructions b) = l" "Instructions b \<noteq> []"
    and "PC (Cpu U) = endAddress b - 4" "slots_of (BlockCache U) b"
  shows "returns_as H (block_nodes b) S (executeInstructionSwitch H U l)"
proof -
  have x: "executeInstructionSwitch H U l = executeBeq U l"
    using assms(5) by (simp add: executeInstructionSwitch_def)
  obtain T where T: "executeBeq U l = Done T" "State T = State U"
    by (cases "reg (Cpu U) (Operands l ! 0) = reg (Cpu U) (Operands l ! 1)")
      (auto simp: executeBeq_def Let_def)
  show ?thesis
    using with_entry_beq [OF assms(1,10,8) assms(7) [symmetric] assms(5,2,3,9) T(1), of emptyCache]
      assms(4,6) T
    by (auto simp: returns_as_def block_nodes_eq x)
qed

lemma tail_ending:
  assumes "reaches H ctx S (with_pc p U)" "wf_cpu (Cpu U)" "Status (State U) = RUNNING"
    "endsBlock (OpCode l)" "OpCode l \<noteq> OP_BEQ"
    and "block_body b = encodeInstruction ctx (Node 1) l (PC (Cpu U))"
    and "last (Instructions b) = l" "Instructions b \<noteq> []"
    and "PC (Cpu U) = endAddress b - 4" "slots_of (BlockCache U) b"
  shows "returns_as H (block_nodes b) S (executeInstructionSwitch H U l)"
proof -
  have op: "OpCode l \<in> {OP_J, OP_SYSCALL, OP_INVALID, OP_FLUSH}"
    using assms(4,5) by (cases "OpCode l") simp_all
  have e: "ends_as H (block_body b) S (executeInstructionSwitch H U l)"
    unfolding assms(6) by (rule encode_ending [OF assms(1-3) op])
  show ?thesis
  proof (cases "executeInstructionSwitch H U l")
    case T: (Done T)
    show ?thesis
    proof (cases "Status (State T) = RUNNING")
      case True
      then have r: "reaches H (block_body b) S T" using e T by (simp add: ends_as_def)
      have "\<exists>e. exits H (block_nodes b) S T e \<and> entry_of (BlockCache T) (PC (Cpu T)) e"
        unfolding block_nodes_eq
        using with_entry_exits [OF r _ assms(8), of emptyCache] slots_of_switch [OF T] assms(5,7,10)
          op ending_target [OF T assms(3) True _ assms(7,8,9)]
        by auto
      then show ?thesis using True T by (auto simp: returns_as_def)
    next
      case False
      then have "exits H (block_nodes b) S T None"
        using e T unfolding block_nodes_eq by (intro exits_with_entry) (simp add: ends_as_def)
      then show ?thesis using T by (auto simp: returns_as_def entry_of_def)
    qed
  next
    case (Throw x T)
    then have "exits H (block_nodes b) S (faulted T) None"
      using e unfolding block_nodes_eq by (intro exits_with_entry) (simp add: ends_as_def)
    then show ?thesis using Throw
      by (auto simp: returns_as_def intro!: exI [of _ "PC (Cpu T)"])
  qed (use switch_not_stuck in blast)
qed

lemma block_nodes_correct:
  assumes "block_shape (Instructions b)" "StartAddress b = PC (Cpu S)" "wf_cpu (Cpu S)"
    "Status (State S) = RUNNING" "slots_of (BlockCache S) b"
  shows "returns_as H (block_nodes b) S (executeSwitchBlock H S b)"
proof -
  obtain pre l where ins: "Instructions b = pre @ [l]"
    using assms(1) by (cases "Instructions b" rule: rev_cases) auto
  then have pre: "\<forall>i \<in> set pre. wf_instruction i \<and> \<not> endsBlock (OpCode i)" "wf_instruction l"
    "\<forall>i \<in> set pre. \<not> endsBlock (OpCode i)"
    using assms(1) by (auto simp: block_shape_snoc)
  define ctx where "ctx = encodeInstructions (grow (grow [] IR_START) IR_PARAM) (Node 1)
    (StartAddress b) 0 pre"
  have sim: "simulates H ctx S (PC (Cpu S)) (executeSwitch_loop H S pre)"
    unfolding ctx_def using start_reaches [of H S] pre(1) assms
    by (intro encodeInstructions_straight) simp_all
  have "encodeInstructions (grow (grow [] IR_START) IR_PARAM) (Node 1) (StartAddress b) 0
      (Instructions b) = (if OpCode l = OP_BEQ then ctx else encodeInstruction ctx (Node 1) l
        (PC (Cpu S) + of_nat (length pre * 4)))"
    using encodeInstructions_snoc [OF pre(3)] assms(2) by (simp add: ins ctx_def)
  then have body: "block_body b = (let c = (if OpCode l = OP_BEQ then ctx
        else encodeInstruction ctx (Node 1) l (PC (Cpu S) + of_nat (length pre * 4)))
      in if endsBlock (OpCode l) then c else encodePc c (endAddress b))"
    unfolding block_body_def Let_def by (simp add: ins updatesPc_eq_endsBlock)
  have last: "last (Instructions b) = l" "Instructions b \<noteq> []" by (simp_all add: ins)
  have ea: "endAddress b - 4 = PC (Cpu S) + of_nat (length pre * 4)"
    by (simp add: endAddress_def ins assms(2))
  have run: "executeSwitchBlock H S b =
      andThen (executeSwitch_loop H S pre) (\<lambda>U. executeInstructionSwitch H U l)"
    by (simp add: executeSwitchBlock_def ins executeSwitch_loop_append)
  show ?thesis
  proof (cases "executeSwitch_loop H S pre")
    case (Throw x T)
    then have "exits H (block_nodes b) S (with_pc (PC (Cpu S)) (faulted T)) None"
      using sim unfolding block_nodes_eq body Let_def
      by (intro exits_with_entry)
        (simp add: simulates_def exits_encodeInstruction encodePc_def emit_grow)
    then show ?thesis using Throw by (auto simp: run returns_as_def)
  next
    case (Done U)
    note keeps = straight_keeps [OF pre(3) Done assms(3)]
    have U: "reaches H ctx S (with_pc (PC (Cpu S)) U)" "wf_cpu (Cpu U)"
        "Status (State U) = RUNNING" "PC (Cpu U) = endAddress b - 4" "slots_of (BlockCache U) b"
      using sim keeps Done assms ea by (simp_all add: simulates_def)
    have "returns_as H (block_nodes b) S (executeInstructionSwitch H U l)"
      using tail_straight [OF U(1) pre(2) U(2,3) _ _ last U(4,5)]
        tail_branch [OF U(1) pre(2) U(2,3) _ _ last U(4,5)] tail_ending [OF U(1-3) _ _ _ last U(4,5)]
        body U(4) ea
      by (cases "OpCode l = OP_BEQ"; cases "endsBlock (OpCode l)") (simp_all add: Let_def)
    then show ?thesis using Done by (simp add: run)
  qed (use sim in \<open>simp add: simulates_def\<close>)
qed

section \<open>Properties\<close>

text \<open>C4. The code generated for a block does what the switch engine does with it. Where the engine
  finishes the block, the code returns with the same context, and with either no next entry or
  the content of the slot of the new program counter; with none once the program has stopped.
  Where the engine throws, the code returns with a fault and no next entry, in the same context
  but for the program counter, which is that of the block's start or of the instruction.\<close>

theorem generated_code_executes_the_block:
  assumes "block_shape (Instructions b)" "StartAddress b = PC (Cpu S)" "wf_cpu (Cpu S)"
    "Status (State S) = RUNNING" "\<forall>t \<in> set (jit_targets b). JitEntries (BlockCache S) t \<noteq> None"
  shows "case executeSwitchBlock H S b of
      Done T \<Rightarrow> \<exists>e. ir_run H (fst (compileBlock_nodes cache b)) S = Returns T (VEntry e)
        \<and> (e = None \<or> JitEntries (BlockCache T) (PC (Cpu T)) = Some e)
        \<and> (Status (State T) \<noteq> RUNNING \<longrightarrow> e = None)
    | Throw x T \<Rightarrow> \<exists>q \<in> {PC (Cpu S), PC (Cpu T)}.
        ir_run H (fst (compileBlock_nodes cache b)) S = Returns (with_pc q (faulted T)) (VEntry None)
    | Stuck \<Rightarrow> False"
  using block_nodes_correct [OF assms(1-4), of H] assms(5)
  by (cases "executeSwitchBlock H S b")
    (auto simp: slots_of_def compileBlock_nodes_eq returns_as_def exits_def entry_of_def)

lemma generated_code_executes_the_block_witness:
  "\<exists>q. ir_run silent_host (fst (compileBlock_nodes emptyCache (TIBasicBlock_new 0 [decode 0]))) (new_context 8)
     = Returns (with_pc q (faulted (new_context 8))) (VEntry None)"
proof -
  let ?b = "TIBasicBlock_new 0 [decode 0]"
  have b: "Instructions ?b = [decode 0]" "StartAddress ?b = 0" by (simp_all add: TIBasicBlock_new_def)
  have c: "PC (Cpu (new_context 8)) = 0" "wf_cpu (Cpu (new_context 8))" "Status (State (new_context 8)) = RUNNING"
    by (simp_all add: new_context_def ExecutionContext_new_def TICpuState_new_def wf_cpu_def TIExecutionState_new_def)
  have "executeSwitchBlock silent_host (new_context 8) ?b
      = Throw (SimulationException INVALID_INSTRUCTION) (new_context 8)"
    by (simp add: executeSwitchBlock_def TIBasicBlock_new_def decode_0 executeInstructionSwitch_def
          executeInvalid_def)
  moreover have "block_shape (Instructions ?b)" by (simp add: b decode_wf)
  moreover have "jit_targets ?b = []" unfolding jit_targets_def b by (simp add: Let_def decode_0)
  ultimately have "\<exists>q \<in> {0, PC (Cpu (new_context 8))}.
      ir_run silent_host (fst (compileBlock_nodes emptyCache ?b)) (new_context 8)
        = Returns (with_pc q (faulted (new_context 8))) (VEntry None)"
    using generated_code_executes_the_block [of ?b "new_context 8" silent_host emptyCache] b(2) c
    by (simp del: with_pc_advance)
  then show ?thesis by blast
qed

end
