(* ===== verification/JitExecutor.thy ===== *)
theory JitExecutor
  imports JitCorrect
begin

text \<open>
  \<open>compileBlock\<close> and \<open>executeJitBlock\<close> of \<open>jit_executor.cpp\<close>, and why a JIT entry slot never
  leads to code that was unmapped. The IR library is a parameter with two functions: one
  compiles and maps a function (entry and size, or failure), one is the run of mapped code. The
  library may use any address again that is not mapped.
\<close>

section \<open>The library\<close>

record 'w ir_lib =
  lib_map :: "(code_addr \<Rightarrow> ir_code option) \<Rightarrow> ir_code \<Rightarrow> (code_addr \<times> nat) option"
  lib_run :: "'w Host \<Rightarrow> ir_code \<Rightarrow> 'w ExecutionContext
    \<Rightarrow> ('w ExecutionContext \<times> code_addr option) option"

text \<open>Code is mapped where nothing else is, and runs as its nodes say where they have a meaning.\<close>

definition lib_ok :: "'w ir_lib \<Rightarrow> bool" where
  "lib_ok L \<longleftrightarrow>
     (\<forall>mapped code p n. lib_map L mapped code = Some (p, n) \<longrightarrow> mapped p = None)
     \<and> (\<forall>H code C r. ir_meaning H code C = Some r \<longrightarrow> lib_run L H code C = Some r)"

section \<open>Compiling a block\<close>

definition compileBlock ::
  "'w ir_lib \<Rightarrow> TIBasicBlockCache \<Rightarrow> TIBasicBlock \<Rightarrow> u8 \<Rightarrow> TICompiledBlock \<times> TIBasicBlockCache" where
  "compileBlock L cache block optimizationLevel =
     (let (nodes, cache1) = compileBlock_nodes cache block;
          code = \<lparr>Nodes = nodes, Folding = optimizationLevel > 0, Level = optimizationLevel\<rparr>
      in case lib_map L (NativeCode cache1) code of
           None \<Rightarrow> (noCompiledBlock, cache1)
         | Some (entryPoint, codeSize) \<Rightarrow>
             (\<lparr>EntryPoint = Some entryPoint, CodeSize = codeSize\<rparr>,
              cache1\<lparr>NativeCode := (NativeCode cache1)(entryPoint := Some code)\<rparr>))"

text \<open>The parameter is moved in by value and then assigned; the code held so far is unmapped.\<close>

definition setCompiledBlock ::
  "TIBasicBlockCache \<Rightarrow> u32 \<Rightarrow> TIBasicBlock \<Rightarrow> TICompiledBlock \<Rightarrow> TIBasicBlockCache" where
  "setCompiledBlock c key b cb =
     (let (block, _) = moveCompiled cb;
          (c1, compiledBlock, _) = moveAssign c (CompiledBlock b) block
      in c1\<lparr>Blocks := (Blocks c1)(key := Some (b\<lparr>CompiledBlock := compiledBlock\<rparr>))\<rparr>)"

lemma setCompiledBlock_eq:
  "setCompiledBlock c key b cb =
     (let c1 = resetCompiled c (CompiledBlock b)
      in c1\<lparr>Blocks := (Blocks c1)(key := Some (b\<lparr>CompiledBlock := cb\<rparr>))\<rparr>)"
  by (simp add: setCompiledBlock_def moveAssign_def)

section \<open>Executing a block\<close>

text \<open>A call of mapped code. Calling an address where no code is mapped has no meaning.\<close>

definition callEntry ::
  "'w ir_lib \<Rightarrow> 'w Host \<Rightarrow> 'w ExecutionContext \<Rightarrow> code_addr
     \<Rightarrow> ('w ExecutionContext \<times> code_addr option) option" where
  "callEntry L H C p =
     (case NativeCode (BlockCache C) p of None \<Rightarrow> None | Some code \<Rightarrow> lib_run L H code C)"

partial_function (option) chainEntries ::
  "'w ir_lib \<Rightarrow> 'w Host \<Rightarrow> 'w ExecutionContext \<Rightarrow> code_addr option
     \<Rightarrow> 'w ExecutionContext outcome option" where
  "chainEntries L H C nextEntry =
     (case nextEntry of
        None \<Rightarrow> Some (Done C)
      | Some p \<Rightarrow>
         (case callEntry L H C p of
            None \<Rightarrow> Some Stuck
          | Some (C1, next1) \<Rightarrow> chainEntries L H C1 next1))"

text \<open>The compilation in \<open>executeJitBlock\<close>: the block gets its code and its slot the entry.\<close>

definition ensureCompiled ::
  "'w ir_lib \<Rightarrow> 'w ExecutionContext \<Rightarrow> u32 \<Rightarrow> TIBasicBlock \<Rightarrow> 'w ExecutionContext outcome" where
  "ensureCompiled L C key b =
     (if hasCompiledBlock b then Done C
      else
        let (cb, cache1) = compileBlock L (BlockCache C) b (JitOptimizationLevel C)
        in if compiledEmpty cb then Throw RuntimeError (C\<lparr>BlockCache := cache1\<rparr>)
           else let cache2 = setCompiledBlock cache1 key b cb;
                    cache3 = setJitEntry cache2 (StartAddress b) (EntryPoint cb)
                in Done (C\<lparr>BlockCache := cache3\<rparr>))"

definition executeJitBlock ::
  "'w ir_lib \<Rightarrow> 'w Host \<Rightarrow> 'w ExecutionContext \<Rightarrow> u32 \<Rightarrow> u64 \<Rightarrow> 'w ExecutionContext outcome option" where
  "executeJitBlock L H C key threshold =
     (case Blocks (BlockCache C) key of
        None \<Rightarrow> Some Stuck
      | Some b \<Rightarrow>
          if \<not> hasCompiledBlock b \<and> ExecutionCount b < threshold
          then let cache1 = (BlockCache C)\<lparr>Blocks :=
                     (Blocks (BlockCache C))(key := Some (recordExecution b))\<rparr>
               in Some (executeThreadedBlock H (C\<lparr>BlockCache := cache1\<rparr>) b)
          else
            (case ensureCompiled L C key b of
               Throw e C1 \<Rightarrow> Some (Throw e C1)
             | Stuck \<Rightarrow> Some Stuck
             | Done C1 \<Rightarrow>
                 (case Blocks (BlockCache C1) key of
                    None \<Rightarrow> Some Stuck
                  | Some b1 \<Rightarrow>
                     (case EntryPoint (CompiledBlock b1) of
                        None \<Rightarrow> Some Stuck
                      | Some p \<Rightarrow>
                         (case callEntry L H C1 p of
                            None \<Rightarrow> Some Stuck
                          | Some (C2, nextEntry) \<Rightarrow> chainEntries L H C2 nextEntry)))))"

section \<open>Code, its owners and the slots\<close>

definition entry_at :: "TIBasicBlockCache \<Rightarrow> u32 \<Rightarrow> code_addr \<Rightarrow> TIBasicBlock \<Rightarrow> bool" where
  "entry_at c a p b \<longleftrightarrow> Blocks c a = Some b \<and> EntryPoint (CompiledBlock b) = Some p"

text \<open>
  Every compiled block has its own code mapped, generated from it, and the slots it loads
  exist; no code is mapped that no block owns; a slot that is not null holds the entry of the
  valid block of its address; finitely many addresses are mapped.
\<close>

definition jit_ok :: "TIBasicBlockCache \<Rightarrow> bool" where
  "jit_ok c \<longleftrightarrow>
     (\<forall>a p b. entry_at c a p b \<longrightarrow>
        (\<exists>code. NativeCode c p = Some code \<and> Nodes code = block_nodes b) \<and> slots_of c b)
     \<and> (\<forall>a p b a' b'. entry_at c a p b \<longrightarrow> entry_at c a' p b' \<longrightarrow> a' = a)
     \<and> (\<forall>p code. NativeCode c p = Some code \<longrightarrow> (\<exists>a b. entry_at c a p b))
     \<and> (\<forall>a p. JitEntries c a = Some (Some p) \<longrightarrow> (\<exists>b. entry_at c a p b \<and> Valid b))
     \<and> finite (dom (NativeCode c))"

lemma jit_okD:
  assumes "jit_ok c"
  shows "entry_at c a p b \<Longrightarrow> \<exists>code. NativeCode c p = Some code \<and> Nodes code = block_nodes b"
    and "entry_at c a p b \<Longrightarrow> slots_of c b"
    and "entry_at c a p b \<Longrightarrow> entry_at c a' p b' \<Longrightarrow> a' = a"
    and "NativeCode c p = Some code \<Longrightarrow> \<exists>a b. entry_at c a p b"
    and "JitEntries c a = Some (Some p) \<Longrightarrow> \<exists>b. entry_at c a p b \<and> Valid b"
    and "finite (dom (NativeCode c))"
  using assms unfolding jit_ok_def by blast+

lemma jit_okI:
  assumes "\<And>a p b. entry_at c a p b \<Longrightarrow>
      (\<exists>code. NativeCode c p = Some code \<and> Nodes code = block_nodes b) \<and> slots_of c b"
    and "\<And>a p b a' b'. entry_at c a p b \<Longrightarrow> entry_at c a' p b' \<Longrightarrow> a' = a"
    and "\<And>p code. NativeCode c p = Some code \<Longrightarrow> \<exists>a b. entry_at c a p b"
    and "\<And>a p. JitEntries c a = Some (Some p) \<Longrightarrow> \<exists>b. entry_at c a p b \<and> Valid b"
    and "finite (dom (NativeCode c))"
  shows "jit_ok c"
  unfolding jit_ok_def using assms by blast

lemma jit_ok_empty: "jit_ok emptyCache"
  by (simp add: jit_ok_def entry_at_def emptyCache_def)

text \<open>Every mapped function has an owner, so that clearing the cache unmaps all of them.\<close>

lemma clear_unmaps: "jit_ok c \<Longrightarrow> NativeCode (clear c) p = None"
  using jit_okD(4) [of c p] by (cases "NativeCode c p") (simp_all add: clear_def owned_def entry_at_def)

lemma jit_ok_clear: "jit_ok c \<Longrightarrow> jit_ok (clear c)"
proof -
  assume "jit_ok c"
  then have "dom (NativeCode (clear c)) = {}" "NativeCode (clear c) p = None" for p
    by (auto simp: clear_unmaps)
  then show ?thesis by (intro jit_okI) (simp_all, simp_all add: entry_at_def clear_def)
qed

section \<open>Operations keep the slots safe\<close>

lemma block_nodes_cong:
  assumes "StartAddress b' = StartAddress b" "Instructions b' = Instructions b"
  shows "block_nodes b' = block_nodes b" "jit_targets b' = jit_targets b"
proof -
  have e: "endAddress b' = endAddress b" using assms by (simp add: endAddress_def)
  show "block_nodes b' = block_nodes b"
    unfolding block_nodes_def compileBlock_nodes_def encodeNextJitEntry_def assms e ..
  show "jit_targets b' = jit_targets b"
    unfolding jit_targets_def assms e ..
qed

lemma slots_of_cong:
  "StartAddress b' = StartAddress b \<Longrightarrow> Instructions b' = Instructions b \<Longrightarrow>
     slots_of c b' = slots_of c b"
  unfolding slots_of_def by (simp only: block_nodes_cong(2) [of b' b])

lemma record_frame [simp, ti_frame]:
  "CompiledBlock (recordExecution b) = CompiledBlock b"
  "Valid (recordExecution b) = Valid b"
  "StartAddress (recordExecution b) = StartAddress b"
  "Instructions (recordExecution b) = Instructions b"
  by (simp_all add: recordExecution_def)

lemma jit_view_compiled [simp]: "block_nodes (b\<lparr>CompiledBlock := cb\<rparr>) = block_nodes b"
    "slots_of c (b\<lparr>CompiledBlock := cb\<rparr>) = slots_of c b"
  by (rule block_nodes_cong slots_of_cong; simp)+

lemma jit_view_record [simp]: "block_nodes (recordExecution b) = block_nodes b"
    "slots_of c (recordExecution b) = slots_of c b"
  by (rule block_nodes_cong slots_of_cong; simp)+

lemma jit_view_invalidate [simp]: "block_nodes (invalidate b) = block_nodes b"
    "slots_of c (invalidate b) = slots_of c b"
  by (rule block_nodes_cong slots_of_cong; simp)+

text \<open>Adding null slots.\<close>

lemma slots_of_mono:
  "slots_of c b \<Longrightarrow> (\<And>k. JitEntries c k \<noteq> None \<Longrightarrow> JitEntries c' k \<noteq> None) \<Longrightarrow> slots_of c' b"
  by (simp add: slots_of_def)

lemma jit_ok_jitEntrySlot:
  assumes "jit_ok c"
  shows "jit_ok (jitEntrySlot c a)"
proof (rule jit_okI)
  have e: "entry_at (jitEntrySlot c a) = entry_at c" by (simp add: entry_at_def fun_eq_iff)
  show "finite (dom (NativeCode (jitEntrySlot c a)))" using jit_okD(6) [OF assms] by simp
  fix k p b
  show "(\<exists>code. NativeCode (jitEntrySlot c a) p = Some code \<and> Nodes code = block_nodes b)
      \<and> slots_of (jitEntrySlot c a) b" if "entry_at (jitEntrySlot c a) k p b"
    using that jit_okD(1,2) [OF assms] slots_of_mono [of c b "jitEntrySlot c a"]
    by (auto simp: e jitEntrySlot_value)
  show "k' = k" if "entry_at (jitEntrySlot c a) k p b" "entry_at (jitEntrySlot c a) k' p b'" for k' b'
    using that jit_okD(3) [OF assms] by (simp add: e)
  show "\<exists>a' b. entry_at (jitEntrySlot c a) a' p b" if "NativeCode (jitEntrySlot c a) p = Some code" for code
    using that jit_okD(4) [OF assms] by (simp add: e)
  show "\<exists>b. entry_at (jitEntrySlot c a) k p b \<and> Valid b"
    if "JitEntries (jitEntrySlot c a) k = Some (Some p)"
    using that jit_okD(5) [OF assms, of k p]
    by (auto simp: e jitEntrySlot_value split: if_splits option.splits)
qed

lemma jit_ok_slots: "jit_ok c \<Longrightarrow> jit_ok (foldl jitEntrySlot c as)"
  by (induction "as" arbitrary: c) (simp_all add: jit_ok_jitEntrySlot)

text \<open>Invalidation clears the slot of every block it marks.\<close>

lemma entry_at_invalidateRange:
  "entry_at (invalidateRange c a n) k p b \<longleftrightarrow>
     (\<exists>b0. entry_at c k p b0 \<and> b = (if invalidates b0 a n then invalidate b0 else b0))"
proof (cases "Blocks c k")
  case None
  then show ?thesis by (simp add: entry_at_def invalidateRange_Blocks)
next
  case (Some b0)
  then show ?thesis
    by (cases "invalidates b0 a n") (auto simp: entry_at_def invalidateRange_Blocks)
qed

lemma jit_ok_invalidateRange:
  assumes "jit_ok c"
  shows "jit_ok (invalidateRange c a n)"
proof (rule jit_okI)
  note e = entry_at_invalidateRange
  have slot: "slots_of c b \<Longrightarrow> slots_of (invalidateRange c a n) b" for b
    by (erule slots_of_mono) (auto simp: invalidateRange_def split: option.split)
  show "finite (dom (NativeCode (invalidateRange c a n)))" using jit_okD(6) [OF assms] by simp
  fix k p b
  show "(\<exists>code. NativeCode (invalidateRange c a n) p = Some code \<and> Nodes code = block_nodes b)
      \<and> slots_of (invalidateRange c a n) b" if "entry_at (invalidateRange c a n) k p b"
    using that jit_okD(1,2) [OF assms] slot by (auto simp: e)
  show "k' = k" if "entry_at (invalidateRange c a n) k p b" "entry_at (invalidateRange c a n) k' p b'" for k' b'
    using that jit_okD(3) [OF assms] unfolding e by blast
  show "\<exists>a' b. entry_at (invalidateRange c a n) a' p b"
    if "NativeCode (invalidateRange c a n) p = Some code" for code
    using that jit_okD(4) [OF assms] by (auto simp: e)
  show "\<exists>b. entry_at (invalidateRange c a n) k p b \<and> Valid b"
    if "JitEntries (invalidateRange c a n) k = Some (Some p)"
  proof -
    have j: "JitEntries c k = Some (Some p)"
      using that by (auto simp: invalidateRange_def split: option.splits if_splits)
    then obtain b where b: "entry_at c k p b" "Valid b" using jit_okD(5) [OF assms] by blast
    then have "\<not> invalidates b a n"
      using that by (auto simp: invalidateRange_def entry_at_def split: option.splits if_splits)
    then show ?thesis using b by (auto simp: e)
  qed
qed

lemma jit_ok_dropRanges: "jit_ok c \<Longrightarrow> jit_ok (dropRanges invalidateRange c rs)"
  by (induction rs arbitrary: c) (simp_all add: jit_ok_invalidateRange)

text \<open>
  Destroying an invalid block unmaps its code: no slot can hold it, because the slot would
  name a valid owner and code has one owner.
\<close>

lemma jit_ok_erase:
  assumes "jit_ok c" "Blocks c a = Some b" "\<not> Valid b"
  defines "c' \<equiv> resetCompiled (c\<lparr>Blocks := (Blocks c)(a := None)\<rparr>) (CompiledBlock b)"
  shows "jit_ok c'"
proof (rule jit_okI)
  have e: "entry_at c' k p b' \<longleftrightarrow> k \<noteq> a \<and> entry_at c k p b'" for k p b'
    by (auto simp: c'_def entry_at_def)
  have n: "NativeCode c' p = (if EntryPoint (CompiledBlock b) = Some p then None else NativeCode c p)" for p
    by (auto simp: c'_def resetCompiled_def split: option.split)
  have own: "k = a" if "entry_at c k p b'" "EntryPoint (CompiledBlock b) = Some p" for k p b'
  proof -
    have "entry_at c a p b" using that assms(2) by (simp add: entry_at_def)
    then show ?thesis using jit_okD(3) [OF assms(1)] that(1) by blast
  qed
  have j: "JitEntries c' = JitEntries c" by (simp add: c'_def)
  have "dom (NativeCode c') \<subseteq> dom (NativeCode c)" by (auto simp: n split: if_splits)
  then show "finite (dom (NativeCode c'))" using jit_okD(6) [OF assms(1)] by (rule finite_subset)
  fix k p b'
  show "(\<exists>code. NativeCode c' p = Some code \<and> Nodes code = block_nodes b') \<and> slots_of c' b'"
    if "entry_at c' k p b'"
    using that jit_okD(1,2) [OF assms(1)] own by (auto simp: e n j slots_of_def)
  show "k' = k" if "entry_at c' k p b'" "entry_at c' k' p b''" for k' b''
    using that jit_okD(3) [OF assms(1)] unfolding e by blast
  show "\<exists>a' b. entry_at c' a' p b" if "NativeCode c' p = Some code" for code
  proof -
    from that have p: "NativeCode c p = Some code" "EntryPoint (CompiledBlock b) \<noteq> Some p"
      by (simp_all add: n split: if_splits)
    then obtain k0 b0 where "entry_at c k0 p b0" using jit_okD(4) [OF assms(1)] by blast
    moreover from this have "k0 \<noteq> a" using p(2) assms(2) by (auto simp: entry_at_def)
    ultimately show ?thesis by (auto simp: e)
  qed
  show "\<exists>b. entry_at c' k p b \<and> Valid b" if "JitEntries c' k = Some (Some p)"
  proof -
    have "JitEntries c k = Some (Some p)" using that by (simp add: j)
    then obtain b0 where "entry_at c k p b0" "Valid b0"
      using jit_okD(5) [OF assms(1)] by blast
    moreover from this have "k \<noteq> a" using assms(2,3) by (auto simp: entry_at_def)
    ultimately show ?thesis by (auto simp: e)
  qed
qed

text \<open>Blocks come without code, and counting an execution does not touch it.\<close>

lemma jit_ok_insert:
  assumes "jit_ok c" "Blocks c a = None"
  shows "jit_ok (c\<lparr>Blocks := (Blocks c)(a := Some (TIBasicBlock_new a ins))\<rparr>)"
proof -
  have e: "entry_at (c\<lparr>Blocks := (Blocks c)(a := Some (TIBasicBlock_new a ins))\<rparr>) = entry_at c"
    using assms(2) by (auto simp: entry_at_def TIBasicBlock_new_def noCompiledBlock_def fun_eq_iff)
  show ?thesis
    using assms(1) unfolding jit_ok_def e by (simp add: slots_of_def)
qed

lemma jit_ok_update:
  assumes "jit_ok c" "Blocks c a = Some b" "CompiledBlock b' = CompiledBlock b" "Valid b' = Valid b"
    "StartAddress b' = StartAddress b" "Instructions b' = Instructions b"
  shows "jit_ok (c\<lparr>Blocks := (Blocks c)(a := Some b')\<rparr>)"
proof -
  define c' where "c' = c\<lparr>Blocks := (Blocks c)(a := Some b')\<rparr>"
  have e: "entry_at c' k p x \<longleftrightarrow> (if k = a then x = b' \<and> entry_at c k p b else entry_at c k p x)"
    for k p x
    using assms(2,3) by (auto simp: entry_at_def c'_def)
  have v: "block_nodes b' = block_nodes b" "slots_of c' x = slots_of c x" "slots_of c b' = slots_of c b" for x
    using block_nodes_cong [OF assms(5,6)] slots_of_cong [OF assms(5,6)]
    by (simp_all add: slots_of_def c'_def)
  have n: "NativeCode c' = NativeCode c" "JitEntries c' = JitEntries c"
    by (simp_all add: c'_def)
  have "jit_ok c'"
  proof (rule jit_okI)
    show "finite (dom (NativeCode c'))" using jit_okD(6) [OF assms(1)] by (simp add: n)
    fix k p x
    show "(\<exists>code. NativeCode c' p = Some code \<and> Nodes code = block_nodes x) \<and> slots_of c' x"
      if "entry_at c' k p x"
      using that jit_okD(1,2) [OF assms(1)] by (auto simp: e v n split: if_splits)
    show "k' = k" if "entry_at c' k p x" "entry_at c' k' p y" for k' y
      using that jit_okD(3) [OF assms(1)] by (simp add: e split: if_splits) blast+
    show "\<exists>k x. entry_at c' k p x" if "NativeCode c' p = Some code" for code
    proof -
      have "NativeCode c p = Some code" using that by (simp add: n)
      then obtain k0 x0 where "entry_at c k0 p x0" using jit_okD(4) [OF assms(1)] by blast
      then have "entry_at c' k0 p (if k0 = a then b' else x0)"
        using assms(2,3) by (auto simp: c'_def entry_at_def)
      then show ?thesis by blast
    qed
    show "\<exists>x. entry_at c' k p x \<and> Valid x" if "JitEntries c' k = Some (Some p)"
    proof -
      have "JitEntries c k = Some (Some p)" using that by (simp add: n)
      then obtain x0 where "entry_at c k p x0" "Valid x0" using jit_okD(5) [OF assms(1)] by blast
      then have "entry_at c' k p (if k = a then b' else x0) \<and> Valid (if k = a then b' else x0)"
        using assms(2-4) by (auto simp: c'_def entry_at_def)
      then show ?thesis by blast
    qed
  qed
  then show ?thesis by (simp add: c'_def)
qed

lemma jit_ok_getBlock:
  assumes "cache_ok (length (Bytes m)) c" "jit_ok c" "getBlock c a m = Some r"
  shows "holds_in jit_ok r"
  using assms(1)
proof (cases rule: getBlock_cases [where a = a])
  case (hit b)
  then show ?thesis using assms(2,3) by simp
next
  case (error e c')
  then show ?thesis using assms(2,3) jit_ok_erase [OF assms(2)] by auto
next
  case (decoded c0 ins)
  have ok: "jit_ok c0" "Blocks c0 = (Blocks c)(a := None)"
    using decoded(4) assms(2) jit_ok_erase [OF assms(2)] by auto
  then have "c0\<lparr>Blocks := (Blocks c)(a := Some (TIBasicBlock_new a ins))\<rparr> =
      c0\<lparr>Blocks := (Blocks c0)(a := Some (TIBasicBlock_new a ins))\<rparr>" by simp
  then show ?thesis using decoded(1) assms(3) jit_ok_insert [OF ok(1), of a ins] ok(2) by auto
qed

text \<open>Compiling a valid block publishes an entry that is owned.\<close>

lemma foldl_slots [simp]:
  "Blocks (foldl jitEntrySlot c as) = Blocks c"
  "NativeCode (foldl jitEntrySlot c as) = NativeCode c"
  by (induction "as" arbitrary: c) simp_all

lemma foldl_slots_value:
  "JitEntries (foldl jitEntrySlot c as) k =
     (if JitEntries c k = None \<and> k \<in> set as then Some None else JitEntries c k)"
  by (induction "as" arbitrary: c) (auto simp: jitEntrySlot_value split: option.split)

lemma compileBlock_cases:
  assumes "lib_ok L"
  obtains (fails) "compileBlock L c b lvl = (noCompiledBlock, foldl jitEntrySlot c (jit_targets b))"
  | (maps) p n code where "NativeCode c p = None" "Nodes code = block_nodes b"
      "compileBlock L c b lvl = (\<lparr>EntryPoint = Some p, CodeSize = n\<rparr>,
         (foldl jitEntrySlot c (jit_targets b))\<lparr>NativeCode := (NativeCode c)(p := Some code)\<rparr>)"
proof -
  define code where "code = \<lparr>Nodes = block_nodes b, Folding = lvl > 0, Level = lvl\<rparr>"
  show ?thesis
  proof (cases "lib_map L (NativeCode c) code")
    case None
    then show ?thesis using fails by (simp add: compileBlock_def compileBlock_nodes_eq Let_def code_def)
  next
    case (Some pn)
    obtain p n where pn: "pn = (p, n)" by fastforce
    show ?thesis
    proof (rule maps)
      show "NativeCode c p = None" using Some assms by (auto simp: lib_ok_def pn)
      show "Nodes code = block_nodes b" by (simp add: code_def)
      show "compileBlock L c b lvl = (\<lparr>EntryPoint = Some p, CodeSize = n\<rparr>,
         (foldl jitEntrySlot c (jit_targets b))\<lparr>NativeCode := (NativeCode c)(p := Some code)\<rparr>)"
        using Some by (simp add: compileBlock_def compileBlock_nodes_eq Let_def code_def pn)
    qed
  qed
qed

lemma jit_ok_publish:
  fixes n :: nat
  assumes "jit_ok c" "Blocks c a = Some b" "Valid b" "EntryPoint (CompiledBlock b) = None"
    "NativeCode c p = None" "Nodes code = block_nodes b" "slots_of c b"
  defines "b' \<equiv> b\<lparr>CompiledBlock := \<lparr>EntryPoint = Some p, CodeSize = n\<rparr>\<rparr>"
  shows "jit_ok (setJitEntry (c\<lparr>NativeCode := (NativeCode c)(p := Some code),
    Blocks := (Blocks c)(a := Some b')\<rparr>) a (Some p))"
    (is "jit_ok ?c")
proof (rule jit_okI)
  have fresh: "\<not> entry_at c k p x" for k x
    using jit_okD(1) [OF assms(1), of k p x] assms(5) by auto
  have e: "entry_at ?c k q x \<longleftrightarrow> (if k = a then x = b' \<and> q = p else entry_at c k q x)" for k q x
    by (auto simp: entry_at_def b'_def)
  have old: "\<not> entry_at c a q x" for q x
    using assms(2,4) by (auto simp: entry_at_def)
  have slots: "slots_of ?c x" if "slots_of c x" for x
    using that by (rule slots_of_mono) (simp add: setJitEntry_value)
  show "finite (dom (NativeCode ?c))" using jit_okD(6) [OF assms(1)] by simp
  fix k q x
  show "(\<exists>code. NativeCode ?c q = Some code \<and> Nodes code = block_nodes x) \<and> slots_of ?c x"
    if "entry_at ?c k q x"
  proof (cases "k = a")
    case True
    then have "x = b'" "q = p" using that by (simp_all add: e)
    then show ?thesis using assms(6,7) slots [of b'] by (simp add: b'_def)
  next
    case False
    then have old: "entry_at c k q x" using that by (simp add: e)
    then have "q \<noteq> p" using fresh by blast
    then show ?thesis using jit_okD(1,2) [OF assms(1) old] slots by simp
  qed
  show "k' = k" if "entry_at ?c k q x" "entry_at ?c k' q y" for k' y
    using that jit_okD(3) [OF assms(1), of k q x k' y] fresh by (auto simp: e split: if_splits)
  show "\<exists>k x. entry_at ?c k q x" if "NativeCode ?c q = Some d" for d
  proof (cases "q = p")
    case True
    then show ?thesis by (auto simp: e)
  next
    case False
    then have "NativeCode c q = Some d" using that by simp
    then obtain k0 x0 where "entry_at c k0 q x0" using jit_okD(4) [OF assms(1)] by blast
    then show ?thesis using old by (intro exI [of _ k0] exI [of _ x0]) (auto simp: e)
  qed
  show "\<exists>x. entry_at ?c k q x \<and> Valid x" if "JitEntries ?c k = Some (Some q)"
  proof (cases "k = a")
    case True
    then have "q = p" using that by (simp add: setJitEntry_value)
    then have "entry_at ?c k q b'" using True by (simp add: e)
    moreover have "Valid b'" using assms(3) by (simp add: b'_def)
    ultimately show ?thesis by blast
  next
    case False
    then have "JitEntries c k = Some (Some q)" using that by (simp add: setJitEntry_value)
    then obtain x where "entry_at c k q x" "Valid x" using jit_okD(5) [OF assms(1)] by blast
    then show ?thesis using False e by auto
  qed
qed

lemma slots_of_foldl: "slots_of (foldl jitEntrySlot c (jit_targets b)) b"
  by (auto simp: slots_of_def foldl_slots_value)

text \<open>What \<open>ensureCompiled\<close> leaves: the block with its code, everything else as it was.\<close>

lemma ensureCompiled_cases:
  assumes "lib_ok L" "jit_ok (BlockCache C)" "Blocks (BlockCache C) a = Some b" "Valid b"
    "StartAddress b = a"
  obtains (compiled) C1 p cb where "ensureCompiled L C a b = Done C1"
      "entry_at (BlockCache C1) a p (b\<lparr>CompiledBlock := cb\<rparr>)" "jit_ok (BlockCache C1)"
      "Blocks (BlockCache C1) = (Blocks (BlockCache C))(a := Some (b\<lparr>CompiledBlock := cb\<rparr>))"
      "C1 = C\<lparr>BlockCache := BlockCache C1\<rparr>"
  | (failed) C1 where "ensureCompiled L C a b = Throw RuntimeError C1" "\<not> hasCompiledBlock b"
      "jit_ok (BlockCache C1)" "Blocks (BlockCache C1) = Blocks (BlockCache C)"
      "C1 = C\<lparr>BlockCache := BlockCache C1\<rparr>"
      "fst (compileBlock L (BlockCache C) b (JitOptimizationLevel C)) = noCompiledBlock"
proof (cases "hasCompiledBlock b")
  case True
  then obtain p where "EntryPoint (CompiledBlock b) = Some p" by (auto simp: hasCompiledBlock_def)
  then show ?thesis
    using True assms(2,3) by (intro compiled [of C p "CompiledBlock b"])
      (auto simp: ensureCompiled_def entry_at_def)
next
  case none: False
  then have n: "EntryPoint (CompiledBlock b) = None" by (simp add: hasCompiledBlock_def)
  define c where "c = foldl jitEntrySlot (BlockCache C) (jit_targets b)"
  have ok: "jit_ok c" "Blocks c = Blocks (BlockCache C)" "slots_of c b" "NativeCode c = NativeCode (BlockCache C)"
    using assms(2) by (simp_all add: c_def jit_ok_slots slots_of_foldl)
  from assms(1) show ?thesis
  proof (cases rule: compileBlock_cases [where c = "BlockCache C" and b = b and lvl = "JitOptimizationLevel C"])
    case fails
    then show ?thesis using none ok
      by (intro failed [of "C\<lparr>BlockCache := c\<rparr>"])
        (simp_all add: ensureCompiled_def noCompiledBlock_def c_def [symmetric])
  next
    case (maps p n code)
    have "resetCompiled x (CompiledBlock b) = x" for x using n by (simp add: resetCompiled_def)
    then have "ensureCompiled L C a b = Done (C\<lparr>BlockCache := setJitEntry
        (c\<lparr>NativeCode := (NativeCode c)(p := Some code), Blocks := (Blocks c)
           (a := Some (b\<lparr>CompiledBlock := \<lparr>EntryPoint = Some p, CodeSize = n\<rparr>\<rparr>))\<rparr>) a (Some p)\<rparr>)"
      using none maps(3) assms(5) ok(4)
      by (simp add: ensureCompiled_def Let_def setCompiledBlock_eq c_def [symmetric])
    moreover have "jit_ok (setJitEntry
        (c\<lparr>NativeCode := (NativeCode c)(p := Some code), Blocks := (Blocks c)
           (a := Some (b\<lparr>CompiledBlock := \<lparr>EntryPoint = Some p, CodeSize = n\<rparr>\<rparr>))\<rparr>) a (Some p))"
      using ok n assms(3,4) maps(1,2) by (intro jit_ok_publish) simp_all
    ultimately show ?thesis
      by (elim compiled [where p = p and cb = "\<lparr>EntryPoint = Some p, CodeSize = n\<rparr>"])
        (simp_all add: entry_at_def ok(2))
  qed
qed

section \<open>A library\<close>

text \<open>Code goes to the first free address and runs as its nodes say, so \<open>lib_ok\<close> can hold.\<close>

definition reference_lib :: "'w ir_lib" where
  "reference_lib = \<lparr>lib_map = (\<lambda>mapped code. if finite (dom mapped)
       then Some (LEAST p. mapped p = None, length (Nodes code)) else None),
     lib_run = ir_meaning\<rparr>"

lemma reference_lib_ok: "lib_ok reference_lib"
proof -
  have "mapped (LEAST p. mapped p = None) = None"
    if "finite (dom mapped)" for mapped :: "code_addr \<Rightarrow> ir_code option"
  proof -
    have "\<exists>p. p \<notin> dom mapped" using that infinite_UNIV_nat finite_subset by (metis UNIV_I subsetI)
    then have "\<exists>p. mapped p = None" by auto
    then show ?thesis by (rule LeastI_ex)
  qed
  then show ?thesis by (simp add: lib_ok_def reference_lib_def)
qed

section \<open>Properties\<close>

text \<open>What a JIT entry slot holds is never stale: it is the entry of the compiled code of the
  valid block cached for the slot's address, that code is mapped, and it was generated from the
  instructions of that block.\<close>

lemma slots_lead_to_live_code:
  assumes "jit_ok c" "JitEntries c a = Some (Some p)"
  shows "\<exists>b code. Blocks c a = Some b \<and> Valid b \<and> EntryPoint (CompiledBlock b) = Some p
    \<and> NativeCode c p = Some code \<and> Nodes code = fst (compileBlock_nodes c b)"
proof -
  obtain b where "entry_at c a p b" "Valid b" using jit_okD(5) [OF assms] by blast
  then show ?thesis using jit_okD(1) [OF assms(1)] by (auto simp: entry_at_def compileBlock_nodes_eq)
qed

text \<open>A cache with the compiled code of one block, the entry published.\<close>

definition compiled_cache :: TIBasicBlockCache where
  "compiled_cache =
     (let b = TIBasicBlock_new 0 [decode 0]
      in \<lparr>Blocks = [0 \<mapsto> b\<lparr>CompiledBlock := \<lparr>EntryPoint = Some 7, CodeSize = 1\<rparr>\<rparr>],
          JitEntries = [0 \<mapsto> Some 7],
          NativeCode = [7 \<mapsto> \<lparr>Nodes = block_nodes b, Folding = False, Level = 0\<rparr>]\<rparr>)"

lemma compiled_cache_ok: "jit_ok compiled_cache"
proof -
  have "jit_targets (TIBasicBlock_new 0 [decode 0]) = []"
    unfolding jit_targets_def by (simp add: TIBasicBlock_new_def Let_def decode_0)
  then have s: "slots_of c (TIBasicBlock_new 0 [decode 0])" for c by (simp add: slots_of_def)
  have "Valid (TIBasicBlock_new 0 [decode 0])" by (simp add: TIBasicBlock_new_def)
  with s show ?thesis
    by (intro jit_okI) (auto simp: compiled_cache_def Let_def entry_at_def split: if_splits)
qed

text \<open>C10. No operation on the block cache breaks the slots: not an invalidation, which clears the
  slots of the blocks it marks, not a lookup, which may destroy an invalid block and unmap its
  code, not a compilation, which may reuse an unmapped address, and not clearing the cache.\<close>

theorem cache_operations_keep_slots_live:
  assumes "jit_ok c" "cache_ok (length (Bytes m)) c" "lib_ok L"
  shows "jit_ok (invalidateRange c a n) \<and> jit_ok (jitEntrySlot c a) \<and> jit_ok (clear c)
    \<and> (\<forall>r. getBlock c a m = Some r \<longrightarrow> holds_in jit_ok r)
    \<and> (\<forall>b C. Blocks c a = Some b \<longrightarrow> Valid b \<longrightarrow> BlockCache C = c \<longrightarrow>
         ensureCompiled L C a b \<noteq> Stuck \<and> holds_in (\<lambda>D. jit_ok (BlockCache D)) (ensureCompiled L C a b))"
proof (intro conjI allI impI)
  fix r assume "getBlock c a m = Some r"
  then show "holds_in jit_ok r" by (rule jit_ok_getBlock [OF assms(2,1)])
next
  fix b and C :: "'a ExecutionContext"
  assume b: "Blocks c a = Some b" "Valid b" "BlockCache C = c"
  then have s: "StartAddress b = a" using assms(2) by (auto simp: cache_ok_def block_ok_def)
  have C: "jit_ok (BlockCache C)" "Blocks (BlockCache C) a = Some b" using assms(1) b by simp_all
  from assms(3) C b(2) s show "ensureCompiled L C a b \<noteq> Stuck" "holds_in (\<lambda>D. jit_ok (BlockCache D)) (ensureCompiled L C a b)"
    by (cases rule: ensureCompiled_cases; simp)+
qed (simp_all add: assms(1) jit_ok_invalidateRange jit_ok_jitEntrySlot jit_ok_clear)

lemma cache_operations_keep_slots_live_witness:
  "jit_ok (invalidateRange compiled_cache 0 4) \<and> JitEntries (invalidateRange compiled_cache 0 4) 0 = Some None"
proof -
  have "cache_ok (length (Bytes (TIMemory_new 8))) compiled_cache"
    by (auto simp: cache_ok_def compiled_cache_def Let_def block_ok_def TIBasicBlock_new_def aligned_def
      decode_wf TIMemory_new_def split: if_splits)
  from cache_operations_keep_slots_live [OF compiled_cache_ok this reference_lib_ok, of 0 4]
  have "jit_ok (invalidateRange compiled_cache 0 4)" by blast
  moreover have "JitEntries (invalidateRange compiled_cache 0 4) 0 = Some None"
    by (simp add: invalidateRange_def compiled_cache_def Let_def invalidates_def endAddress_def TIBasicBlock_new_def)
  ultimately show ?thesis ..
qed

text \<open>No compiled code is leaked or owned twice: every mapped function belongs to exactly one
  cached block.\<close>

lemma mapped_code_has_one_owner:
  assumes "jit_ok c" "NativeCode c p = Some code"
  shows "\<exists>!a. \<exists>b. Blocks c a = Some b \<and> EntryPoint (CompiledBlock b) = Some p"
proof -
  obtain a b where o: "entry_at c a p b" using jit_okD(4) [OF assms] by blast
  then have "a' = a" if "entry_at c a' p b'" for a' b' using jit_okD(3) [OF assms(1) o that] by simp
  with o show ?thesis by (auto simp: entry_at_def)
qed

end
