(* ===== verification/ContextRun.thy ===== *)
theory ContextRun
  imports JitExecutor
begin

text \<open>
  \<open>executeBlock\<close>, \<open>step\<close> and \<open>run\<close> of \<open>execution_context.cpp\<close>, what they keep, and the
  agreement of the switch and the threaded mode. \<open>None\<close> is a call that does not return.
\<close>

section \<open>The main loop\<close>

text \<open>The \<open>catch\<close> clause of \<open>executeBlock\<close>: only a \<open>SimulationException\<close> faults the context.\<close>

fun catchSimulationException :: "'w ExecutionContext outcome \<Rightarrow> 'w ExecutionContext outcome" where
  "catchSimulationException (Throw (SimulationException e) C) =
     Throw (SimulationException e) (C\<lparr>State := fault (State C)\<rparr>)"
| "catchSimulationException r = r"

definition executeBlock ::
  "'w ir_lib \<Rightarrow> 'w Host \<Rightarrow> 'w ExecutionContext \<Rightarrow> u32 \<Rightarrow> 'w ExecutionContext outcome option" where
  "executeBlock L H C key =
     map_option catchSimulationException
       (case Blocks (BlockCache C) key of
          None \<Rightarrow> Some Stuck
        | Some b \<Rightarrow>
            (case Mode C of
               SWITCH \<Rightarrow> Some (executeSwitchBlock H C b)
             | JIT \<Rightarrow> executeJitBlock L H C key (JitThreshold C)
             | THREADED \<Rightarrow> Some (executeThreadedBlock H C b)))"

definition step ::
  "'w ir_lib \<Rightarrow> 'w Host \<Rightarrow> 'w ExecutionContext \<Rightarrow> 'w ExecutionContext outcome option" where
  "step L H C =
     (case getBlock (BlockCache C) (PC (Cpu C)) (Memory C) of
        None \<Rightarrow> None
      | Some Stuck \<Rightarrow> Some Stuck
      | Some (Throw e c) \<Rightarrow> Some (Throw e (C\<lparr>BlockCache := c\<rparr>))
      | Some (Done c) \<Rightarrow> executeBlock L H (C\<lparr>BlockCache := c\<rparr>) (PC (Cpu C)))"

partial_function (option) run ::
  "'w ir_lib \<Rightarrow> 'w Host \<Rightarrow> 'w ExecutionContext \<Rightarrow> 'w ExecutionContext outcome option" where
  "run L H C =
     (if Status (State C) = RUNNING
      then case step L H C of
             None \<Rightarrow> None
           | Some Stuck \<Rightarrow> Some Stuck
           | Some (Throw e C1) \<Rightarrow> Some (Throw e C1)
           | Some (Done C1) \<Rightarrow> run L H C1
      else Some (Done C))"

text \<open>The same loop with a bound on the number of steps; a run returns when some bound is enough.\<close>

primrec run_fuel ::
  "nat \<Rightarrow> 'w ir_lib \<Rightarrow> 'w Host \<Rightarrow> 'w ExecutionContext \<Rightarrow> 'w ExecutionContext outcome option" where
  "run_fuel 0 L H C = None"
| "run_fuel (Suc n) L H C =
     (if Status (State C) = RUNNING
      then case step L H C of
             None \<Rightarrow> None
           | Some Stuck \<Rightarrow> Some Stuck
           | Some (Throw e C1) \<Rightarrow> Some (Throw e C1)
           | Some (Done C1) \<Rightarrow> run_fuel n L H C1
      else Some (Done C))"

lemma run_fuel_run: "run_fuel n L H C = Some r \<Longrightarrow> run L H C = Some r"
proof (induction n arbitrary: C)
  case (Suc n)
  then show ?case
    by (subst run.simps) (auto split: if_splits option.splits outcome.splits)
qed simp

lemma run_run_fuel: "run L H C = Some r \<Longrightarrow> \<exists>n. run_fuel n L H C = Some r"
proof (induction rule: run.raw_induct [rotated, consumes 1, case_names body])
  case (body rec L H C r)
  show ?case
  proof (cases "Status (State C) = RUNNING \<and> (\<exists>C1. step L H C = Some (Done C1))")
    case True
    then obtain C1 where s: "Status (State C) = RUNNING" "step L H C = Some (Done C1)" by blast
    then have "rec L H C1 = Some r" using body(2) by simp
    then obtain n where "run_fuel n L H C1 = Some r" using body(1) by blast
    then show ?thesis using s by (intro exI [of _ "Suc n"]) simp
  next
    case False
    then have "run_fuel (Suc 0) L H C = Some r"
      using body(2) by (auto split: if_splits option.splits outcome.splits)
    then show ?thesis by blast
  qed
qed

lemma run_iff_fuel: "run L H C = Some r \<longleftrightarrow> (\<exists>n. run_fuel n L H C = Some r)"
  using run_fuel_run run_run_fuel by blast

text \<open>A property every step keeps, with the outcomes a step may have, holds of a whole run.\<close>

lemma run_holds:
  assumes "\<And>C r. P C \<Longrightarrow> Status (State C) = RUNNING \<Longrightarrow> step L H C = Some r \<Longrightarrow> r \<noteq> Stuck \<and> holds_in P r"
    and "P C" "run L H C = Some r"
  shows "r \<noteq> Stuck \<and> holds_in P r"
proof -
  obtain n where "run_fuel n L H C = Some r" using run_run_fuel [OF assms(3)] by blast
  then show ?thesis using assms(2)
  proof (induction n arbitrary: C)
    case (Suc n)
    then show ?case using assms(1) [of C]
      by (auto split: if_splits option.splits outcome.splits)
  qed simp
qed

section \<open>What a step keeps\<close>

definition run_ok :: "'w ExecutionContext \<Rightarrow> bool" where
  "run_ok C \<longleftrightarrow> ctx_ok C \<and> jit_ok (BlockCache C)"

lemma switch_run_ok:
  assumes "run_ok C"
  shows "holds_in run_ok (executeInstructionSwitch H C i)"
proof (cases "OpCode i = OP_FLUSH")
  case True
  then show ?thesis using switch_ctx_ok [of C H i] assms
    by (simp add: run_ok_def executeInstructionSwitch_def executeFlush_def Let_def jit_ok_dropRanges)
next
  case False
  then show ?thesis
    using switch_ctx_ok [of C H i] switch_cache_frame [OF False, of C H] assms
    by (cases "executeInstructionSwitch H C i") (auto simp: run_ok_def)
qed

lemma executeSwitchBlock_run_ok:
  assumes "run_ok C" "block_shape (Instructions b)"
  shows "holds_in run_ok (executeSwitchBlock H C b)" "executeSwitchBlock H C b \<noteq> Stuck"
    "holds_in (instr_frame C) (executeSwitchBlock H C b)"
  unfolding executeSwitchBlock_def
  using switch.exec_holds [of run_ok H "Instructions b" C] switch_run_ok assms
    switch.exec_not_stuck switch.exec_instr_frame
  by blast+

lemma catch_holds:
  assumes "holds_in P r" "\<And>C. P C \<Longrightarrow> P (C\<lparr>State := fault (State C)\<rparr>)"
  shows "holds_in P (catchSimulationException r)"
  using assms by (cases r rule: catchSimulationException.cases) auto

lemma catch_Stuck [simp]: "catchSimulationException r = Stuck \<longleftrightarrow> r = Stuck"
  by (cases r rule: catchSimulationException.cases) auto

lemma caught_block_keeps:
  assumes "run_ok C" "block_shape (Instructions b)"
  shows "holds_in (\<lambda>D. run_ok D \<and> instr_frame C D) (catchSimulationException (executeSwitchBlock H C b))"
proof (rule catch_holds)
  show "holds_in (\<lambda>D. run_ok D \<and> instr_frame C D) (executeSwitchBlock H C b)"
    using executeSwitchBlock_run_ok [OF assms, of H] by (intro holds_in_conj)
qed (auto simp: run_ok_def ctx_ok_def instr_frame_def)

lemma getBlock_run_ok:
  assumes "run_ok C"
  obtains (block) c b where "getBlock (BlockCache C) (PC (Cpu C)) (Memory C) = Some (Done c)"
      "run_ok (C\<lparr>BlockCache := c\<rparr>)" "Blocks c (PC (Cpu C)) = Some b" "Valid b"
      "block_shape (Instructions b)" "StartAddress b = PC (Cpu C)"
  | (error) e c where "getBlock (BlockCache C) (PC (Cpu C)) (Memory C)
        = Some (Throw (SimulationException e) c)" "run_ok (C\<lparr>BlockCache := c\<rparr>)"
      "read32 (Memory C) (PC (Cpu C)) = Inl e"
proof -
  have ok: "cache_ok (length (Bytes (Memory C))) (BlockCache C)" "jit_ok (BlockCache C)"
    using assms by (simp_all add: run_ok_def ctx_ok_def)
  have keep: "run_ok (C\<lparr>BlockCache := c\<rparr>)"
    if "getBlock (BlockCache C) (PC (Cpu C)) (Memory C) = Some r" "r = Done c \<or> r = Throw e c" for r c e
    using that cache_ok_getBlock [OF ok(1), of "PC (Cpu C)"] jit_ok_getBlock [OF ok that(1)] assms
    by (auto simp: run_ok_def ctx_ok_def)
  from ok(1) show ?thesis
  proof (cases rule: getBlock_cases [where a = "PC (Cpu C)"])
    case (hit b)
    then show ?thesis using block [of "BlockCache C" b] keep [OF hit(3)] ok
      by (auto simp: cache_ok_def block_ok_def)
  next
    case (error e c')
    then show ?thesis using that(2) keep [OF error(1)] by blast
  next
    case (decoded c0 ins)
    then show ?thesis
      using block [OF decoded(1)] keep [OF decoded(1)]
      by (auto simp: block_ok_def TIBasicBlock_new_def)
  qed
qed

section \<open>How an instruction may change the status\<close>

lemma switch_status:
  "case executeInstructionSwitch H C i of
     Done D \<Rightarrow> State D = State C \<or> Status (State D) = HALTED
   | Throw e D \<Rightarrow> State D = State C
   | Stuck \<Rightarrow> False"
proof (cases "OpCode i = OP_SYSCALL")
  case True
  have "case execute_syscall H s of Done (c, m, st, w) \<Rightarrow> st = fst (snd (snd s)) \<or> Status st = HALTED
      | Throw e (c, m, st, w) \<Rightarrow> st = fst (snd (snd s)) | Stuck \<Rightarrow> False" for s
    by (cases s) (auto simp: Handlers_def Let_def halt_def split: option.splits sum.splits prod.splits if_splits)
  from this [of "(Cpu C, Memory C, State C, World C)"] show ?thesis
    using True
    by (cases "execute_syscall H (Cpu C, Memory C, State C, World C)")
      (auto simp: executeInstructionSwitch_def executeSyscall_def Let_def put_sys_def)
next
  case False
  then show ?thesis using switch_opcode_cases [of H C i]
    by (elim disjE conjE) (auto simp: execute_defs Let_def split: sum.splits)
qed

text \<open>Only the last instruction of a block is a system call, so a block runs on in one state.\<close>

lemma switch_block_status:
  assumes "block_shape ins"
  shows "case executeSwitch_loop H C ins of
     Done D \<Rightarrow> State D = State C \<or> Status (State D) = HALTED
   | Throw e D \<Rightarrow> State D = State C
   | Stuck \<Rightarrow> False"
  using assms
proof (induction ins arbitrary: C rule: block_shape.induct)
  case (2 i)
  then show ?case using switch_status [of C H i] by (simp split: outcome.splits)
next
  case (3 i j "is")
  have frame: "holds_in (\<lambda>D. State D = State C \<and> World D = World C) (executeInstructionSwitch H C i)"
    using switch_state [of i C H] 3(2) by simp
  show ?case
  proof (cases "executeInstructionSwitch H C i")
    case (Done D)
    then show ?thesis using 3(1) [of D] 3(2) frame by (auto split: outcome.splits)
  qed (use 3(2) frame switch_status [of C H i] in \<open>auto split: outcome.splits\<close>)
qed simp

section \<open>Properties\<close>

lemma new_run_ok: "n < 2 ^ 32 \<Longrightarrow> run_ok (ExecutionContext_new n md t lvl w)"
proof -
  have "jit_ok emptyCache" by (rule jit_ok_empty)
  then show "n < 2 ^ 32 \<Longrightarrow> ?thesis"
    by (simp add: run_ok_def ctx_ok_def ExecutionContext_new_def cache_ok_empty TIMemory_new_def
        wf_cpu_def TICpuState_new_def)
qed

lemma valid_block_fetches:
  assumes "cache_ok (length (Bytes m)) c" "Blocks c a = Some b"
  shows "\<exists>w. read32 m a = Inr w"
proof -
  have b: "block_ok (length (Bytes m)) a b" "length (Bytes m) < 2 ^ 32"
    using assms by (simp_all add: cache_ok_def)
  then have "Instructions b \<noteq> []" by (auto simp: block_ok_def)
  then have "4 \<le> 4 * length (Instructions b)" by (cases "Instructions b") simp_all
  then have "unat a + 4 \<le> length (Bytes m)" using b(1) unfolding block_ok_def by linarith
  then show ?thesis using b read32_ok_iff [of m a] by (simp add: in_bounds_def block_ok_def)
qed

text \<open>C25. When the program counter is misaligned or outside the memory, the run ends with the
  exception of the fetch in every mode, but the status stays RUNNING: unlike the exceptions of
  instructions, this one does not fault the context. Processor and memory are as they were.\<close>

theorem fetch_errors_leave_the_status_running:
  assumes "run_ok C" "Status (State C) = RUNNING" "read32 (Memory C) (PC (Cpu C)) = Inl e"
  shows "\<exists>D. run L H C = Some (Throw (SimulationException e) D) \<and> Status (State D) = RUNNING
    \<and> Cpu D = Cpu C \<and> Memory D = Memory C"
  using assms(1)
proof (cases rule: getBlock_run_ok)
  case (block c b)
  have "cache_ok (length (Bytes (Memory C))) c" using block(2) by (simp add: run_ok_def ctx_ok_def)
  then show ?thesis using valid_block_fetches [of "Memory C" c] block(3) assms(3) by force
next
  case (error e' c)
  then have "step L H C = Some (Throw (SimulationException e) (C\<lparr>BlockCache := c\<rparr>))"
    using assms(3) by (simp add: step_def)
  then show ?thesis using assms(2) by (auto simp: run.simps)
qed

lemma fetch_errors_leave_the_status_running_witness:
  "\<exists>D. run reference_lib silent_host (new_context 0) = Some (Throw (SimulationException MEMORY_OUT_OF_BOUNDS) D)
     \<and> Status (State D) = RUNNING"
proof -
  have "run_ok (new_context 0)" unfolding new_context_def by (rule new_run_ok) simp
  moreover have "Status (State (new_context 0)) = RUNNING"
    by (simp add: new_context_def ExecutionContext_new_def TIExecutionState_new_def)
  moreover have "read32 (Memory (new_context 0)) (PC (Cpu (new_context 0))) = Inl MEMORY_OUT_OF_BOUNDS"
    by (simp add: read32_eq in_bounds_def new_context_def ExecutionContext_new_def TIMemory_new_def)
  ultimately show ?thesis
    using fetch_errors_leave_the_status_running [of "new_context 0" MEMORY_OUT_OF_BOUNDS reference_lib silent_host]
    by blast
qed

end
