(* ===== verification/SwitchView.thy ===== *)
theory SwitchView
  imports ContextRun
begin

text \<open>
  The view \<open>plain\<close> of a context forgets what only the JIT keeps (counters, compiled code and
  slots) and sets the switch mode. Every operation of the cache and of the engines commutes
  with it, so a run in threaded mode is the run of the view.
\<close>

section \<open>Exceptions of the engines\<close>

lemma execute_syscall_throws:
  "execute_syscall H s = Throw x t \<Longrightarrow> \<exists>e. x = SimulationException e"
  by (cases s) (auto simp: Handlers_def Let_def split: option.splits sum.splits prod.splits if_splits)

lemma switch_throws:
  "executeInstructionSwitch H C i = Throw x T \<Longrightarrow> \<exists>e. x = SimulationException e"
proof -
  assume t: "executeInstructionSwitch H C i = Throw x T"
  show ?thesis
  proof (cases "OpCode i = OP_SYSCALL")
    case True
    with t show ?thesis
      using execute_syscall_throws [of H "(Cpu C, Memory C, State C, World C)"]
      by (cases "execute_syscall H (Cpu C, Memory C, State C, World C)")
        (auto simp: executeInstructionSwitch_def executeSyscall_def Let_def split: if_splits)
  next
    case False
    with t show ?thesis using switch_opcode_cases [of H C i]
      by (elim disjE conjE) (auto simp: execute_defs Let_def split: sum.splits if_splits)
  qed
qed

lemma switch_block_throws:
  "executeSwitch_loop H C ins = Throw x T \<Longrightarrow> \<exists>e. x = SimulationException e"
proof (induction ins arbitrary: C)
  case (Cons i ins)
  then show ?case using switch_throws [of H C i]
    by (cases "executeInstructionSwitch H C i") auto
qed simp

section \<open>The view of the switch engine\<close>

definition plain_block :: "TIBasicBlock \<Rightarrow> TIBasicBlock" where
  "plain_block b = b\<lparr>ExecutionCount := 0, CompiledBlock := noCompiledBlock\<rparr>"

definition plain_cache :: "TIBasicBlockCache \<Rightarrow> TIBasicBlockCache" where
  "plain_cache c = \<lparr>Blocks = map_option plain_block \<circ> Blocks c, JitEntries = (\<lambda>_. None),
     NativeCode = (\<lambda>_. None)\<rparr>"

definition plain :: "'w ExecutionContext \<Rightarrow> 'w ExecutionContext" where
  "plain C = C\<lparr>BlockCache := plain_cache (BlockCache C), Mode := SWITCH\<rparr>"

primrec map_outcome :: "('s \<Rightarrow> 't) \<Rightarrow> 's outcome \<Rightarrow> 't outcome" where
  "map_outcome f (Done s) = Done (f s)"
| "map_outcome f (Throw e s) = Throw e (f s)"
| "map_outcome f Stuck = Stuck"

lemma map_outcome_andThen:
  "(\<And>s. map_outcome f (k s) = k' (f s)) \<Longrightarrow> map_outcome f (andThen r k) = andThen (map_outcome f r) k'"
  by (cases r) simp_all

lemma plain_frame [simp, ti_frame]:
  "Cpu (plain C) = Cpu C" "Memory (plain C) = Memory C" "State (plain C) = State C"
  "World (plain C) = World C" "Mode (plain C) = SWITCH" "JitThreshold (plain C) = JitThreshold C"
  "JitOptimizationLevel (plain C) = JitOptimizationLevel C"
  "BlockCache (plain C) = plain_cache (BlockCache C)"
  by (simp_all add: plain_def)

lemma plain_block_frame [simp, ti_frame]:
  "StartAddress (plain_block b) = StartAddress b" "Instructions (plain_block b) = Instructions b"
  "Valid (plain_block b) = Valid b" "endAddress (plain_block b) = endAddress b"
  "CompiledBlock (plain_block b) = noCompiledBlock"
  "plain_block (recordExecution b) = plain_block b"
  "plain_block (b\<lparr>CompiledBlock := cb\<rparr>) = plain_block b"
  "plain_block (TIBasicBlock_new a ins) = TIBasicBlock_new a ins"
  "plain_block (invalidate b) = invalidate (plain_block b)"
  "invalidates (plain_block b) a n = invalidates b a n"
  by (simp_all add: plain_block_def endAddress_def recordExecution_def TIBasicBlock_new_def
      invalidate_def invalidates_def)

lemma plain_cache_Blocks [simp]:
  "Blocks (plain_cache c) a = map_option plain_block (Blocks c a)"
  by (simp add: plain_cache_def)

lemma plain_cache_eqI:
  "(\<And>a. map_option plain_block (Blocks c a) = map_option plain_block (Blocks d a)) \<Longrightarrow>
     plain_cache c = plain_cache d"
  by (simp add: plain_cache_def fun_eq_iff)

lemma plain_invalidateRange:
  "invalidateRange (plain_cache c) a n = plain_cache (invalidateRange c a n)"
  by (rule TIBasicBlockCache.equality)
    (auto simp: invalidateRange_def plain_cache_def fun_eq_iff split: option.split)

lemma plain_dropRanges:
  "dropRanges invalidateRange (plain_cache c) rs = plain_cache (dropRanges invalidateRange c rs)"
  by (induction rs arbitrary: c) (simp_all add: plain_invalidateRange)

lemma plain_resetCompiled [simp]:
  "plain_cache (resetCompiled c cb) = plain_cache c" "resetCompiled c noCompiledBlock = c"
  by (simp add: plain_cache_def) (simp add: resetCompiled_def noCompiledBlock_def)

lemma plain_Blocks_update:
  "(plain_cache c)\<lparr>Blocks := (Blocks (plain_cache c))(a := x)\<rparr> =
     plain_cache (c\<lparr>Blocks := (Blocks c)(a := y)\<rparr>)" if "map_option plain_block y = x"
  using that by (auto simp: plain_cache_def fun_eq_iff)

lemma plain_decodeBlock:
  "decodeBlock (plain_cache c) a m = map_option (map_outcome plain_cache) (decodeBlock c a m)"
  by (auto simp: decodeBlock_def plain_Blocks_update [of "Some (TIBasicBlock_new a y)" _ c a for y]
      split: option.split sum.split)

lemma plain_getBlock:
  "getBlock (plain_cache c) a m = map_option (map_outcome plain_cache) (getBlock c a m)"
proof (cases "Blocks c a")
  case None
  then show ?thesis by (simp add: getBlock_def plain_decodeBlock)
next
  case (Some b)
  have "(plain_cache c)\<lparr>Blocks := (Blocks (plain_cache c))(a := None)\<rparr> =
      plain_cache (resetCompiled (c\<lparr>Blocks := (Blocks c)(a := None)\<rparr>) (CompiledBlock b))"
    by (simp add: plain_Blocks_update)
  then show ?thesis using Some
    by (simp add: getBlock_def plain_decodeBlock [symmetric])
qed

section \<open>The switch engine on the view\<close>

lemma plain_updates [simp]:
  "(plain C)\<lparr>Cpu := c\<rparr> = plain (C\<lparr>Cpu := c\<rparr>)"
  "(plain C)\<lparr>Memory := m\<rparr> = plain (C\<lparr>Memory := m\<rparr>)"
  "(plain C)\<lparr>State := s\<rparr> = plain (C\<lparr>State := s\<rparr>)"
  "(plain C)\<lparr>World := w\<rparr> = plain (C\<lparr>World := w\<rparr>)"
  "(plain C)\<lparr>BlockCache := plain_cache b\<rparr> = plain (C\<lparr>BlockCache := b\<rparr>)"
  by (simp_all add: plain_def)

lemma plain_faulted: "plain (faulted C) = faulted (plain C)"
  "plain (with_pc q C) = with_pc q (plain C)"
  by (simp_all add: faulted_def with_pc_def)

lemma plain_flush: "flushInstructionCache (plain C) = plain (flushInstructionCache C)"
  by (simp add: flushInstructionCache_def takeDirtyCodeRanges_def plain_dropRanges)

lemma plain_syscall: "executeSyscall H (plain C) i = map_outcome plain (executeSyscall H C i)"
proof -
  have p: "put_sys (plain C) s = plain (put_sys C s)" for s
    by (simp add: put_sys_def split: prod.split)
  show ?thesis
    by (cases "execute_syscall H (Cpu C, Memory C, State C, World C)")
      (auto simp: executeSyscall_def p Let_def)
qed

lemma plain_switch:
  "executeInstructionSwitch H (plain C) i = map_outcome plain (executeInstructionSwitch H C i)"
  by (cases "OpCode i")
    (simp_all add: executeInstructionSwitch_def execute_defs Let_def plain_flush plain_syscall
      split: sum.split)

lemma plain_switch_block:
  "executeSwitchBlock H (plain C) b = map_outcome plain (executeSwitchBlock H C b)"
proof -
  have "executeSwitch_loop H (plain C) ins = map_outcome plain (executeSwitch_loop H C ins)" for ins
  proof (induction ins arbitrary: C)
    case (Cons i ins)
    then show ?case
      by (simp add: plain_switch map_outcome_andThen [where k' = "\<lambda>C1. executeSwitch_loop H C1 ins"])
  qed simp
  then show ?thesis by (simp add: executeSwitchBlock_def)
qed

lemma plain_switch_block_frame: "executeSwitchBlock H C (plain_block b) = executeSwitchBlock H C b"
  by (simp add: executeSwitchBlock_def)

lemma plain_catch:
  "catchSimulationException (map_outcome plain r) = map_outcome plain (catchSimulationException r)"
  by (cases r rule: catchSimulationException.cases) simp_all

section \<open>Switch and threaded steps\<close>

text \<open>A step of the view on a cached block.\<close>

lemma step_view:
  assumes "Blocks c (PC (Cpu C)) = Some b" "Valid b"
    and "getBlock (BlockCache C) (PC (Cpu C)) (Memory C) = Some (Done c)"
  shows "step L H (plain C) = Some (map_outcome plain
     (catchSimulationException (executeSwitchBlock H (C\<lparr>BlockCache := c\<rparr>) b)))"
  using assms
  by (simp add: step_def plain_getBlock executeBlock_def plain_switch_block_frame
      plain_switch_block plain_catch)

lemma step_view_hit:
  assumes "Blocks (BlockCache C) (PC (Cpu C)) = Some b" "Valid b"
  shows "step L H (plain C) = Some (map_outcome plain (catchSimulationException (executeSwitchBlock H C b)))"
  using step_view [OF assms, where L = L and H = H] assms by (simp add: getBlock_def)

lemma step_view_error:
  assumes "getBlock (BlockCache C) (PC (Cpu C)) (Memory C) = Some (Throw e c)"
  shows "step L H (plain C) = Some (Throw e (plain (C\<lparr>BlockCache := c\<rparr>)))"
  using assms by (simp add: step_def plain_getBlock)

lemma step_engine:
  assumes "run_ok C" "Mode C \<noteq> JIT"
  shows "step L H (plain C) = map_option (map_outcome plain) (step L H C)"
  using assms(1)
proof (cases rule: getBlock_run_ok)
  case (block c b)
  then have "step L H C = Some (catchSimulationException (executeSwitchBlock H (C\<lparr>BlockCache := c\<rparr>) b))"
    using assms(2) by (cases "Mode C") (simp_all add: step_def executeBlock_def threaded_eq_switch)
  then show ?thesis using step_view [OF block(3,4,1)] by simp
next
  case (error e c)
  then show ?thesis using step_view_error [OF error(1), of L H] by (simp add: step_def)
qed

lemma step_engine_keeps:
  assumes "run_ok C" "Mode C \<noteq> JIT" "step L H C = Some r"
  shows "r \<noteq> Stuck \<and> holds_in (\<lambda>D. run_ok D \<and> instr_frame C D) r"
  using assms(1)
proof (cases rule: getBlock_run_ok)
  case (block c b)
  have "r = catchSimulationException (executeSwitchBlock H (C\<lparr>BlockCache := c\<rparr>) b)"
    using assms(2,3) block
    by (cases "Mode C") (simp_all add: step_def executeBlock_def threaded_eq_switch)
  then have "holds_in (\<lambda>D. run_ok D \<and> instr_frame (C\<lparr>BlockCache := c\<rparr>) D) r" "r \<noteq> Stuck"
    using caught_block_keeps [OF block(2,5), of H] executeSwitchBlock_run_ok(2) [OF block(2,5), of H]
    by simp_all
  then show ?thesis by (auto simp: instr_frame_def elim!: holds_in_mono)
next
  case (error e c)
  then have "r = Throw (SimulationException e) (C\<lparr>BlockCache := c\<rparr>)"
    using assms(3) by (simp add: step_def)
  then show ?thesis using error(2) by (simp add: instr_frame_def)
qed

section \<open>Views of a run\<close>

text \<open>
  A map on contexts that commutes with every step and keeps the status commutes with the whole
  run, whether it returns, throws or never ends.
\<close>

locale engine_view =
  fixes L :: "'w ir_lib" and H :: "'w Host"
    and view :: "'w ExecutionContext \<Rightarrow> 'w ExecutionContext"
    and inv :: "'w ExecutionContext \<Rightarrow> bool"
  assumes view_status: "Status (State (view C)) = Status (State C)"
    and view_step: "inv C \<Longrightarrow> step L H (view C) = map_option (map_outcome view) (step L H C)"
    and view_inv: "inv C \<Longrightarrow> step L H C = Some (Done D) \<Longrightarrow> inv D"
begin

lemma view_fuel: "inv C \<Longrightarrow> run_fuel n L H (view C) = map_option (map_outcome view) (run_fuel n L H C)"
proof (induction n arbitrary: C)
  case (Suc n)
  show ?case
  proof (cases "step L H C")
    case None
    then show ?thesis using view_step [OF Suc.prems] by (simp add: view_status)
  next
    case (Some r)
    then show ?thesis
      using view_step [OF Suc.prems] view_inv [OF Suc.prems] Suc.IH
      by (cases r) (auto simp: view_status)
  qed
qed simp

lemma view_run: "inv C \<Longrightarrow> run L H (view C) = map_option (map_outcome view) (run L H C)"
proof (cases "run L H C")
  case None
  assume "inv C"
  then have "run L H (view C) \<noteq> Some r" for r
    using None run_fuel_run [of _ L H C] view_fuel [of C]
    by (metis map_option_eq_Some option.distinct(1) run_iff_fuel)
  then show ?thesis using None by (cases "run L H (view C)") auto
next
  case (Some r)
  assume "inv C"
  obtain n where "run_fuel n L H C = Some r" using run_run_fuel [OF Some] by blast
  then have "run_fuel n L H (view C) = Some (map_outcome view r)"
    using view_fuel [OF \<open>inv C\<close>, of n] by simp
  then show ?thesis using Some run_fuel_run by fastforce
qed

end

interpretation plain_view: engine_view L H plain "\<lambda>C. run_ok C \<and> Mode C \<noteq> JIT"
  for L :: "'w ir_lib" and H :: "'w Host"
proof
  fix C D :: "'w ExecutionContext"
  assume "run_ok C \<and> Mode C \<noteq> JIT" "step L H C = Some (Done D)"
  then show "run_ok D \<and> Mode D \<noteq> JIT"
    using step_engine_keeps [of C L H "Done D"] by (auto simp: instr_frame_def)
qed (simp_all add: step_engine)

lemmas run_engine = plain_view.view_run [OF conjI]

section \<open>The switch mode\<close>

text \<open>The same context in switch mode and with other JIT options: the interpreters never look at them.\<close>

definition switched ::
  "(u64 \<Rightarrow> u64) \<Rightarrow> (u8 \<Rightarrow> u8) \<Rightarrow> 'w ExecutionContext \<Rightarrow> 'w ExecutionContext" where
  "switched f g C = C\<lparr>Mode := SWITCH, JitThreshold := f (JitThreshold C),
     JitOptimizationLevel := g (JitOptimizationLevel C)\<rparr>"

lemma switched_frame [simp]:
  "Cpu (switched f g C) = Cpu C" "Memory (switched f g C) = Memory C" "State (switched f g C) = State C"
  "World (switched f g C) = World C" "Mode (switched f g C) = SWITCH" "BlockCache (switched f g C) = BlockCache C"
  by (simp_all add: switched_def)

lemma switched_updates [simp]:
  "(switched f g C)\<lparr>Cpu := c\<rparr> = switched f g (C\<lparr>Cpu := c\<rparr>)"
  "(switched f g C)\<lparr>Memory := m\<rparr> = switched f g (C\<lparr>Memory := m\<rparr>)"
  "(switched f g C)\<lparr>State := s\<rparr> = switched f g (C\<lparr>State := s\<rparr>)"
  "(switched f g C)\<lparr>World := w\<rparr> = switched f g (C\<lparr>World := w\<rparr>)"
  "(switched f g C)\<lparr>BlockCache := b\<rparr> = switched f g (C\<lparr>BlockCache := b\<rparr>)"
  by (simp_all add: switched_def)

lemma switched_flush: "flushInstructionCache (switched f g C) = switched f g (flushInstructionCache C)"
  by (simp add: flushInstructionCache_def takeDirtyCodeRanges_def)

lemma switched_syscall: "executeSyscall H (switched f g C) i = map_outcome (switched f g) (executeSyscall H C i)"
proof -
  have p: "put_sys (switched f g C) s = switched f g (put_sys C s)" for s
    by (simp add: put_sys_def split: prod.split)
  show ?thesis
    by (cases "execute_syscall H (Cpu C, Memory C, State C, World C)")
      (auto simp: executeSyscall_def p Let_def)
qed

lemma switched_switch:
  "executeInstructionSwitch H (switched f g C) i = map_outcome (switched f g) (executeInstructionSwitch H C i)"
  by (cases "OpCode i")
    (simp_all add: executeInstructionSwitch_def execute_defs Let_def switched_flush switched_syscall
      split: sum.split)

lemma switched_block:
  "executeSwitchBlock H (switched f g C) b = map_outcome (switched f g) (executeSwitchBlock H C b)"
proof -
  have "executeSwitch_loop H (switched f g C) ins = map_outcome (switched f g) (executeSwitch_loop H C ins)" for ins
  proof (induction ins arbitrary: C)
    case (Cons i ins)
    then show ?case
      by (simp add: switched_switch map_outcome_andThen [where k' = "\<lambda>C1. executeSwitch_loop H C1 ins"])
  qed simp
  then show ?thesis by (simp add: executeSwitchBlock_def)
qed

lemma switched_catch:
  "catchSimulationException (map_outcome (switched f g) r) = map_outcome (switched f g) (catchSimulationException r)"
  by (cases r rule: catchSimulationException.cases) simp_all

lemma switched_step:
  assumes "run_ok C" "Mode C \<noteq> JIT"
  shows "step L H (switched f g C) = map_option (map_outcome (switched f g)) (step L H C)"
  using assms(1)
proof (cases rule: getBlock_run_ok)
  case (block c b)
  then have c: "step L H C = Some (catchSimulationException (executeSwitchBlock H (C\<lparr>BlockCache := c\<rparr>) b))"
    using assms(2) by (cases "Mode C") (simp_all add: step_def executeBlock_def threaded_eq_switch)
  have "step L H (switched f g C) = Some (map_outcome (switched f g)
      (catchSimulationException (executeSwitchBlock H (C\<lparr>BlockCache := c\<rparr>) b)))"
    using block by (simp add: step_def executeBlock_def switched_block switched_catch)
  then show ?thesis by (simp add: c)
next
  case (error e c)
  then show ?thesis by (simp add: step_def)
qed

interpretation switched_view: engine_view L H "switched f g" "\<lambda>C. run_ok C \<and> Mode C \<noteq> JIT"
  for f g and L :: "'w ir_lib" and H :: "'w Host"
proof
  fix C D :: "'w ExecutionContext"
  assume "run_ok C \<and> Mode C \<noteq> JIT" "step L H C = Some (Done D)"
  then show "run_ok D \<and> Mode D \<noteq> JIT" by (rule plain_view.view_inv)
qed (simp_all add: switched_step)

section \<open>Properties\<close>

text \<open>C9. The threaded engine is equivalent to the switch engine: from the same context, a run in
  threaded mode and a run in switch mode end the same way (return, exception or no end) with the
  same processor, memory, status, block cache and outside world.\<close>

theorem threaded_run_equals_switch_run:
  assumes "run_ok C" "Mode C = THREADED"
  shows "run L H (C\<lparr>Mode := SWITCH\<rparr>) = map_option (map_outcome (\<lambda>D. D\<lparr>Mode := SWITCH\<rparr>)) (run L H C)"
proof -
  have eq: "switched (\<lambda>t. t) (\<lambda>l. l) = Mode_update (\<lambda>_. SWITCH)" by (rule ext) (simp add: switched_def)
  show ?thesis using switched_view.view_run [of C L H "\<lambda>t. t" "\<lambda>l. l"] assms unfolding eq by simp
qed

lemma threaded_run_equals_switch_run_witness:
  "run reference_lib silent_host ((ExecutionContext_new 8 THREADED 0 0 ())\<lparr>Mode := SWITCH\<rparr>) =
     map_option (map_outcome (\<lambda>D. D\<lparr>Mode := SWITCH\<rparr>))
       (run reference_lib silent_host (ExecutionContext_new 8 THREADED 0 0 ()))"
proof (rule threaded_run_equals_switch_run)
  show "run_ok (ExecutionContext_new 8 THREADED 0 0 ())" by (rule new_run_ok) simp
  show "Mode (ExecutionContext_new 8 THREADED 0 0 ()) = THREADED"
    by (simp add: ExecutionContext_new_def)
qed

section \<open>How runs end\<close>

lemma step_status:
  assumes "run_ok C" "Mode C \<noteq> JIT" "Status (State C) = RUNNING" "step L H C = Some r"
  shows "case r of
     Done D \<Rightarrow> Status (State D) = RUNNING \<or> Status (State D) = HALTED
   | Throw x D \<Rightarrow> (\<exists>e. x = SimulationException e \<and> (Status (State D) = FAULTED
        \<or> Status (State D) = RUNNING \<and> read32 (Memory D) (PC (Cpu D)) = Inl e))
   | Stuck \<Rightarrow> False"
  using assms(1)
proof (cases rule: getBlock_run_ok)
  case (block c b)
  then have r: "r = catchSimulationException (executeSwitchBlock H (C\<lparr>BlockCache := c\<rparr>) b)"
    using assms(2,4) by (cases "Mode C") (simp_all add: step_def executeBlock_def threaded_eq_switch)
  show ?thesis
  proof (cases "executeSwitchBlock H (C\<lparr>BlockCache := c\<rparr>) b")
    case (Done D)
    then show ?thesis
      using r assms(3) switch_block_status [OF block(5), of "C\<lparr>BlockCache := c\<rparr>" H]
      by (auto simp: executeSwitchBlock_def)
  next
    case (Throw x D)
    then obtain e where "x = SimulationException e"
      using switch_block_throws unfolding executeSwitchBlock_def by blast
    then show ?thesis using r Throw by (simp add: fault_def)
  next
    case Stuck
    then show ?thesis using executeSwitchBlock_run_ok(2) [OF block(2,5)] by blast
  qed
next
  case (error e c)
  then have "r = Throw (SimulationException e) (C\<lparr>BlockCache := c\<rparr>)"
    using assms(4) by (simp add: step_def)
  then show ?thesis using assms(3) error(3) by simp
qed

text \<open>A program of one instruction, the exit system call with code 42.\<close>

definition exit_context :: "TIExecutionMode \<Rightarrow> unit ExecutionContext" where
  "exit_context md = (ExecutionContext_new 8 md 0 0 ())\<lparr>
     Cpu := \<lparr>Registers = (replicate 32 0)[0 := 42, 8 := 60], PC = 0\<rparr>,
     Memory := \<lparr>Bytes = [0x1E, 0, 0, 0, 0, 0, 0, 0], ExecutableRegions = [], DirtyCodeRanges = []\<rparr>\<rparr>"

lemma exit_context_ok: "run_ok (exit_context md)"
proof -
  have "length (Bytes (Memory (exit_context md))) = 8" by (simp add: exit_context_def)
  then show ?thesis
    by (simp add: run_ok_def ctx_ok_def wf_cpu_def cache_ok_empty jit_ok_empty exit_context_def
        ExecutionContext_new_def)
qed

lemma exit_context_Mode [simp]: "Mode (exit_context md) = md"
  by (simp add: exit_context_def ExecutionContext_new_def)

lemma decode_exit:
  "decode 0x1E = \<lparr>OpCode = OP_SYSCALL, Operands = [Imm 0], ThreadedHandler = Some threadedSyscall\<rparr>"
  by (simp add: decode_def DecodeVector_def info_def decodeSyscall_def instr_def extractBits_def makeMask_def)

lemma read32_exit: "read32 (Memory (exit_context md)) 0 = Inr 0x1E"
  by (simp add: read32_eq in_bounds_def exit_context_def aligned_def decodeLittleEndianWord_eq
      word_of_bytes_def)

definition exit_cache :: TIBasicBlockCache where
  "exit_cache = emptyCache\<lparr>Blocks := [0 \<mapsto> TIBasicBlock_new 0 [decode 0x1E]]\<rparr>"

lemma exit_context_start:
  "PC (Cpu (exit_context md)) = 0" "BlockCache (exit_context md) = emptyCache"
  "Status (State (exit_context md)) = RUNNING"
  by (simp_all add: exit_context_def ExecutionContext_new_def TIExecutionState_new_def)

lemma getBlock_exit: "getBlock emptyCache 0 (Memory (exit_context md)) = Some (Done exit_cache)"
  by (simp add: getBlock_def decodeBlock_def exit_cache_def emptyCache_def
      decodeBlock_loop.simps decode_exit read32_exit)

lemma step_exit:
  "step L H (exit_context SWITCH) = Some (Done ((exit_context SWITCH)\<lparr>BlockCache := exit_cache,
     State := \<lparr>Status = HALTED, ExitCode = 42\<rparr>\<rparr>))"
proof -
  have "Registers (Cpu (exit_context SWITCH)) ! 8 = 60" "Registers (Cpu (exit_context SWITCH)) ! 0 = 42"
    by (simp_all add: exit_context_def)
  then have "execute_syscall H (Cpu (exit_context SWITCH), Memory (exit_context SWITCH), State (exit_context SWITCH), w)
      = Done (Cpu (exit_context SWITCH), Memory (exit_context SWITCH), \<lparr>Status = HALTED, ExitCode = 42\<rparr>, w)" for w
    by (simp add: Handlers_def READ_NUMBER_SYSCALL_def halt_def)
  then show ?thesis
    by (simp add: step_def getBlock_exit exit_context_start executeBlock_def exit_cache_def
        executeSwitchBlock_def TIBasicBlock_new_def decode_exit executeInstructionSwitch_def
        executeSyscall_def put_sys_def del: execute_syscall.simps)
qed

lemma run_exit: "\<exists>D. run L H (exit_context SWITCH) = Some (Done D) \<and> State D = \<lparr>Status = HALTED, ExitCode = 42\<rparr>"
  by (simp add: run.simps [of L H "exit_context SWITCH"] step_exit exit_context_start) (simp add: run.simps)

lemma run_end:
  assumes "run_ok C" "Mode C \<noteq> JIT" "Status (State C) = RUNNING" "run L H C = Some r"
  shows "case r of
     Done D \<Rightarrow> Status (State D) = HALTED
   | Throw x D \<Rightarrow> (\<exists>e. x = SimulationException e \<and> (Status (State D) = FAULTED
        \<or> Status (State D) = RUNNING \<and> read32 (Memory D) (PC (Cpu D)) = Inl e))
   | Stuck \<Rightarrow> False"
proof -
  obtain n where "run_fuel n L H C = Some r" using run_run_fuel [OF assms(4)] by blast
  then show ?thesis using assms(1-3)
  proof (induction n arbitrary: C)
    case (Suc n)
    then obtain q where q: "step L H C = Some q" by (auto split: option.splits)
    note s = step_status [OF Suc.prems(2-4) q]
    show ?case
    proof (cases q)
      case (Done D)
      then have "run_ok D" "Mode D \<noteq> JIT"
        using plain_view.view_inv [of C L H D] Suc.prems q by auto
      moreover have "run_fuel n L H D = Some r" using Suc.prems q Done by simp
      moreover have "Status (State D) = HALTED \<Longrightarrow> r = Done D"
        using \<open>run_fuel n L H D = Some r\<close> by (cases n) auto
      ultimately show ?thesis using Suc.IH s Done by fastforce
    qed (use Suc.prems q s in auto)
  qed simp
qed

text \<open>C15. How a run ends in the switch and in the threaded mode, from a running context: it returns
  only when the guest has exited, and the only exceptions are SimulationExceptions, which either
  leave the context FAULTED or come from fetching the instruction at the final program counter
  (and then leave it RUNNING). No run reads outside a table or past the end of a block.\<close>

theorem how_runs_end:
  assumes "run_ok C" "Mode C \<noteq> JIT" "Status (State C) = RUNNING" "run L H C = Some r"
  shows "case r of
     Done D \<Rightarrow> Status (State D) = HALTED
   | Throw x D \<Rightarrow> (\<exists>e. x = SimulationException e \<and> (Status (State D) = FAULTED
        \<or> Status (State D) = RUNNING \<and> read32 (Memory D) (PC (Cpu D)) = Inl e))
   | Stuck \<Rightarrow> False"
  using run_end [OF assms] .

lemma how_runs_end_witness:
  "\<exists>D. run reference_lib silent_host (exit_context SWITCH) = Some (Done D) \<and> Status (State D) = HALTED"
proof -
  obtain D where "run reference_lib silent_host (exit_context SWITCH) = Some (Done D)"
    using run_exit by blast
  then show ?thesis
    using how_runs_end [of "exit_context SWITCH" reference_lib silent_host "Done D"]
      exit_context_ok exit_context_start by simp
qed

text \<open>C26. A program counter that is a multiple of the instruction size stays one through every
  instruction, in the context it leaves and in the one it throws from, and at the end of every run in
  the switch and threaded modes, however the run ends: jumps and branches count in instructions.\<close>

theorem run_keeps_pc_aligned:
  assumes "PC (Cpu C) AND 3 = 0"
  shows "holds_in (\<lambda>D. PC (Cpu D) AND 3 = 0) (executeInstructionSwitch H C i)
    \<and> (\<forall>L r. run_ok C \<longrightarrow> Mode C \<noteq> JIT \<longrightarrow> run L H C = Some r \<longrightarrow> holds_in (\<lambda>D. PC (Cpu D) AND 3 = 0) r)"
proof (intro conjI allI impI)
  show "holds_in (\<lambda>D. PC (Cpu D) AND 3 = 0) (executeInstructionSwitch H C i)"
    using switch_pc_aligned [of C H i] assms by (simp add: pc_aligned_def [abs_def])
next
  fix L :: "'a ir_lib" and r
  assume run: "run_ok C" "Mode C \<noteq> JIT" "run L H C = Some r"
  let ?P = "\<lambda>C. run_ok C \<and> Mode C \<noteq> JIT \<and> pc_aligned C"
  have "r \<noteq> Stuck \<and> holds_in ?P r"
  proof (rule run_holds [OF _ _ run(3)])
    fix C r
    assume P: "?P C" and s: "step L H C = Some r"
    have keep: "r \<noteq> Stuck \<and> holds_in (\<lambda>D. run_ok D \<and> Mode D \<noteq> JIT) r"
      using step_engine_keeps [of C L H r] P s by (auto simp: instr_frame_def elim!: holds_in_mono)
    have "holds_in pc_aligned r"
      using conjunct1 [OF P]
    proof (cases rule: getBlock_run_ok)
      case (block c b)
      then have "r = catchSimulationException (executeSwitchBlock H (C\<lparr>BlockCache := c\<rparr>) b)"
        using P s by (cases "Mode C") (simp_all add: step_def executeBlock_def threaded_eq_switch)
      moreover have "holds_in pc_aligned (executeSwitchBlock H (C\<lparr>BlockCache := c\<rparr>) b)"
        unfolding executeSwitchBlock_def
        by (rule switch.exec_holds [OF switch_pc_aligned block(5)]) (use P in \<open>simp_all add: pc_aligned_def\<close>)
      ultimately show ?thesis by (auto intro!: catch_holds simp: pc_aligned_def)
    next
      case (error e c)
      then have "r = Throw (SimulationException e) (C\<lparr>BlockCache := c\<rparr>)"
        using s by (simp add: step_def)
      then show ?thesis using P by (simp add: pc_aligned_def)
    qed
    then show "r \<noteq> Stuck \<and> holds_in ?P r" using keep by (cases r) auto
  qed (use assms run in \<open>simp add: pc_aligned_def\<close>)
  then show "holds_in (\<lambda>D. PC (Cpu D) AND 3 = 0) r" by (auto simp: pc_aligned_def elim!: holds_in_mono)
qed

lemma run_keeps_pc_aligned_witness:
  "\<exists>D. run reference_lib silent_host (exit_context SWITCH) = Some (Done D) \<and> PC (Cpu D) AND 3 = 0"
proof -
  obtain D where "run reference_lib silent_host (exit_context SWITCH) = Some (Done D)"
    using run_exit by blast
  then show ?thesis
    using run_keeps_pc_aligned [of "exit_context SWITCH" silent_host]
      exit_context_ok exit_context_start by fastforce
qed

end
