(* ===== verification/JitRefinement.thy ===== *)
theory JitRefinement
  imports SwitchView
begin

text \<open>
  The JIT refines the switch engine. Compiled blocks call each other without going back to
  \<open>step\<close>; every call is one block of the switch engine. Runs are compared on the view \<open>plain\<close>.
\<close>

section \<open>One call of compiled code\<close>

lemma exits_meaning:
  "exits H (Nodes code) S C e \<Longrightarrow> ir_meaning H code S = Some (C, e)"
  by (simp add: exits_def ir_meaning_def)

lemma run_ok_with_pc [simp]: "run_ok (with_pc q C) = run_ok C" "run_ok (faulted C) = run_ok C"
  by (simp_all add: run_ok_def ctx_ok_def wf_cpu_def)

lemma instr_frame_with_pc [simp]:
  "instr_frame C (with_pc q D) = instr_frame C D" "instr_frame C (faulted D) = instr_frame C D"
  by (simp_all add: instr_frame_def)

definition calls_as ::
  "'w Host \<Rightarrow> 'w ExecutionContext \<Rightarrow> TIBasicBlock \<Rightarrow> 'w ExecutionContext \<Rightarrow> code_addr option \<Rightarrow> bool" where
  "calls_as H C b C1 e \<longleftrightarrow>
     executeSwitchBlock H C b = Done C1 \<or>
     e = None \<and> (\<exists>x T q. executeSwitchBlock H C b = Throw (SimulationException x) T
        \<and> C1 = with_pc q (faulted T))"

lemma callEntry_block:
  assumes "lib_ok L" "run_ok C" "Status (State C) = RUNNING" "entry_at (BlockCache C) (PC (Cpu C)) p b"
  obtains C1 e where "callEntry L H C p = Some (C1, e)" "calls_as H C b C1 e" "run_ok C1"
    "instr_frame C C1" "entry_of (BlockCache C1) (PC (Cpu C1)) e" "Status (State C1) \<noteq> RUNNING \<Longrightarrow> e = None"
proof -
  have jit: "jit_ok (BlockCache C)" and ctx: "ctx_ok C" using assms(2) by (simp_all add: run_ok_def)
  obtain code where code: "NativeCode (BlockCache C) p = Some code" "Nodes code = block_nodes b"
    using jit_okD(1) [OF jit assms(4)] by blast
  have b: "block_shape (Instructions b)" "StartAddress b = PC (Cpu C)" "wf_cpu (Cpu C)"
    using ctx assms(4) by (auto simp: ctx_ok_def cache_ok_def block_ok_def entry_at_def)
  have r: "returns_as H (Nodes code) C (executeSwitchBlock H C b)"
    unfolding code(2) by (rule block_nodes_correct [OF b assms(3) jit_okD(2) [OF jit assms(4)]])
  have call: "callEntry L H C p = Some (D, e)" if "exits H (Nodes code) C D e" for D e
    using exits_meaning [OF that] assms(1) code by (simp add: callEntry_def lib_ok_def)
  note keeps = executeSwitchBlock_run_ok [OF assms(2) b(1), of H]
  show ?thesis
  proof (cases "executeSwitchBlock H C b")
    case (Done T)
    then obtain e where "exits H (Nodes code) C T e" "entry_of (BlockCache T) (PC (Cpu T)) e"
        "Status (State T) \<noteq> RUNNING \<longrightarrow> e = None"
      using r by (auto simp: returns_as_def)
    then show ?thesis using that [of T e] call keeps Done by (simp add: calls_as_def)
  next
    case (Throw x T)
    then obtain q where "exits H (Nodes code) C (with_pc q (faulted T)) None"
      using r by (auto simp: returns_as_def)
    moreover have "calls_as H C b (with_pc q (faulted T)) None"
      using switch_block_throws [of H C "Instructions b" x T] Throw
      unfolding calls_as_def executeSwitchBlock_def by blast
    ultimately show ?thesis using that [of "with_pc q (faulted T)" None] call keeps Throw
      by (simp add: entry_of_def del: with_pc_advance)
  qed (use keeps in simp)
qed

section \<open>A chain of calls\<close>

definition ready :: "'w ExecutionContext \<Rightarrow> code_addr option \<Rightarrow> bool" where
  "ready C e \<longleftrightarrow> run_ok C \<and> entry_of (BlockCache C) (PC (Cpu C)) e
     \<and> (Status (State C) \<noteq> RUNNING \<longrightarrow> e = None)"

lemma ready_call:
  assumes "lib_ok L" "ready C (Some p)"
  obtains b C1 e where "callEntry L H C p = Some (C1, e)" "calls_as H C b C1 e" "ready C1 e"
    "instr_frame C C1" "Blocks (BlockCache C) (PC (Cpu C)) = Some b" "Valid b"
    "Status (State C) = RUNNING"
proof -
  have c: "run_ok C" "Status (State C) = RUNNING" using assms(2) by (auto simp: ready_def)
  have "JitEntries (BlockCache C) (PC (Cpu C)) = Some (Some p)"
    using assms(2) by (simp add: ready_def entry_of_def)
  then obtain b where b: "entry_at (BlockCache C) (PC (Cpu C)) p b" "Valid b"
    using jit_okD(5) [of "BlockCache C" "PC (Cpu C)" p] c(1) by (auto simp: run_ok_def)
  obtain C1 e where "callEntry L H C p = Some (C1, e)" "calls_as H C b C1 e" "run_ok C1"
    "instr_frame C C1" "entry_of (BlockCache C1) (PC (Cpu C1)) e" "Status (State C1) \<noteq> RUNNING \<Longrightarrow> e = None"
    using callEntry_block [OF assms(1) c b(1)] by metis
  then show ?thesis using that b c(2) by (auto simp: ready_def entry_at_def)
qed

text \<open>A chain never calls unmapped code, and keeps the context well-formed.\<close>

lemma chain_safe:
  "chainEntries L H C e = Some r \<Longrightarrow> lib_ok L \<Longrightarrow> ready C e \<Longrightarrow>
     \<exists>D. r = Done D \<and> run_ok D \<and> instr_frame C D"
proof (induction rule: chainEntries.raw_induct [rotated, consumes 1, case_names body])
  case (body rec L H C e r)
  show ?case
  proof (cases e)
    case None
    then show ?thesis using body(2,4) by (auto simp: ready_def)
  next
    case (Some p)
    then obtain C1 e1 where c: "callEntry L H C p = Some (C1, e1)" "ready C1 e1" "instr_frame C C1"
      using ready_call [OF body(3), of C p H] body(4) by metis
    then have "rec L H C1 e1 = Some r" using body(2) Some by simp
    from body(1) [OF this body(3) c(2)] show ?thesis using c(3) instr_frame_trans by blast
  qed
qed

section \<open>Steps of the switch engine behind the JIT\<close>

inductive path ::
  "'w ir_lib \<Rightarrow> 'w Host \<Rightarrow> nat \<Rightarrow> 'w ExecutionContext \<Rightarrow> 'w ExecutionContext \<Rightarrow> bool"
  for L H where
  path_refl: "path L H 0 S S"
| path_step: "Status (State S) = RUNNING \<Longrightarrow> step L H S = Some (Done T) \<Longrightarrow> path L H n T U
    \<Longrightarrow> path L H (Suc n) S U"

inductive_simps path_0 [simp]: "path L H 0 S U"
inductive_simps path_Suc: "path L H (Suc n) S U"

lemma path_snoc:
  "path L H n S T \<Longrightarrow> Status (State T) = RUNNING \<Longrightarrow> step L H T = Some (Done U) \<Longrightarrow>
     path L H (Suc n) S U"
  by (induction rule: path.induct) (auto intro: path.intros)

lemma path_fuel: "path L H k S U \<Longrightarrow> run_fuel (k + m) L H S = run_fuel m L H U"
  by (induction rule: path.induct) simp_all

lemma path_short: "path L H k S U \<Longrightarrow> n \<le> k \<Longrightarrow> run_fuel n L H S = None"
proof (induction arbitrary: n rule: path.induct)
  case (path_step S T k U)
  then show ?case by (cases n) auto
qed simp

text \<open>
  The JIT went from a context with view \<open>S\<close> to \<open>D\<close>: over \<open>n\<close> whole blocks, or over some
  blocks to one in which the switch engine throws, where the JIT only faults.
\<close>

definition follows ::
  "'w ir_lib \<Rightarrow> 'w Host \<Rightarrow> nat \<Rightarrow> 'w ExecutionContext \<Rightarrow> 'w ExecutionContext \<Rightarrow> bool" where
  "follows L H n S D \<longleftrightarrow>
     path L H n S (plain D) \<or>
     (\<exists>U x T q k. n = Suc k \<and> path L H k S U \<and> Status (State U) = RUNNING
        \<and> step L H U = Some (Throw (SimulationException x) T)
        \<and> plain D = with_pc q T \<and> Status (State D) = FAULTED)"

lemma follows_step:
  assumes "Status (State S) = RUNNING" "step L H S = Some (Done T)" "follows L H n T D"
  shows "follows L H (Suc n) S D"
  using assms path_step [OF assms(1,2)] unfolding follows_def by blast

lemma follows_refl: "follows L H 0 (plain D) D"
  by (simp add: follows_def)

text \<open>One call of compiled code on the view.\<close>

lemma call_view:
  assumes "calls_as H C b C1 e" "Blocks (BlockCache C) (PC (Cpu C)) = Some b" "Valid b"
  shows "step L H (plain C) = Some (Done (plain C1)) \<or>
    e = None \<and> Status (State C1) = FAULTED
    \<and> (\<exists>x T q. step L H (plain C) = Some (Throw (SimulationException x) T) \<and> plain C1 = with_pc q T)"
  using assms(1) unfolding calls_as_def
proof (elim disjE conjE exE)
  assume "executeSwitchBlock H C b = Done C1"
  then show ?thesis using step_view_hit [OF assms(2,3), of L H] by simp
next
  fix x T q
  assume e: "e = None" "executeSwitchBlock H C b = Throw (SimulationException x) T"
    and C1: "C1 = with_pc q (faulted T)"
  have "step L H (plain C) = Some (Throw (SimulationException x) (faulted (plain T)))"
    using step_view_hit [OF assms(2,3), of L H] e by (simp add: faulted_def)
  moreover have "plain C1 = with_pc q (faulted (plain T))"
    by (simp add: C1 plain_faulted)
  moreover have "Status (State C1) = FAULTED" by (simp add: C1)
  ultimately show ?thesis using e(1) by blast
qed

lemma chain_follows:
  "chainEntries L H C e = Some r \<Longrightarrow> lib_ok L \<Longrightarrow> ready C e \<Longrightarrow>
     \<exists>D n. r = Done D \<and> follows L H n (plain C) D \<and> (e \<noteq> None \<longrightarrow> 0 < n)
       \<and> (e = None \<longrightarrow> D = C)"
proof (induction rule: chainEntries.raw_induct [rotated, consumes 1, case_names body])
  case (body rec L H C e r)
  show ?case
  proof (cases e)
    case None
    then show ?thesis using body(2) follows_refl [of L H C] by auto
  next
    case (Some p)
    then obtain b C1 e1 where c: "callEntry L H C p = Some (C1, e1)" "calls_as H C b C1 e1"
        "ready C1 e1" "Blocks (BlockCache C) (PC (Cpu C)) = Some b" "Valid b" "Status (State C) = RUNNING"
      using ready_call [OF body(3), of C p H] body(4) by metis
    then have "rec L H C1 e1 = Some r" using body(2) Some by simp
    from body(1) [OF this body(3) c(3)] obtain D n where
      D: "r = Done D" "follows L H n (plain C1) D" "e1 = None \<longrightarrow> D = C1" by blast
    from call_view [OF c(2,4,5), of L] show ?thesis
    proof (elim disjE conjE exE)
      assume "step L H (plain C) = Some (Done (plain C1))"
      then have "follows L H (Suc n) (plain C) D" using D(2) c(6) by (intro follows_step) simp_all
      then show ?thesis using D(1) Some by blast
    next
      fix x T q
      assume f: "e1 = None" "Status (State C1) = FAULTED"
        "step L H (plain C) = Some (Throw (SimulationException x) T)" "plain C1 = with_pc q T"
      then have "follows L H (Suc 0) (plain C) D"
        using c(6) D(3) by (auto simp: follows_def)
      then show ?thesis using D(1) Some by blast
    qed
  qed
qed

text \<open>When the switch engine returns, the chain does.\<close>

lemma chain_returns:
  "run_fuel n L H (plain C) = Some r \<Longrightarrow> lib_ok L \<Longrightarrow> ready C e \<Longrightarrow>
     \<exists>D. chainEntries L H C e = Some (Done D)"
proof (induction n arbitrary: C e)
  case (Suc n)
  show ?case
  proof (cases e)
    case None
    then show ?thesis by (simp add: chainEntries.simps)
  next
    case (Some p)
    then obtain b C1 e1 where c: "callEntry L H C p = Some (C1, e1)" "calls_as H C b C1 e1"
        "ready C1 e1" "Blocks (BlockCache C) (PC (Cpu C)) = Some b" "Valid b" "Status (State C) = RUNNING"
      using ready_call [OF Suc.prems(2), of C p H] Suc.prems(3) by metis
    have ch: "chainEntries L H C e = chainEntries L H C1 e1"
      using Some c(1) by (simp add: chainEntries.simps [of L H C])
    from call_view [OF c(2,4,5), of L] show ?thesis
    proof (elim disjE conjE exE)
      assume "step L H (plain C) = Some (Done (plain C1))"
      then have "run_fuel n L H (plain C1) = Some r" using Suc.prems(1) c(6) by simp
      then show ?thesis using Suc.IH [OF _ Suc.prems(2) c(3)] ch by simp
    next
      assume "e1 = None"
      then show ?thesis using ch by (simp add: chainEntries.simps)
    qed
  qed
qed simp

section \<open>One step of the JIT\<close>

text \<open>Compilation does not fail while finitely much is mapped.\<close>

definition lib_total :: "'w ir_lib \<Rightarrow> bool" where
  "lib_total L \<longleftrightarrow> (\<forall>mapped code. finite (dom mapped) \<longrightarrow> lib_map L mapped code \<noteq> None)"

lemma lib_total_compiles:
  assumes "lib_total L" "finite (dom (NativeCode c))"
  shows "EntryPoint (fst (compileBlock L c b lvl)) \<noteq> None"
proof -
  obtain p n where "lib_map L (NativeCode c)
      \<lparr>Nodes = block_nodes b, Folding = 0 < lvl, Level = lvl\<rparr> = Some (p, n)"
    using assms unfolding lib_total_def by (metis option.exhaust surj_pair)
  then show ?thesis by (simp add: compileBlock_def compileBlock_nodes_eq Let_def)
qed

text \<open>A cache with the same blocks and its own compiled code leaves the rest of a context alone.\<close>

lemma recached_context:
  assumes "run_ok C" "C1 = C\<lparr>BlockCache := BlockCache C1\<rparr>" "jit_ok (BlockCache C1)"
    "cache_ok (length (Bytes (Memory C))) (BlockCache C1)"
    "\<And>a. map_option plain_block (Blocks (BlockCache C1) a) =
       map_option plain_block (Blocks (BlockCache C) a)"
  shows "run_ok C1" "plain C1 = plain C" "instr_frame C C1" "Cpu C1 = Cpu C" "State C1 = State C"
proof -
  define c where "c = BlockCache C1"
  have C1: "C1 = C\<lparr>BlockCache := c\<rparr>" using assms(2) by (simp add: c_def)
  show "run_ok C1"
    using assms(1,3,4) unfolding run_ok_def ctx_ok_def c_def [symmetric] by (simp add: C1)
  show "plain C1 = plain C"
    using plain_cache_eqI [OF assms(5)] unfolding c_def [symmetric] by (simp add: C1 plain_def)
  show "instr_frame C C1" "Cpu C1 = Cpu C" "State C1 = State C"
    by (simp_all add: C1 instr_frame_def)
qed

text \<open>
  The three ways a JIT step goes: it executes the block as the threaded engine does, it fails
  to compile, or it calls the code of the block and follows the chain.
\<close>

lemma jit_block_cases:
  assumes "lib_ok L" "run_ok C" "Status (State C) = RUNNING" "Mode C = JIT"
    "Blocks (BlockCache C) (PC (Cpu C)) = Some b" "Valid b"
  obtains (threaded) C1 where "executeBlock L H C (PC (Cpu C)) =
        Some (catchSimulationException (executeSwitchBlock H C1 b))"
      "run_ok C1" "plain C1 = plain C" "instr_frame C C1" "ExecutionCount b < JitThreshold C"
  | (failed) C1 where "executeBlock L H C (PC (Cpu C)) = Some (Throw RuntimeError C1)"
      "run_ok C1" "plain C1 = plain C" "\<not> lib_total L" "instr_frame C C1"
  | (called) C1 C2 e b1 where "executeBlock L H C (PC (Cpu C)) =
        map_option catchSimulationException (chainEntries L H C2 e)"
      "plain C1 = plain C" "instr_frame C C2" "calls_as H C1 b1 C2 e" "ready C2 e"
      "Blocks (BlockCache C1) (PC (Cpu C1)) = Some b1" "Valid b1" "Status (State C1) = RUNNING"
proof -
  have ok: "jit_ok (BlockCache C)" "wf_cpu (Cpu C)"
      "cache_ok (length (Bytes (Memory C))) (BlockCache C)"
    using assms(2) by (simp_all add: run_ok_def ctx_ok_def)
  then have b: "block_shape (Instructions b)" "StartAddress b = PC (Cpu C)"
    using assms(5) by (auto simp: cache_ok_def block_ok_def)
  let ?key = "PC (Cpu C)"
  have pl: "plain (C\<lparr>BlockCache := c\<rparr>) = plain C"
    if "\<And>a. map_option plain_block (Blocks c a) = map_option plain_block (Blocks (BlockCache C) a)" for c
    using plain_cache_eqI [of c "BlockCache C"] that by (simp add: plain_def)
  have co: "cache_ok (length (Bytes (Memory C))) c" if "Blocks c = (Blocks (BlockCache C))(?key := Some b')"
    "block_ok (length (Bytes (Memory C))) ?key b'" for c b'
    using ok(3) that by (auto simp: cache_ok_def)
  have bok: "block_ok (length (Bytes (Memory C))) ?key b" using ok(3) assms(5) by (simp add: cache_ok_def)
  show ?thesis
  proof (cases "\<not> hasCompiledBlock b \<and> ExecutionCount b < JitThreshold C")
    case True
    define c where "c = (BlockCache C)\<lparr>Blocks := (Blocks (BlockCache C))(?key := Some (recordExecution b))\<rparr>"
    have "executeBlock L H C ?key =
        Some (catchSimulationException (executeSwitchBlock H (C\<lparr>BlockCache := c\<rparr>) b))"
      using True assms(4,5) b(1)
      by (simp add: executeBlock_def executeJitBlock_def c_def threaded_eq_switch)
    moreover have "run_ok (C\<lparr>BlockCache := c\<rparr>)"
      using jit_ok_update [OF ok(1) assms(5), of "recordExecution b"] co [of c "recordExecution b"] bok ok(2)
      by (simp add: run_ok_def ctx_ok_def c_def)
    moreover have "plain (C\<lparr>BlockCache := c\<rparr>) = plain C"
      using assms(5) by (intro pl) (auto simp: c_def)
    ultimately show ?thesis using threaded True by (simp add: instr_frame_def)
  next
    case compile: False
    have x: "executeBlock L H C ?key = map_option catchSimulationException
        (case ensureCompiled L C ?key b of
           Throw e C1 \<Rightarrow> Some (Throw e C1) | Stuck \<Rightarrow> Some Stuck
         | Done C1 \<Rightarrow> (case Blocks (BlockCache C1) ?key of None \<Rightarrow> Some Stuck
            | Some b1 \<Rightarrow> (case EntryPoint (CompiledBlock b1) of None \<Rightarrow> Some Stuck
               | Some p \<Rightarrow> (case callEntry L H C1 p of None \<Rightarrow> Some Stuck
                  | Some (C2, nextEntry) \<Rightarrow> chainEntries L H C2 nextEntry))))"
      using compile assms(4,5) by (auto simp: executeBlock_def executeJitBlock_def)
    from assms(1) ok(1) assms(5,6) b(2) show ?thesis
    proof (cases rule: ensureCompiled_cases)
      case (compiled C1 p cb)
      define b1 where "b1 = b\<lparr>CompiledBlock := cb\<rparr>"
      have C1: "run_ok C1" "plain C1 = plain C" "instr_frame C C1" "Cpu C1 = Cpu C" "State C1 = State C"
        using recached_context [OF assms(2) compiled(5,3)] compiled(4) assms(5)
          co [of "BlockCache C1" b1] bok
        by (simp_all add: b1_def)
      obtain C2 e where c2: "callEntry L H C1 p = Some (C2, e)" "calls_as H C1 b1 C2 e" "run_ok C2"
          "instr_frame C1 C2" "entry_of (BlockCache C2) (PC (Cpu C2)) e"
          "Status (State C2) \<noteq> RUNNING \<Longrightarrow> e = None"
        using callEntry_block [OF assms(1) C1(1), of p b1 H] compiled(2) C1(4,5) assms(3)
        by (metis b1_def)
      have "executeBlock L H C ?key = map_option catchSimulationException (chainEntries L H C2 e)"
        unfolding x using compiled(1,2) c2(1) by (simp add: entry_at_def)
      then show ?thesis
        using called [of C2 e C1 b1] c2 C1 compiled(2) assms(3,6) instr_frame_trans [OF C1(3) c2(4)]
        by (simp add: ready_def entry_at_def b1_def)
    next
      case (failed C1)
      then have "\<not> lib_total L"
        using lib_total_compiles [of L "BlockCache C" b "JitOptimizationLevel C"]
          jit_okD(6) [OF ok(1)]
        by (auto simp: noCompiledBlock_def)
      moreover have "executeBlock L H C ?key = Some (Throw RuntimeError C1)"
        unfolding x using failed(1) by simp
      moreover have "run_ok C1" "plain C1 = plain C" "instr_frame C C1"
        using recached_context [OF assms(2) failed(5,3)] failed(4) ok(3)
        by (simp_all add: cache_ok_def)
      ultimately show ?thesis using that(2) by blast
    qed
  qed
qed

lemma step_executeBlock:
  assumes "getBlock (BlockCache C) (PC (Cpu C)) (Memory C) = Some (Done c)"
  shows "step L H C = executeBlock L H (C\<lparr>BlockCache := c\<rparr>) (PC (Cpu C))"
  using assms by (simp add: step_def)

lemma step_view_cached:
  assumes "getBlock (BlockCache C) (PC (Cpu C)) (Memory C) = Some (Done c)"
    "Blocks c (PC (Cpu C)) = Some b" "Valid b"
  shows "step L H (plain C) = step L H (plain (C\<lparr>BlockCache := c\<rparr>))"
  using step_view [OF assms(2,3,1), of L H] step_view_hit [of "C\<lparr>BlockCache := c\<rparr>" b L H] assms(2,3)
  by simp

lemma follows_cong:
  assumes "step L H S = step L H S'" "Status (State S) = Status (State S')"
    "follows L H (Suc n) S' D"
  shows "follows L H (Suc n) S D"
proof -
  have "path L H (Suc k) S U" if "path L H (Suc k) S' U" for k U
    using that assms(1,2) by (auto simp: path_Suc)
  moreover have "path L H 0 S' U \<Longrightarrow> step L H U = step L H S \<and> Status (State U) = Status (State S)" for U
    using assms by auto
  ultimately show ?thesis using assms(3)
    unfolding follows_def by (metis nat.inject not0_implies_Suc path_0)
qed

definition jit_steps_to ::
  "'w ir_lib \<Rightarrow> 'w Host \<Rightarrow> 'w ExecutionContext \<Rightarrow> 'w ExecutionContext outcome \<Rightarrow> bool" where
  "jit_steps_to L H C r \<longleftrightarrow>
     (case r of
        Done D \<Rightarrow> (\<exists>n. follows L H (Suc n) (plain C) D)
      | Throw (SimulationException x) D \<Rightarrow>
          step L H (plain C) = Some (Throw (SimulationException x) (plain D))
      | Throw RuntimeError D \<Rightarrow> \<not> lib_total L
      | Stuck \<Rightarrow> False)"

lemma jit_block_steps:
  assumes "lib_ok L" "run_ok C" "Status (State C) = RUNNING" "Mode C = JIT"
    "Blocks (BlockCache C) (PC (Cpu C)) = Some b" "Valid b"
    "executeBlock L H C (PC (Cpu C)) = Some r"
  shows "jit_steps_to L H C r \<and> holds_in (\<lambda>D. run_ok D \<and> instr_frame C D) r"
proof -
  have shape: "block_shape (Instructions b)"
    using assms(2,5) by (auto simp: run_ok_def ctx_ok_def cache_ok_def block_ok_def)
  from assms(1-6) show ?thesis
  proof (cases rule: jit_block_cases [where H = H])
    case (threaded C1)
    have r: "r = catchSimulationException (executeSwitchBlock H C1 b)" using threaded(1) assms(7) by simp
    have "executeSwitchBlock H (plain C) b = map_outcome plain (executeSwitchBlock H C1 b)"
      using plain_switch_block [of H C1 b] threaded(3) by simp
    then have v: "step L H (plain C) = Some (map_outcome plain r)"
      using step_view_hit [OF assms(5,6), of L H] plain_switch_block [of H C b]
        plain_catch [of "executeSwitchBlock H C b"] plain_catch [of "executeSwitchBlock H C1 b"]
      by (simp add: r)
    note keeps = executeSwitchBlock_run_ok [OF threaded(2) shape, of H]
    have "holds_in (\<lambda>D. run_ok D \<and> instr_frame C1 D) r"
      unfolding r by (rule caught_block_keeps [OF threaded(2) shape])
    then have k: "holds_in (\<lambda>D. run_ok D \<and> instr_frame C D) r"
      using instr_frame_trans [OF threaded(4)] by (auto elim!: holds_in_mono)
    have ns: "r \<noteq> Stuck" using keeps(2) by (simp add: r)
    have "\<exists>x. e = SimulationException x" if "r = Throw e D" for e D
      using that switch_block_throws [of H C1 "Instructions b"]
      by (cases "executeSwitchBlock H C1 b") (auto simp: r executeSwitchBlock_def)
    moreover have "follows L H (Suc 0) (plain C) D" if "r = Done D" for D
      using that v assms(3) follows_step [OF _ _ follows_refl, of "plain C"] by simp
    ultimately show ?thesis using k ns v
      by (cases r) (auto simp: jit_steps_to_def)
  next
    case (failed C1)
    then show ?thesis using assms(7) by (simp add: jit_steps_to_def)
  next
    case (called C1 C2 e b1)
    then have "map_option catchSimulationException (chainEntries L H C2 e) = Some r"
      using assms(7) by simp
    then obtain r1 where r1: "chainEntries L H C2 e = Some r1" "r = catchSimulationException r1"
      by (auto simp: map_option_eq_Some)
    from chain_follows [OF r1(1) assms(1) called(5)] obtain D n where
      D: "r1 = Done D" "follows L H n (plain C2) D" "e = None \<longrightarrow> D = C2" by blast
    have "run_ok D" "instr_frame C D"
      using chain_safe [OF r1(1) assms(1) called(5)] D(1) instr_frame_trans [OF called(3)] by auto
    moreover have "\<exists>n. follows L H (Suc n) (plain C) D"
      using call_view [OF called(4,6,7), of L] unfolding called(2)
    proof (elim disjE conjE exE)
      assume "step L H (plain C) = Some (Done (plain C2))"
      then show ?thesis using follows_step [OF _ _ D(2), of "plain C"] assms(3) by auto
    next
      fix x T q
      assume "e = None" "Status (State C2) = FAULTED" "plain C2 = with_pc q T"
        "step L H (plain C) = Some (Throw (SimulationException x) T)"
      then have "follows L H (Suc 0) (plain C) D"
        using assms(3) D(3) by (auto simp: follows_def)
      then show ?thesis by blast
    qed
    ultimately show ?thesis by (simp add: jit_steps_to_def r1(2) D(1))
  qed
qed

lemma jit_step:
  assumes "lib_ok L" "run_ok C" "Status (State C) = RUNNING" "Mode C = JIT" "step L H C = Some r"
  shows "jit_steps_to L H C r \<and> holds_in (\<lambda>D. run_ok D \<and> instr_frame C D) r"
  using assms(2)
proof (cases rule: getBlock_run_ok)
  case (block c b)
  define C0 where "C0 = C\<lparr>BlockCache := c\<rparr>"
  have C0: "run_ok C0" "Status (State C0) = RUNNING" "Mode C0 = JIT"
    "Blocks (BlockCache C0) (PC (Cpu C0)) = Some b" "executeBlock L H C0 (PC (Cpu C0)) = Some r"
    using block assms(3-5) step_executeBlock [OF block(1), of L H] by (simp_all add: C0_def)
  have v: "step L H (plain C) = step L H (plain C0)"
    using step_view_cached [OF block(1,3,4)] by (simp add: C0_def)
  have "jit_steps_to L H C0 r" and k: "holds_in (\<lambda>D. run_ok D \<and> instr_frame C0 D) r"
    using jit_block_steps [OF assms(1) C0(1-4) block(4) C0(5)] by simp_all
  then have "jit_steps_to L H C r"
    using follows_cong [OF v] C0(2) assms(3) v
    by (auto simp: jit_steps_to_def split: outcome.splits Exception.splits)
  moreover have "holds_in (\<lambda>D. run_ok D \<and> instr_frame C D) r"
    using k by (rule holds_in_mono) (simp add: instr_frame_def C0_def)
  ultimately show ?thesis by simp
next
  case (error e c)
  then have "r = Throw (SimulationException e) (C\<lparr>BlockCache := c\<rparr>)"
    using assms(5) by (simp add: step_def)
  then show ?thesis using error(2) step_view_error [OF error(1), of L H]
    by (simp add: jit_steps_to_def instr_frame_def)
qed

lemma jit_step_returns:
  assumes "lib_ok L" "run_ok C" "Mode C = JIT" "run_fuel n L H (plain C) = Some r"
    "Status (State C) = RUNNING"
  shows "\<exists>r'. step L H C = Some r'"
  using assms(2)
proof (cases rule: getBlock_run_ok)
  case (error e c)
  then show ?thesis by (simp add: step_def)
next
  case (block c b)
  define C0 where "C0 = C\<lparr>BlockCache := c\<rparr>"
  have C0: "run_ok C0" "Status (State C0) = RUNNING" "Mode C0 = JIT"
    "Blocks (BlockCache C0) (PC (Cpu C0)) = Some b"
    using block assms(3,5) by (simp_all add: C0_def)
  have e: "step L H C = executeBlock L H C0 (PC (Cpu C0))"
    using step_executeBlock [OF block(1), of L H] by (simp add: C0_def)
  have v: "step L H (plain C) = step L H (plain C0)"
    using step_view_cached [OF block(1,3,4)] by (simp add: C0_def)
  from assms(1) C0 block(4) show ?thesis
  proof (cases rule: jit_block_cases [where H = H])
    case (called C1 C2 e1 b1)
    from call_view [OF called(4,6,7), of L] have "\<exists>D. chainEntries L H C2 e1 = Some (Done D)"
      unfolding called(2)
    proof (elim disjE conjE exE)
      assume "step L H (plain C0) = Some (Done (plain C2))"
      then obtain k where "run_fuel k L H (plain C2) = Some r"
        using assms(4,5) v by (cases n) auto
      then show ?thesis using chain_returns [OF _ assms(1) called(5)] by blast
    next
      assume "e1 = None"
      then show ?thesis by (simp add: chainEntries.simps)
    qed
    then show ?thesis using called(1) e by auto
  qed (simp_all add: e)
qed

section \<open>Whole runs\<close>

text \<open>
  How a JIT run ends where the switch engine ends with \<open>r\<close>: with the same context up to the
  cache, with the same exception, or, where the engine throws, with a return and a fault, the
  program counter being the only part of the context that may differ.
\<close>

definition jit_outcome :: "'w ExecutionContext outcome \<Rightarrow> 'w ExecutionContext outcome \<Rightarrow> bool" where
  "jit_outcome r r' \<longleftrightarrow>
     (case r' of
        Done D \<Rightarrow> r = Done (plain D) \<or>
          (\<exists>x T q. r = Throw (SimulationException x) T \<and> plain D = with_pc q T
             \<and> Status (State D) = FAULTED)
      | Throw e D \<Rightarrow> r = Throw e (plain D)
      | Stuck \<Rightarrow> False)"

lemma run_fuel_mono: "run_fuel n L H C = Some r \<Longrightarrow> n \<le> m \<Longrightarrow> run_fuel m L H C = Some r"
proof (induction n arbitrary: C m)
  case (Suc n)
  then obtain k where "m = Suc k" "n \<le> k" by (cases m) auto
  then show ?case using Suc by (auto split: if_splits option.splits outcome.splits)
qed simp

lemma path_run: "path L H n S U \<Longrightarrow> run L H U = Some r \<Longrightarrow> run L H S = Some r"
  unfolding run_iff_fuel using path_fuel by metis

lemma run_jit_sound:
  assumes "lib_ok L" "lib_total L" "run_ok C" "Mode C = JIT" "run L H C = Some r'"
  shows "\<exists>r. run L H (plain C) = Some r \<and> jit_outcome r r'"
proof -
  obtain n where "run_fuel n L H C = Some r'" using assms(5) run_run_fuel by blast
  then show ?thesis using assms(3,4)
  proof (induction n arbitrary: C)
    case (Suc n)
    show ?case
    proof (cases "Status (State C) = RUNNING")
      case False
      then have "r' = Done C" "run L H (plain C) = Some (Done (plain C))"
        using Suc.prems(1) by (simp_all add: run.simps)
      then show ?thesis by (simp add: jit_outcome_def)
    next
      case True
      then obtain r0 where r0: "step L H C = Some r0" using Suc.prems(1) by (cases "step L H C") auto
      from jit_step [OF assms(1) Suc.prems(2) True Suc.prems(3) r0]
      have j: "jit_steps_to L H C r0" "holds_in (\<lambda>D. run_ok D \<and> instr_frame C D) r0" by simp_all
      show ?thesis
      proof (cases r0)
        case (Done D)
        then have D: "run_fuel n L H D = Some r'" "run_ok D" "Mode D = JIT"
          using Suc.prems True r0 j(2) by (auto simp: instr_frame_def)
        obtain k where "follows L H (Suc k) (plain C) D" using j(1) Done by (auto simp: jit_steps_to_def)
        then show ?thesis unfolding follows_def
        proof (elim disjE exE conjE)
          assume "path L H (Suc k) (plain C) (plain D)"
          then show ?thesis using Suc.IH [OF D] path_run by blast
        next
          fix U x T q k'
          assume f: "path L H k' (plain C) U" "Status (State U) = RUNNING"
            "step L H U = Some (Throw (SimulationException x) T)" "plain D = with_pc q T"
            "Status (State D) = FAULTED"
          have "run L H (plain C) = Some (Throw (SimulationException x) T)"
            using f(2,3) by (intro path_run [OF f(1)]) (simp add: run.simps)
          moreover have "r' = Done D" using D(1) f(5) by (cases n) auto
          ultimately show ?thesis using f(4,5) by (auto simp: jit_outcome_def)
        qed
      next
        case (Throw e D)
        then have "r' = Throw e D" using Suc.prems(1) True r0 by simp
        moreover have "step L H (plain C) = Some (Throw e (plain D))"
          using j(1) Throw assms(2) by (cases e) (simp_all add: jit_steps_to_def)
        then have "run L H (plain C) = Some (Throw e (plain D))" using True by (simp add: run.simps)
        ultimately show ?thesis by (simp add: jit_outcome_def)
      qed (use j(1) in \<open>simp add: jit_steps_to_def\<close>)
    qed
  qed simp
qed

lemma run_jit_returns:
  assumes "lib_ok L" "lib_total L" "run_ok C" "Mode C = JIT" "run L H (plain C) = Some r"
  shows "\<exists>r'. run L H C = Some r'"
proof -
  obtain n where "run_fuel n L H (plain C) = Some r" using assms(5) run_run_fuel by blast
  then show ?thesis using assms(3,4)
  proof (induction n arbitrary: C rule: less_induct)
    case (less n)
    show ?case
    proof (cases "Status (State C) = RUNNING")
      case False
      then show ?thesis by (simp add: run.simps)
    next
      case True
      obtain r0 where r0: "step L H C = Some r0"
        using jit_step_returns [OF assms(1) less.prems(2,3,1) True] by blast
      from jit_step [OF assms(1) less.prems(2) True less.prems(3) r0]
      have j: "jit_steps_to L H C r0" "holds_in (\<lambda>D. run_ok D \<and> instr_frame C D) r0" by simp_all
      show ?thesis
      proof (cases "\<exists>D. r0 = Done D")
        case False
        then show ?thesis using True r0 by (cases r0) (simp_all add: run.simps)
      next
        case True
        then obtain D where D: "r0 = Done D" "run_ok D" "Mode D = JIT"
          using j(2) less.prems(3) by (auto simp: instr_frame_def)
        have run: "run L H C = run L H D"
          using \<open>Status (State C) = RUNNING\<close> r0 D(1) by (simp add: run.simps [of L H C])
        obtain k where "follows L H (Suc k) (plain C) D" using j(1) D(1) by (auto simp: jit_steps_to_def)
        then show ?thesis unfolding follows_def
        proof (elim disjE exE conjE)
          assume p: "path L H (Suc k) (plain C) (plain D)"
          have "\<not> n \<le> Suc k" using path_short [OF p, of n] less.prems(1) by auto
          then obtain m where m: "n = Suc k + m" "m < n" using less_imp_add_positive [of "Suc k" n] by auto
          then have "run_fuel m L H (plain D) = Some r" using path_fuel [OF p, of m] less.prems(1) by simp
          then show ?thesis using less.IH [OF m(2) _ D(2,3)] run by simp
        next
          assume "Status (State D) = FAULTED"
          then show ?thesis using run by (simp add: run.simps)
        qed
      qed
    qed
  qed
qed

section \<open>Exceptions under the JIT\<close>

text \<open>With threshold 0 every block is compiled, and no exception of an instruction escapes.\<close>

lemma jit_step_throws:
  assumes "lib_ok L" "lib_total L" "run_ok C" "Status (State C) = RUNNING" "Mode C = JIT"
    "JitThreshold C = 0" "step L H C = Some (Throw e D)"
  shows "State D = State C"
  using assms(3)
proof (cases rule: getBlock_run_ok)
  case (block c b)
  have "executeBlock L H (C\<lparr>BlockCache := c\<rparr>) (PC (Cpu (C\<lparr>BlockCache := c\<rparr>))) = Some (Throw e D)"
    using assms(7) step_executeBlock [OF block(1), of L H] by simp
  moreover have "Status (State (C\<lparr>BlockCache := c\<rparr>)) = RUNNING" "Mode (C\<lparr>BlockCache := c\<rparr>) = JIT"
    "Blocks (BlockCache (C\<lparr>BlockCache := c\<rparr>)) (PC (Cpu (C\<lparr>BlockCache := c\<rparr>))) = Some b"
    using assms block by simp_all
  ultimately show ?thesis
  proof (cases rule: jit_block_cases [OF assms(1) block(2) _ _ _ block(4), where H = H, case_names _ _ _ threaded failed called])
    case (threaded C1)
    then show ?thesis using assms(6) by simp
  next
    case (failed C1)
    then show ?thesis using assms(2) by simp
  next
    case (called C1 C2 p b1)
    have "map_option catchSimulationException (chainEntries L H C2 p) = Some (Throw e D)"
      using called(1) assms(7) step_executeBlock [OF block(1), of L H] by simp
    then obtain r1 where r1: "chainEntries L H C2 p = Some r1" "catchSimulationException r1 = Throw e D"
      by (auto simp: map_option_eq_Some)
    then show ?thesis using chain_follows [OF r1(1) assms(1) called(5)] by auto
  qed
next
  case (error e' c)
  then show ?thesis using assms(7) by (auto simp: step_def)
qed

lemma jit_run_throws:
  assumes "lib_ok L" "lib_total L" "run_ok C" "Mode C = JIT" "JitThreshold C = 0"
    "run L H C = Some (Throw e D)"
  shows "Status (State D) = RUNNING"
proof -
  obtain n where "run_fuel n L H C = Some (Throw e D)" using assms(6) run_run_fuel by blast
  then show ?thesis using assms(3-5)
  proof (induction n arbitrary: C)
    case (Suc n)
    then have r: "Status (State C) = RUNNING" by (auto split: if_splits)
    then obtain q where q: "step L H C = Some q" using Suc.prems by (auto split: option.splits)
    show ?case
    proof (cases q)
      case (Done C1)
      then have "run_ok C1" "instr_frame C C1"
        using jit_step [OF assms(1) Suc.prems(2) r Suc.prems(3) q] by simp_all
      then show ?thesis using Suc q r Done by (simp add: instr_frame_def)
    next
      case (Throw e1 D1)
      then show ?thesis
        using jit_step_throws [OF assms(1,2) Suc.prems(2) r Suc.prems(3,4)] Suc.prems q r by auto
    qed (use Suc.prems q r in auto)
  qed simp
qed

section \<open>Properties\<close>

lemma plain_of_switch: "plain (C\<lparr>Mode := SWITCH\<rparr>) = plain C"
  by (simp add: plain_def)

lemma run_plain_of_switch:
  assumes "run_ok C"
  shows "run L H (plain C) = map_option (map_outcome plain) (run L H (C\<lparr>Mode := SWITCH\<rparr>))"
proof -
  have "run_ok (C\<lparr>Mode := SWITCH\<rparr>)" using assms by (simp add: run_ok_def ctx_ok_def)
  then show ?thesis using plain_view.view_run [of "C\<lparr>Mode := SWITCH\<rparr>" L H] by (simp add: plain_of_switch)
qed

lemma reference_lib_total: "lib_total reference_lib"
  by (simp add: lib_total_def reference_lib_def)

text \<open>C3. The JIT refines the interpreter: a JIT run returns exactly when the switch run from the
  same context returns, whatever the threshold and the optimisation level, with the same
  processor, memory, status and outside world. Where the switch run throws, the JIT run throws the
  same exception or returns FAULTED, and then only the program counter may differ.\<close>

theorem jit_run_refines_switch_run:
  assumes "lib_ok L" "lib_total L" "run_ok C" "Mode C = JIT"
  shows "rel_option (\<lambda>r r'. jit_outcome (map_outcome plain r) r')
    (run L H (C\<lparr>Mode := SWITCH\<rparr>)) (run L H C)"
proof (cases "run L H C")
  case None
  then have "run L H (plain C) = None"
    using run_jit_returns [OF assms, of H] by (cases "run L H (plain C)") auto
  then show ?thesis using run_plain_of_switch [OF assms(3), of L H] None by simp
next
  case (Some r')
  obtain r where r: "run L H (plain C) = Some r" "jit_outcome r r'"
    using run_jit_sound [OF assms Some] by blast
  then show ?thesis using run_plain_of_switch [OF assms(3), of L H] Some by auto
qed

lemma jit_run_done:
  assumes "lib_ok L" "lib_total L" "run_ok C" "Mode C = JIT" "run L H (C\<lparr>Mode := SWITCH\<rparr>) = Some (Done S)"
  shows "\<exists>D. run L H C = Some (Done D) \<and> plain D = plain S"
proof -
  have p: "run L H (plain C) = Some (Done (plain S))"
    using run_plain_of_switch [OF assms(3), of L H] assms(5) by simp
  obtain r' where r': "run L H C = Some r'" using run_jit_returns [OF assms(1-4) p] by blast
  have "jit_outcome (Done (plain S)) r'" using run_jit_sound [OF assms(1-4) r'] p by simp
  then show ?thesis using r' by (auto simp: jit_outcome_def split: outcome.splits)
qed

lemma jit_run_thrown:
  assumes "lib_ok L" "lib_total L" "run_ok C" "Mode C = JIT" "run L H (C\<lparr>Mode := SWITCH\<rparr>) = Some (Throw x S)"
  shows "(\<exists>D. run L H C = Some (Throw x D)) \<or> (\<exists>D. run L H C = Some (Done D) \<and> Status (State D) = FAULTED)"
proof -
  have p: "run L H (plain C) = Some (Throw x (plain S))"
    using run_plain_of_switch [OF assms(3), of L H] assms(5) by simp
  obtain r' where r': "run L H C = Some r'" using run_jit_returns [OF assms(1-4) p] by blast
  have "jit_outcome (Throw x (plain S)) r'" using run_jit_sound [OF assms(1-4) r'] p by simp
  then show ?thesis using r' by (auto simp: jit_outcome_def split: outcome.splits)
qed

lemma run_exit_jit:
  "\<exists>D. run reference_lib H (exit_context JIT) = Some (Done D) \<and> Status (State D) = HALTED"
proof -
  have e: "(exit_context JIT)\<lparr>Mode := SWITCH\<rparr> = exit_context SWITCH"
    by (simp add: exit_context_def ExecutionContext_new_def)
  obtain S where S: "run reference_lib H (exit_context SWITCH) = Some (Done S)"
      "State S = \<lparr>Status = HALTED, ExitCode = 42\<rparr>" using run_exit by blast
  then have p: "run reference_lib H (plain (exit_context JIT)) = Some (Done (plain S))"
    using run_plain_of_switch [OF exit_context_ok, of reference_lib H JIT] by (simp add: e)
  obtain r' where r': "run reference_lib H (exit_context JIT) = Some r'"
    using run_jit_returns [OF reference_lib_ok reference_lib_total exit_context_ok _ p] by auto
  have "jit_outcome (Done (plain S)) r'"
    using run_jit_sound [OF reference_lib_ok reference_lib_total exit_context_ok _ r'] p by simp
  then obtain D where D: "r' = Done D" "plain S = plain D"
    by (auto simp: jit_outcome_def split: outcome.splits)
  have "State D = State S" using plain_frame(3) [of D] plain_frame(3) [of S] D(2) by simp
  then show ?thesis using r' D(1) S(2) by simp
qed

lemma jit_run_refines_switch_run_witness:
  "rel_option (\<lambda>r r'. jit_outcome (map_outcome plain r) r')
    (run reference_lib silent_host ((exit_context JIT)\<lparr>Mode := SWITCH\<rparr>))
    (run reference_lib silent_host (exit_context JIT))
   \<and> (\<exists>D. run reference_lib silent_host (exit_context JIT) = Some (Done D) \<and> Status (State D) = HALTED)"
  using jit_run_refines_switch_run [OF reference_lib_ok reference_lib_total exit_context_ok [of JIT]] run_exit_jit
  by simp

lemma run_safe:
  assumes "lib_ok L" "run_ok C" "run L H C = Some r"
  shows "r \<noteq> Stuck \<and> holds_in (\<lambda>D. run_ok D \<and> instr_frame C D) r"
proof (rule run_holds [OF _ _ assms(3)])
  fix D q
  assume D: "run_ok D \<and> instr_frame C D" "Status (State D) = RUNNING" "step L H D = Some q"
  have "q \<noteq> Stuck \<and> holds_in (\<lambda>E. run_ok E \<and> instr_frame D E) q"
  proof (cases "Mode D = JIT")
    case True
    then show ?thesis using jit_step [OF assms(1) _ D(2) True D(3)] D(1)
      by (auto simp: jit_steps_to_def)
  next
    case False
    then show ?thesis using step_engine_keeps [OF _ False D(3)] D(1) by simp
  qed
  then show "q \<noteq> Stuck \<and> holds_in (\<lambda>D. run_ok D \<and> instr_frame C D) q"
    using D(1) instr_frame_trans by (auto elim!: holds_in_mono)
qed (use assms in simp)

text \<open>C8. No run in any mode does what the code leaves undefined (an access past a block, a call of
  unmapped code, a missing block), whatever the guest program is, and the context it ends in is
  well formed again: registers, cache and compiled code are consistent, and the memory size, the
  executable regions and the options are those of the start.\<close>

theorem run_is_safe:
  assumes "lib_ok L" "run_ok C" "run L H C = Some r"
  shows "r \<noteq> Stuck \<and> holds_in (\<lambda>D. run_ok D \<and> instr_frame C D) r"
  using run_safe [OF assms] .

lemma run_is_safe_witness:
  "\<exists>D. run reference_lib silent_host (exit_context JIT) = Some (Done D) \<and> run_ok D"
proof -
  obtain D where D: "run reference_lib silent_host (exit_context JIT) = Some (Done D)"
    using run_exit_jit by blast
  then show ?thesis using run_is_safe [OF reference_lib_ok exit_context_ok D] by simp
qed

text \<open>Where the switch engine faults, the JIT with threshold 0 returns normally, FAULTED.\<close>

lemma jit_returns_faulted:
  assumes "lib_ok L" "lib_total L" "run_ok C" "Mode C = JIT" "JitThreshold C = 0"
    and "run L H (C\<lparr>Mode := SWITCH\<rparr>) = Some (Throw x T)" "Status (State T) = FAULTED"
  shows "\<exists>D. run L H C = Some (Done D) \<and> Status (State D) = FAULTED"
proof -
  have p: "run L H (plain C) = Some (Throw x (plain T))"
    using run_plain_of_switch [OF assms(3), of L H] assms(6) by simp
  obtain r' where r': "run L H C = Some r'" using run_jit_returns [OF assms(1-4) p] by blast
  then have o: "jit_outcome (Throw x (plain T)) r'" using run_jit_sound [OF assms(1-4) r'] p by simp
  show ?thesis
  proof (cases r')
    case (Throw e D)
    then have "Status (State D) = RUNNING" using jit_run_throws [OF assms(1-5)] r' by simp
    moreover have "State D = State T"
      using o Throw plain_frame(3) [of D] plain_frame(3) [of T] by (simp add: jit_outcome_def)
    ultimately show ?thesis using assms(7) by simp
  qed (use o r' in \<open>auto simp: jit_outcome_def\<close>)
qed

text \<open>A run that starts at an invalid instruction (the word 0) with an empty cache.\<close>

lemma run_invalid:
  assumes "Status (State C) = RUNNING" "Mode C = SWITCH" "BlockCache C = clear c"
    "read32 (Memory C) (PC (Cpu C)) = Inr 0"
  shows "\<exists>T. run L H C = Some (Throw (SimulationException INVALID_INSTRUCTION) T) \<and> Status (State T) = FAULTED"
proof -
  have "getBlock (BlockCache C) (PC (Cpu C)) (Memory C) = Some (Done ((clear c)\<lparr>Blocks :=
      [PC (Cpu C) \<mapsto> TIBasicBlock_new (PC (Cpu C)) [decode 0]]\<rparr>))"
    using assms(3,4) by (simp add: getBlock_def decodeBlock_def clear_def decodeBlock_loop.simps decode_0)
  then have "\<exists>T. step L H C = Some (Throw (SimulationException INVALID_INSTRUCTION) T)
      \<and> Status (State T) = FAULTED"
    using assms(2)
    by (simp add: step_def executeBlock_def TIBasicBlock_new_def executeSwitchBlock_def decode_0
        executeInstructionSwitch_def executeInvalid_def fault_def)
  then show ?thesis using assms(1) by (auto simp: run.simps [of L H C])
qed

end
