(* ===== verification/Architecture.thy ===== *)
theory Architecture
  imports SwitchView
begin

text \<open>
  The part of a context that the instruction set speaks of: processor, memory bytes and regions,
  status and the world. The block cache, the dirty ranges and the configuration belong to the
  engines; instructions other than FLUSH do not look at them.
\<close>

definition undirtied :: "TIMemory \<Rightarrow> TIMemory" where
  "undirtied m = m\<lparr>DirtyCodeRanges := []\<rparr>"

definition arch :: "'w ExecutionContext \<Rightarrow> 'w ExecutionContext" where
  "arch C = C\<lparr>Memory := undirtied (Memory C), BlockCache := emptyCache, Mode := SWITCH,
     JitThreshold := 0, JitOptimizationLevel := 0\<rparr>"

lemma undirtied_frame [simp]:
  "Bytes (undirtied m) = Bytes m" "ExecutableRegions (undirtied m) = ExecutableRegions m"
  "DirtyCodeRanges (undirtied m) = []" "undirtied (undirtied m) = undirtied m"
  "undirtied (m\<lparr>DirtyCodeRanges := d\<rparr>) = undirtied m" "read32 (undirtied m) a = read32 m a"
  "in_bounds (undirtied m) a n = in_bounds m a n" "undirtied (m\<lparr>Bytes := b\<rparr>) = (undirtied m)\<lparr>Bytes := b\<rparr>"
  by (simp_all add: undirtied_def read32_eq in_bounds_def)

lemma arch_frame [simp]:
  "Cpu (arch C) = Cpu C" "Memory (arch C) = undirtied (Memory C)" "State (arch C) = State C"
  "World (arch C) = World C" "arch (arch C) = arch C" "arch (C\<lparr>BlockCache := c\<rparr>) = arch C"
  "arch (C\<lparr>Mode := md\<rparr>) = arch C"
  by (simp_all add: arch_def)

lemma arch_updates [simp]:
  "arch (C\<lparr>Memory := m\<rparr>) = (arch C)\<lparr>Memory := undirtied m\<rparr>"
  "arch (C\<lparr>Cpu := c\<rparr>) = (arch C)\<lparr>Cpu := c\<rparr>" "arch (C\<lparr>State := st\<rparr>) = (arch C)\<lparr>State := st\<rparr>"
  by (simp_all add: arch_def)

lemma undirtied_mark [simp]: "undirtied (markCodeDirty m a n) = undirtied m"
  by (simp add: markCodeDirty_def)

text \<open>Instructions look at the architectural state only.\<close>

definition undirty_sys :: "'w sys_state \<Rightarrow> 'w sys_state" where
  "undirty_sys s = (case s of (cpu, m, st, w) \<Rightarrow> (cpu, undirtied m, st, w))"

lemma undirtied_ranges [simp]:
  "writableRange (undirtied m) a n = writableRange m a n"
  "readableRange (undirtied m) a n = readableRange m a n"
  "undirtied (writeThrough m rng k bs) = writeThrough (undirtied m) rng k bs"
  by (simp_all add: writableRange_eq readableRange_eq writeThrough_def split: option.split)

lemma undirty_handlers:
  "handleRead H (undirty_sys s) = map_outcome undirty_sys (handleRead H s)"
  "handleReadNumber H (undirty_sys s) = map_outcome undirty_sys (handleReadNumber H s)"
  "handleWrite H (undirty_sys s) = map_outcome undirty_sys (handleWrite H s)"
  "handleExit H (undirty_sys s) = map_outcome undirty_sys (handleExit H s)"
  by (cases s; auto simp: undirty_sys_def Let_def split: sum.split prod.split)+

lemma undirty_syscall: "execute_syscall H (undirty_sys s) = map_outcome undirty_sys (execute_syscall H s)"
proof -
  obtain cpu m st w where s: "s = (cpu, m, st, w)" by (cases s)
  have u: "undirty_sys s = (cpu, undirtied m, st, w)" by (simp add: s undirty_sys_def)
  show ?thesis
  proof (cases "Handlers H (Registers cpu ! 8)")
    case None
    then show ?thesis unfolding u s by (simp add: undirty_sys_def)
  next
    case (Some h)
    then have "h \<in> {handleRead H, handleReadNumber H, handleWrite H, handleExit H}"
      by (auto simp: Handlers_def split: if_splits)
    then have "h (undirty_sys s) = map_outcome undirty_sys (h s)" 
      by (elim insertE emptyE) (simp_all only: undirty_handlers)
    moreover have "execute_syscall H (undirty_sys s) = h (undirty_sys s)"
      unfolding u using Some by simp
    moreover have "execute_syscall H s = h s" unfolding s using Some by simp
    ultimately show ?thesis by simp
  qed
qed

lemma arch_syscall: "map_outcome arch (executeSyscall H (arch C) i) = map_outcome arch (executeSyscall H C i)"
proof -
  let ?s = "(Cpu C, Memory C, State C, World C)"
  have u: "execute_syscall H (Cpu C, undirtied (Memory C), State C, World C)
      = map_outcome undirty_sys (execute_syscall H ?s)"
    using undirty_syscall [of H ?s] by (simp add: undirty_sys_def)
  have p: "arch (put_sys (arch C) (undirty_sys s)) = arch (put_sys C s)"
    "State (put_sys (arch C) (undirty_sys s)) = State (put_sys C s)"
    "Cpu (put_sys (arch C) (undirty_sys s)) = Cpu (put_sys C s)" for s
    by (auto simp: put_sys_def undirty_sys_def arch_def split: prod.split)
  have c: "arch ((put_sys (arch C) (undirty_sys s))\<lparr>Cpu := c\<rparr>) = arch ((put_sys C s)\<lparr>Cpu := c\<rparr>)" for s c
    by (auto simp: put_sys_def undirty_sys_def arch_def split: prod.split)
  show ?thesis
    by (cases "execute_syscall H ?s")
      (simp_all add: executeSyscall_def u Let_def p c del: execute_syscall.simps)
qed

lemma arch_switch:
  "map_outcome arch (executeInstructionSwitch H (arch C) i) = map_outcome arch (executeInstructionSwitch H C i)"
  by (cases "OpCode i")
    (simp_all add: executeInstructionSwitch_def execute_defs Let_def arch_syscall write32_eq in_bounds_def
      flushInstructionCache_def takeDirtyCodeRanges_def split: sum.split)

end
