(* ===== verification/Manual.thy ===== *)
theory Manual
  imports Architecture
begin

text \<open>
  The instruction set manual of the repository (\<open>docs/TOY_ISA_5.pdf\<close>, version 1.5) as a reference:
  for every instruction its page, the fixed fields of its encoding and its effect, written from
  the manual's pseudo-code and not from the decoder or the execute functions. Where the manual says
  nothing (accesses outside the memory, a saturation to 0 bits, what a system call does, words that
  are no instruction) its pages have no result, and \<open>unsaid\<close> is what the code does. The code is
  proved to do what the manual says, and \<open>unsaid\<close> where it says nothing, for every word but two
  kinds of deviation that the theorem names.
\<close>

section \<open>The fields of a word\<close>

definition bits :: "u32 \<Rightarrow> nat \<Rightarrow> nat \<Rightarrow> nat" where
  "bits w hi lo = unat w div 2 ^ lo mod 2 ^ (Suc hi - lo)"

definition sbits :: "u32 \<Rightarrow> nat \<Rightarrow> u32" where
  "sbits w hi = signed_take_bit hi w"

lemma bits_eq: "bits w hi lo = unat (take_bit (Suc hi - lo) (drop_bit lo w))"
  by (simp only: unsigned_take_bit_eq unat_drop_bit_eq) (simp only: bits_def take_bit_eq_mod drop_bit_eq_div)

lemma and_field: "(w :: u32) AND push_bit k (mask n) = push_bit k (take_bit n (drop_bit k w))"
  by (rule bit_word_eqI) (auto simp: bit_simps)

text \<open>A word has the fixed bits of a format when its fields have their values.\<close>

lemma fixed_field:
  assumes "lo \<le> hi" "hi < 32" "v < 2 ^ (Suc hi - lo)"
  shows "w AND push_bit lo (mask (Suc hi - lo)) = push_bit lo (of_nat v) \<longleftrightarrow> bits w hi lo = v"
proof -
  let ?n = "Suc hi - lo" and ?f = "take_bit (Suc hi - lo) (drop_bit lo w)"
  have v: "take_bit ?n (of_nat v :: u32) = of_nat v"
    using assms(3) by (simp add: take_bit_of_nat take_bit_nat_eq_self)
  have drop: "drop_bit lo (push_bit lo z) = z" if "take_bit ?n z = z" for z :: u32
  proof (rule bit_word_eqI)
    fix k assume "k < LENGTH(32)"
    have "bit z k \<longleftrightarrow> bit (take_bit ?n z) k" using that by simp
    then show "bit (drop_bit lo (push_bit lo z)) k = bit z k"
      using assms by (auto simp: bit_simps)
  qed
  have inj: "x = y" if "push_bit lo x = push_bit lo y" "take_bit ?n x = x" "take_bit ?n y = y" for x y :: u32
    by (rule box_equals [OF arg_cong [OF that(1), of "drop_bit lo"] drop [OF that(2)] drop [OF that(3)]])
  have f: "take_bit ?n ?f = ?f" by simp
  have "push_bit lo ?f = push_bit lo (of_nat v) \<longleftrightarrow> ?f = of_nat v"
    by (rule iffI, rule inj [OF _ f v], assumption, simp)
  also have "\<dots> \<longleftrightarrow> unat ?f = v"
  proof -
    have "(2::nat) ^ ?n \<le> 2 ^ 32" using assms by (intro power_increasing) auto
    then have "unat (of_nat v :: u32) = v" using assms(3) by (simp add: unat_of_nat take_bit_nat_eq_self)
    then show ?thesis by (metis word_unat_eq_iff)
  qed
  finally show ?thesis by (simp add: and_field bits_eq)
qed

lemma disjoint_parts:
  assumes "m AND m' = 0" "r AND m = r" "r' AND m' = r'"
  shows "(r OR r') AND m = r" "(r OR r') AND m' = (r' :: u32)"
proof -
  have "r' AND (m AND m') = (r' AND m') AND m" "r AND (m AND m') = (r AND m) AND m'"
    by (simp_all only: ac_simps)
  then have "r' AND m = 0" "r AND m' = 0" using assms by simp_all
  then show "(r OR r') AND m = r" "(r OR r') AND m' = r'"
    using assms by (simp_all add: bit.conj_disj_distrib2)
qed

lemma fixed_fields:
  assumes "m AND m' = 0" "r AND m = r" "r' AND m' = r'"
  shows "(w :: u32) AND (m OR m') = r OR r' \<longleftrightarrow> w AND m = r \<and> w AND m' = r'"
proof
  assume e: "w AND (m OR m') = r OR r'"
  have "(w AND (m OR m')) AND m = w AND m" "(w AND (m OR m')) AND m' = w AND m'"
    by (rule bit_word_eqI, auto simp: bit_simps)+
  then show "w AND m = r \<and> w AND m' = r'" using disjoint_parts [OF assms] e by simp
next
  assume "w AND m = r \<and> w AND m' = r'"
  then show "w AND (m OR m') = r OR r'" by (simp add: bit.conj_disj_distrib)
qed

text \<open>A format is a list of fixed fields: highest bit, lowest bit, value.\<close>

fun fits :: "u32 \<Rightarrow> (nat \<times> nat \<times> nat) list \<Rightarrow> bool" where
  "fits w [] \<longleftrightarrow> True"
| "fits w ((hi, lo, v) # fs) \<longleftrightarrow> bits w hi lo = v \<and> fits w fs"

fun fixed_mask :: "(nat \<times> nat \<times> nat) list \<Rightarrow> u32" where
  "fixed_mask [] = 0"
| "fixed_mask ((hi, lo, v) # fs) = push_bit lo (mask (Suc hi - lo)) OR fixed_mask fs"

fun fixed_value :: "(nat \<times> nat \<times> nat) list \<Rightarrow> u32" where
  "fixed_value [] = 0"
| "fixed_value ((hi, lo, v) # fs) = push_bit lo (of_nat v) OR fixed_value fs"

fun disjoint_fields :: "(nat \<times> nat \<times> nat) list \<Rightarrow> bool" where
  "disjoint_fields [] \<longleftrightarrow> True"
| "disjoint_fields ((hi, lo, v) # fs) \<longleftrightarrow> lo \<le> hi \<and> hi < 32 \<and> v < 2 ^ (Suc hi - lo)
     \<and> push_bit lo (mask (Suc hi - lo)) AND fixed_mask fs = 0 \<and> disjoint_fields fs"

lemma field_value_in:
  "v < 2 ^ n \<Longrightarrow> push_bit lo (of_nat v) AND push_bit lo (mask n) = (push_bit lo (of_nat v) :: u32)"
  by (simp flip: push_bit_and take_bit_eq_mask add: take_bit_of_nat take_bit_nat_eq_self)

lemma fixed_value_in: "disjoint_fields fs \<Longrightarrow> fixed_value fs AND fixed_mask fs = fixed_value fs"
proof (induction fs rule: fixed_value.induct)
  case (2 hi lo v fs)
  let ?m = "push_bit lo (mask (Suc hi - lo)) :: u32" and ?r = "push_bit lo (of_nat v) :: u32"
  have v: "?r AND ?m = ?r" and IH: "fixed_value fs AND fixed_mask fs = fixed_value fs"
    using 2 by (simp_all add: field_value_in)
  have "(?r OR fixed_value fs) AND ?m = ?r" "(?r OR fixed_value fs) AND fixed_mask fs = fixed_value fs"
    using disjoint_parts [OF _ v IH] 2 by simp_all
  then show ?case by (simp add: bit.conj_disj_distrib)
qed simp

lemma fits_iff: "disjoint_fields fs \<Longrightarrow> fits w fs \<longleftrightarrow> w AND fixed_mask fs = fixed_value fs"
proof (induction fs rule: fixed_value.induct)
  case (2 hi lo v fs)
  then have "w AND fixed_mask ((hi, lo, v) # fs) = fixed_value ((hi, lo, v) # fs) \<longleftrightarrow>
      w AND push_bit lo (mask (Suc hi - lo)) = push_bit lo (of_nat v) \<and> w AND fixed_mask fs = fixed_value fs"
    using fixed_fields [of "push_bit lo (mask (Suc hi - lo))" "fixed_mask fs" "push_bit lo (of_nat v)"]
    by (simp add: field_value_in fixed_value_in)
  then show ?case using 2 fixed_field [of lo hi v w] by simp
qed simp

lemma fits_st: "w AND 0xFC00C000 = 0x80000000 \<longleftrightarrow> fits w [(31, 26, 0b100000), (15, 14, 0b00)]"
  by (subst fits_iff) (simp_all add: mask_eq_exp_minus_1)

lemma fits_addi: "w AND 0xFC000000 = 0x5C000000 \<longleftrightarrow> fits w [(31, 26, 0b010111)]"
  by (subst fits_iff) (simp_all add: mask_eq_exp_minus_1)

lemma fits_or: "w AND 0xFC0007FF = 0x0000001A \<longleftrightarrow> fits w [(31, 26, 0b000000), (10, 6, 0b00000), (5, 0, 0b011010)]"
  by (subst fits_iff) (simp_all add: mask_eq_exp_minus_1)

lemma fits_ld_reg: "w AND 0xFC00FFE0 = 0x0C00C000 \<longleftrightarrow> fits w [(31, 26, 0b000011), (15, 14, 0b11), (13, 5, 0b000000000)]"
  by (subst fits_iff) (simp_all add: mask_eq_exp_minus_1)

lemma fits_j: "w AND 0xFC000000 = 0xFC000000 \<longleftrightarrow> fits w [(31, 26, 0b111111)]"
  by (subst fits_iff) (simp_all add: mask_eq_exp_minus_1)

lemma fits_beq: "w AND 0xFC000000 = 0x40000000 \<longleftrightarrow> fits w [(31, 26, 0b010000)]"
  by (subst fits_iff) (simp_all add: mask_eq_exp_minus_1)

lemma fits_clz: "w AND 0xFC00FFFF = 0x00000032 \<longleftrightarrow> fits w [(31, 26, 0b000000), (15, 6, 0b0000000000), (5, 0, 0b110010)]"
  by (subst fits_iff) (simp_all add: mask_eq_exp_minus_1)

lemma fits_ssat: "w AND 0xFC0007FF = 0x20000000 \<longleftrightarrow> fits w [(31, 26, 0b001000), (10, 0, 0b00000000000)]"
  by (subst fits_iff) (simp_all add: mask_eq_exp_minus_1)

lemma fits_ld: "w AND 0xFC00C000 = 0xCC000000 \<longleftrightarrow> fits w [(31, 26, 0b110011), (15, 14, 0b00)]"
  by (subst fits_iff) (simp_all add: mask_eq_exp_minus_1)

lemma fits_add: "w AND 0xFC0007FF = 0x0000000C \<longleftrightarrow> fits w [(31, 26, 0b000000), (10, 6, 0b00000), (5, 0, 0b001100)]"
  by (subst fits_iff) (simp_all add: mask_eq_exp_minus_1)

lemma fits_syscall: "w AND 0xFC00003F = 0x0000001E \<longleftrightarrow> fits w [(31, 26, 0b000000), (5, 0, 0b011110)]"
  by (subst fits_iff) (simp_all add: mask_eq_exp_minus_1)

lemma fits_bext: "w AND 0xFC0007FF = 0x00000034 \<longleftrightarrow> fits w [(31, 26, 0b000000), (10, 6, 0b00000), (5, 0, 0b110100)]"
  by (subst fits_iff) (simp_all add: mask_eq_exp_minus_1)

lemma fits_li: "w AND 0xFFE00000 = 0x2C000000 \<longleftrightarrow> fits w [(31, 26, 0b001011), (25, 21, 0b00000)]"
  by (subst fits_iff) (simp_all add: mask_eq_exp_minus_1)

lemma fits_rori: "w AND 0xFC0007FF = 0x74000000 \<longleftrightarrow> fits w [(31, 26, 0b011101), (10, 0, 0b00000000000)]"
  by (subst fits_iff) (simp_all add: mask_eq_exp_minus_1)

lemma fits_stp: "w AND 0xFC000000 = 0x54000000 \<longleftrightarrow> fits w [(31, 26, 0b010101)]"
  by (subst fits_iff) (simp_all add: mask_eq_exp_minus_1)

lemma fits_flush: "w AND 0xFC000000 = 0x98000000 \<longleftrightarrow> fits w [(31, 26, 0b100110)]"
  by (subst fits_iff) (simp_all add: mask_eq_exp_minus_1)

section \<open>The pages of the manual\<close>

text \<open>
  One definition per page: \<open>xreg\<close> is the register file, \<open>memory[addr]\<close> a little-endian word, a
  register field a number below 32. A page has no result (\<open>None\<close>) where the manual says nothing.
\<close>

type_synonym 'w effect = "'w ExecutionContext \<Rightarrow> u32 \<Rightarrow> 'w ExecutionContext outcome"
type_synonym 'w page = "'w ExecutionContext \<Rightarrow> u32 \<Rightarrow> 'w ExecutionContext outcome option"

definition xreg :: "'w ExecutionContext \<Rightarrow> nat \<Rightarrow> u32" where
  "xreg C n = Registers (Cpu C) ! n"

definition put_xreg :: "nat \<Rightarrow> u32 \<Rightarrow> 'w ExecutionContext \<Rightarrow> 'w ExecutionContext" where
  "put_xreg n v C = C\<lparr>Cpu := (Cpu C)\<lparr>Registers := (Registers (Cpu C))[n := v]\<rparr>\<rparr>"

definition put_PC :: "u32 \<Rightarrow> 'w ExecutionContext \<Rightarrow> 'w ExecutionContext" where
  "put_PC a C = C\<lparr>Cpu := (Cpu C)\<lparr>PC := a\<rparr>\<rparr>"

definition next_PC :: "'w ExecutionContext \<Rightarrow> 'w ExecutionContext" where
  "next_PC C = put_PC (PC (Cpu C) + 4) C"

definition in_memory :: "'w ExecutionContext \<Rightarrow> u32 \<Rightarrow> bool" where
  "in_memory C a \<longleftrightarrow> unat a + 4 \<le> length (Bytes (Memory C)) \<and> unat a + 4 \<le> 2 ^ 32"

definition memory_at :: "'w ExecutionContext \<Rightarrow> u32 \<Rightarrow> u32" where
  "memory_at C a = (let B = Bytes (Memory C); p = unat a
     in word_of_bytes (B ! p) (B ! (p + 1)) (B ! (p + 2)) (B ! (p + 3)))"

definition put_memory :: "u32 \<Rightarrow> u32 \<Rightarrow> 'w ExecutionContext \<Rightarrow> 'w ExecutionContext" where
  "put_memory a v C = C\<lparr>Memory := (Memory C)\<lparr>Bytes := (let p = unat a in (Bytes (Memory C))
     [p := ucast v, p + 1 := ucast (drop_bit 8 v), p + 2 := ucast (drop_bit 16 v),
      p + 3 := ucast (drop_bit 24 v)])\<rparr>\<rparr>"

text \<open>\<open>raise MisalignedAccess unless isAligned(addr)\<close>, then the access.\<close>

definition raise_unless_aligned ::
  "'w ExecutionContext \<Rightarrow> u32 \<Rightarrow> 'w ExecutionContext outcome option \<Rightarrow> 'w ExecutionContext outcome option" where
  "raise_unless_aligned C a r =
     (if a mod 4 \<noteq> 0 then Some (Throw (SimulationException MISALIGNED_ACCESS) C) else r)"

definition page_NOP :: "'w effect" where
  "page_NOP C w = Done (next_PC C)"

definition page_ST :: "'w page" where
  "page_ST C w = (let base = bits w 25 21; rt = bits w 20 16; addr = xreg C base + sbits w 13
     in raise_unless_aligned C addr (if in_memory C addr
          then Some (Done (next_PC (put_memory addr (xreg C rt) C))) else None))"

definition page_ADDI :: "'w effect" where
  "page_ADDI C w = (let rs = bits w 25 21; rt = bits w 20 16
     in Done (next_PC (put_xreg rt (xreg C rs + sbits w 15) C)))"

definition page_OR :: "'w effect" where
  "page_OR C w = (let rs = bits w 25 21; rt = bits w 20 16; rd = bits w 15 11
     in Done (next_PC (put_xreg rd (xreg C rs OR xreg C rt) C)))"

definition page_LD_register :: "'w page" where
  "page_LD_register C w = (let base = bits w 25 21; rt = bits w 20 16; rm = bits w 4 0;
     addr = xreg C base + xreg C rm in raise_unless_aligned C addr (if in_memory C addr
          then Some (Done (next_PC (put_xreg rt (memory_at C addr) C))) else None))"

definition page_J :: "'w effect" where
  "page_J C w = Done (put_PC ((PC (Cpu C) AND 0xF0000000) OR push_bit 2 (of_nat (bits w 25 0))) C)"

definition page_BEQ :: "'w effect" where
  "page_BEQ C w = (let rs = bits w 25 21; rt = bits w 20 16; target = push_bit 2 (sbits w 15)
     in Done (if xreg C rs = xreg C rt then put_PC (PC (Cpu C) + target) C else next_PC C))"

definition page_CLZ :: "'w effect" where
  "page_CLZ C w = (let rd = bits w 25 21; rs = bits w 20 16
     in Done (next_PC (put_xreg rd (of_nat (leading_zeros (xreg C rs))) C)))"

text \<open>Saturation to N bits; a signed number has at least one.\<close>

definition page_SSAT :: "'w page" where
  "page_SSAT C w = (let rd = bits w 25 21; rs = bits w 20 16; imm = bits w 15 11
     in if imm = 0 then None
        else Some (Done (next_PC (put_xreg rd (word_of_int (signed_clamp imm (sint (xreg C rs)))) C))))"

definition page_LD :: "'w page" where
  "page_LD C w = (let base = bits w 25 21; rt = bits w 20 16; addr = xreg C base + sbits w 13
     in raise_unless_aligned C addr (if in_memory C addr
          then Some (Done (next_PC (put_xreg rt (memory_at C addr) C))) else None))"

definition page_ADD :: "'w effect" where
  "page_ADD C w = (let rs = bits w 25 21; rt = bits w 20 16; rd = bits w 15 11
     in Done (next_PC (put_xreg rd (xreg C rs + xreg C rt) C)))"

text \<open>\<open>SigException(SystemCall)\<close>: the manual leaves it to the operating system.\<close>

definition page_SYSCALL :: "'w page" where
  "page_SYSCALL C w = None"

definition page_BEXT :: "'w effect" where
  "page_BEXT C w = (let rd = bits w 25 21; rs1 = bits w 20 16; rs2 = bits w 15 11
     in Done (next_PC (put_xreg rd (packed_bits (xreg C rs1) (xreg C rs2)) C)))"

definition page_LI :: "'w effect" where
  "page_LI C w = Done (next_PC (put_xreg (bits w 20 16) (sbits w 15) C))"

definition page_RORI :: "'w effect" where
  "page_RORI C w = (let rd = bits w 25 21; rs = bits w 20 16; imm = bits w 15 11
     in Done (next_PC (put_xreg rd (word_rotr imm (xreg C rs)) C)))"

definition page_STP :: "'w page" where
  "page_STP C w = (let base = bits w 25 21; rt1 = bits w 20 16; rt2 = bits w 15 11;
     addr = xreg C base + sbits w 10
     in raise_unless_aligned C addr (if in_memory C addr \<and> in_memory C (addr + 4)
          then Some (Done (next_PC (put_memory (addr + 4) (xreg C rt2) (put_memory addr (xreg C rt1) C))))
          else None))"

text \<open>The formats: the fixed fields of every page, and of FLUSH, which is in the code only.\<close>

type_synonym format = "(nat \<times> nat \<times> nat) list"

abbreviation format_NOP :: format where "format_NOP \<equiv> [(31, 0, 0)]"
abbreviation format_ST :: format where "format_ST \<equiv> [(31, 26, 0b100000), (15, 14, 0b00)]"
abbreviation format_ADDI :: format where "format_ADDI \<equiv> [(31, 26, 0b010111)]"
abbreviation format_OR :: format where
  "format_OR \<equiv> [(31, 26, 0b000000), (10, 6, 0b00000), (5, 0, 0b011010)]"
abbreviation format_LD_register :: format where
  "format_LD_register \<equiv> [(31, 26, 0b000011), (15, 14, 0b11), (13, 5, 0b000000000)]"
abbreviation format_J :: format where "format_J \<equiv> [(31, 26, 0b111111)]"
abbreviation format_BEQ :: format where "format_BEQ \<equiv> [(31, 26, 0b010000)]"
abbreviation format_CLZ :: format where
  "format_CLZ \<equiv> [(31, 26, 0b000000), (15, 6, 0b0000000000), (5, 0, 0b110010)]"
abbreviation format_SSAT :: format where
  "format_SSAT \<equiv> [(31, 26, 0b001000), (10, 0, 0b00000000000)]"
abbreviation format_LD :: format where "format_LD \<equiv> [(31, 26, 0b110011), (15, 14, 0b00)]"
abbreviation format_ADD :: format where
  "format_ADD \<equiv> [(31, 26, 0b000000), (10, 6, 0b00000), (5, 0, 0b001100)]"
abbreviation format_SYSCALL :: format where "format_SYSCALL \<equiv> [(31, 26, 0b000000), (5, 0, 0b011110)]"
abbreviation format_BEXT :: format where
  "format_BEXT \<equiv> [(31, 26, 0b000000), (10, 6, 0b00000), (5, 0, 0b110100)]"
abbreviation format_LI :: format where "format_LI \<equiv> [(31, 26, 0b001011), (25, 21, 0b00000)]"
abbreviation format_RORI :: format where
  "format_RORI \<equiv> [(31, 26, 0b011101), (10, 0, 0b00000000000)]"
abbreviation format_STP :: format where "format_STP \<equiv> [(31, 26, 0b010101)]"
abbreviation format_FLUSH :: format where "format_FLUSH \<equiv> [(31, 26, 0b100110)]"

text \<open>The manual, and the page of a word in it.\<close>

abbreviation always :: "'w effect \<Rightarrow> 'w page" where
  "always effect \<equiv> (\<lambda>C w. Some (effect C w))"

definition manual :: "(format \<times> 'w page) list" where
  "manual =
    [(format_NOP, always page_NOP), (format_ST, page_ST), (format_ADDI, always page_ADDI),
     (format_OR, always page_OR), (format_LD_register, page_LD_register), (format_J, always page_J),
     (format_BEQ, always page_BEQ), (format_CLZ, always page_CLZ), (format_SSAT, page_SSAT),
     (format_LD, page_LD), (format_ADD, always page_ADD), (format_SYSCALL, page_SYSCALL),
     (format_BEXT, always page_BEXT), (format_LI, always page_LI), (format_RORI, always page_RORI),
     (format_STP, page_STP)]"

fun consult :: "(format \<times> 'w page) list \<Rightarrow> 'w page" where
  "consult [] C w = None"
| "consult ((format, page) # pages) C w = (if fits w format then page C w else consult pages C w)"

section \<open>Beside the manual\<close>

text \<open>The address of the access an instruction makes, the first one for STP.\<close>

definition access_address :: "'w ExecutionContext \<Rightarrow> u32 \<Rightarrow> u32 option" where
  "access_address C w = (let base = xreg C (bits w 25 21)
     in if fits w format_ST \<or> fits w format_LD then Some (base + sbits w 13)
        else if fits w format_LD_register then Some (base + xreg C (bits w 4 0))
        else if fits w format_STP then Some (base + sbits w 10)
        else None)"

text \<open>
  What the code does where the manual says nothing. A system call is what \<open>Syscalls\<close> makes of it;
  FLUSH steps to the next word; an aligned access outside the memory is an error, for STP after the
  first word if that one is inside; SSAT to 0 bits and every other word are invalid.
\<close>

definition unsaid :: "'w Host \<Rightarrow> 'w effect" where
  "unsaid H C w =
     (if fits w format_SYSCALL then executeSyscall H C (instr OP_SYSCALL [])
      else if fits w format_FLUSH then Done (next_PC C)
      else case access_address C w of
          None \<Rightarrow> Throw (SimulationException INVALID_INSTRUCTION) C
        | Some a \<Rightarrow> Throw (SimulationException MEMORY_OUT_OF_BOUNDS)
            (if fits w format_STP \<and> in_memory C a then put_memory a (xreg C (bits w 20 16)) C else C))"

text \<open>The deviation: an address that is misaligned and outside the memory.\<close>

definition strays :: "'w ExecutionContext \<Rightarrow> u32 \<Rightarrow> bool" where
  "strays C w \<longleftrightarrow> (case access_address C w of None \<Rightarrow> False
     | Some a \<Rightarrow> a mod 4 \<noteq> 0 \<and> \<not> in_memory C a)"

text \<open>The instruction set as it is implemented.\<close>

definition implemented :: "'w Host \<Rightarrow> 'w effect" where
  "implemented H C w =
     (if w = 0 then Throw (SimulationException INVALID_INSTRUCTION) C
      else if strays C w then Throw (SimulationException MEMORY_OUT_OF_BOUNDS) C
      else case consult manual C w of Some r \<Rightarrow> r | None \<Rightarrow> unsaid H C w)"

section \<open>The pages in the order of the code\<close>

text \<open>The code looks at the bounds before the alignment.\<close>

definition access ::
  "'w ExecutionContext \<Rightarrow> u32 \<Rightarrow> 'w ExecutionContext outcome \<Rightarrow> 'w ExecutionContext outcome" where
  "access C a r =
     (if \<not> in_memory C a then Throw (SimulationException MEMORY_OUT_OF_BOUNDS) C
      else if a mod 4 \<noteq> 0 then Throw (SimulationException MISALIGNED_ACCESS) C else r)"

definition emulated_ST :: "'w effect" where
  "emulated_ST C w = (let addr = xreg C (bits w 25 21) + sbits w 13
     in access C addr (Done (next_PC (put_memory addr (xreg C (bits w 20 16)) C))))"

definition emulated_LD_register :: "'w effect" where
  "emulated_LD_register C w = (let addr = xreg C (bits w 25 21) + xreg C (bits w 4 0)
     in access C addr (Done (next_PC (put_xreg (bits w 20 16) (memory_at C addr) C))))"

definition emulated_SSAT :: "'w effect" where
  "emulated_SSAT C w = (let imm = bits w 15 11
     in if imm = 0 then Throw (SimulationException INVALID_INSTRUCTION) C
        else Done (next_PC (put_xreg (bits w 25 21)
          (word_of_int (signed_clamp imm (sint (xreg C (bits w 20 16))))) C)))"

definition emulated_LD :: "'w effect" where
  "emulated_LD C w = (let addr = xreg C (bits w 25 21) + sbits w 13
     in access C addr (Done (next_PC (put_xreg (bits w 20 16) (memory_at C addr) C))))"

definition emulated_STP :: "'w effect" where
  "emulated_STP C w = (let addr = xreg C (bits w 25 21) + sbits w 10;
     C1 = put_memory addr (xreg C (bits w 20 16)) C
     in access C addr (access C1 (addr + 4) (Done (next_PC (put_memory (addr + 4) (xreg C (bits w 15 11)) C1)))))"

definition emulated_pages :: "'w Host \<Rightarrow> (format \<times> 'w effect) list" where
  "emulated_pages H =
    [(format_ST, emulated_ST), (format_ADDI, page_ADDI), (format_OR, page_OR),
     (format_LD_register, emulated_LD_register), (format_J, page_J), (format_BEQ, page_BEQ),
     (format_CLZ, page_CLZ), (format_SSAT, emulated_SSAT), (format_LD, emulated_LD),
     (format_ADD, page_ADD), (format_SYSCALL, \<lambda>C w. executeSyscall H C (instr OP_SYSCALL [])),
     (format_BEXT, page_BEXT), (format_LI, page_LI), (format_RORI, page_RORI),
     (format_STP, emulated_STP), (format_FLUSH, page_NOP)]"

fun perform :: "(format \<times> 'w effect) list \<Rightarrow> 'w effect" where
  "perform [] C w = Throw (SimulationException INVALID_INSTRUCTION) C"
| "perform ((format, effect) # pages) C w =
     (if fits w format then effect C w else perform pages C w)"

section \<open>The code and the pages\<close>

text \<open>What a field is in the code.\<close>

lemma unat_extractBits:
  "unat (extractBits w 21 5) = bits w 25 21" "unat (extractBits w 16 5) = bits w 20 16"
  "unat (extractBits w 11 5) = bits w 15 11" "unat (extractBits w 0 5) = bits w 4 0"
  "unat (extractBits w 0 26) = bits w 25 0"
  by (simp_all add: extractBits_eq extractBits_asserts_def bits_eq)

lemma immediates:
  "signExtend (extractBits w 0 14) 14 = sbits w 13" "signExtend (extractBits w 0 16) 16 = sbits w 15"
  "signExtend (extractBits w 0 11) 11 = sbits w 10"
  by (simp_all add: extractBits_eq extractBits_asserts_def signExtend_eq signExtend_asserts_def sbits_def
      signed_take_bit_take_bit)

lemma times_4: "(v :: u32) * 4 = push_bit 2 v"
  by (simp add: push_bit_eq_mult mult.commute)

lemma bits_less_32: "bits w 15 11 < 32"
  by (simp add: bits_def)

lemma saturate_field:
  "saturateSigned v (extractBits w 11 5) = (if bits w 15 11 = 0 then Inl INVALID_INSTRUCTION
     else Inr (word_of_int (signed_clamp (bits w 15 11) (sint v))))"
proof (cases "bits w 15 11 = 0")
  case True
  then show ?thesis using unat_extractBits(3) [of w] by (simp add: saturateSigned_def unat_eq_0)
next
  case False
  then have "extractBits w 11 5 \<noteq> 0" "extractBits w 11 5 < 32"
    using unat_extractBits(3) [of w] bits_less_32 [of w] by (auto simp: word_less_nat_alt)
  from saturateSigned_eq [OF this, of v] obtain r
    where "saturateSigned v (extractBits w 11 5) = Inr r" "sint r = signed_clamp (bits w 15 11) (sint v)"
    using unat_extractBits(3) [of w] by auto
  moreover have "word_of_int (sint r) = r" by simp
  ultimately show ?thesis using False by simp
qed

lemma rotate_field: "rotateRight v (extractBits w 11 5) = word_rotr (bits w 15 11) v"
  using rotateRight_eq [of "extractBits w 11 5" v] unat_extractBits(3) [of w] bits_less_32 [of w]
  by (simp add: word_less_nat_alt)

lemma mod_4_eq_0: "(a :: u32) mod 4 = 0 \<longleftrightarrow> aligned a"
  by (simp add: word_unat_eq_iff unat_mod_distrib aligned_def)

lemma word_at:
  assumes "p + 4 \<le> length (B :: u8 list)"
  shows "decodeLittleEndianWord False (take 4 (drop p B))
    = word_of_bytes (B ! p) (B ! (p + 1)) (B ! (p + 2)) (B ! (p + 3))"
  using assms by (simp add: decodeLittleEndianWord_eq)

lemma read_access:
  "(case read32 (Memory C) a of Inl e \<Rightarrow> Throw (SimulationException e) C | Inr v \<Rightarrow> f v)
     = access C a (f (memory_at C a))"
  by (auto simp: read32_eq access_def in_memory_def in_bounds_def mod_4_eq_0 memory_at_def Let_def word_at)

lemma put_memory_eq:
  "Memory (put_memory a v C) = (Memory C)\<lparr>Bytes := storeBytes (unat a) (encodeLittleEndianWord False v) (Bytes (Memory C))\<rparr>"
  by (simp add: put_memory_def encodeLittleEndianWord_eq Let_def numeral_3_eq_3)

lemma write_access:
  "(case write32 (Memory C) a v of Inl e \<Rightarrow> Throw (SimulationException e) C | Inr m \<Rightarrow> f m)
     = access C a (f (markCodeDirty (Memory (put_memory a v C)) a 4))"
  by (auto simp: write32_eq access_def in_memory_def in_bounds_def mod_4_eq_0 put_memory_eq)

lemma write_access_second:
  "(case write32 m a v of Inl e \<Rightarrow> Throw (SimulationException e) (C\<lparr>Memory := m\<rparr>) | Inr m \<Rightarrow> f m)
     = access (C\<lparr>Memory := m\<rparr>) a (f (markCodeDirty (Memory (put_memory a v (C\<lparr>Memory := m\<rparr>))) a 4))"
  using write_access [where C = "C\<lparr>Memory := m\<rparr>"] by simp

text \<open>The register and memory updates of the code and of the pages.\<close>

lemma registers:
  "reg (Cpu C) (Reg r) = xreg C (unat r)"
  "C\<lparr>Cpu := advance (set_reg (Reg r) v (Cpu C))\<rparr> = next_PC (put_xreg (unat r) v C)"
  "C\<lparr>Cpu := advance (Cpu C)\<rparr> = next_PC C" "C\<lparr>Cpu := (Cpu C)\<lparr>PC := a\<rparr>\<rparr> = put_PC a C"
  by (simp_all add: reg_def xreg_def set_reg_def advance_def next_PC_def put_xreg_def put_PC_def)

lemma arch_access: "map_outcome arch (access C a r) = access (arch C) a (map_outcome arch r)"
  by (simp add: access_def in_memory_def)

lemma arch_put:
  "arch (next_PC C) = next_PC (arch C)" "arch (put_xreg n v C) = put_xreg n v (arch C)"
  "arch (put_PC a C) = put_PC a (arch C)" "arch (put_memory a v C) = put_memory a v (arch C)"
  "xreg (arch C) = xreg C" "memory_at (arch C) = memory_at C"
  by (simp_all add: next_PC_def put_PC_def put_xreg_def put_memory_def xreg_def memory_at_def fun_eq_iff)

lemma arch_marked:
  "arch (C\<lparr>Memory := markCodeDirty (Memory (put_memory a v C)) b n\<rparr>) = put_memory a v (arch C)"
  by (simp add: put_memory_def)

lemma arch_stored:
  "arch (C\<lparr>Memory := markCodeDirty (Memory (put_memory a v C)) b n, Cpu := advance (Cpu C)\<rparr>)
     = next_PC (put_memory a v (arch C))"
  by (simp add: put_memory_def next_PC_def put_PC_def advance_def)

lemma arch_stored_second:
  "arch (C\<lparr>Memory := markCodeDirty (Memory (put_memory a v (C\<lparr>Memory := m\<rparr>))) b n, Cpu := advance (Cpu C)\<rparr>)
     = next_PC (put_memory a v (arch (C\<lparr>Memory := m\<rparr>)))"
  by (simp add: put_memory_def next_PC_def put_PC_def advance_def)

lemma arch_flushed: "arch (flushInstructionCache C) = arch C"
  by (simp add: flushInstructionCache_def takeDirtyCodeRanges_def)

section \<open>Every page describes what the code does\<close>

definition describes :: "'w Host \<Rightarrow> 'w effect \<Rightarrow> (u32 \<Rightarrow> TIInstruction) \<Rightarrow> bool" where
  "describes H page handler \<longleftrightarrow> (\<forall>C w h. map_outcome arch (executeInstructionSwitch H C ((handler w)\<lparr>ThreadedHandler := h\<rparr>))
     = map_outcome arch (page C w))"

lemmas executed =
  describes_def executeInstructionSwitch_def decode_function_defs instr_def execute_defs Let_def
  registers unat_extractBits immediates times_4

lemma describes_st: "describes H emulated_ST decodeSt"
  by (simp add: executed emulated_ST_def write_access arch_access arch_put arch_stored del: arch_updates)

lemma describes_addi: "describes H page_ADDI decodeAddi"
  by (simp add: executed page_ADDI_def)

lemma describes_or: "describes H page_OR decodeOr"
  by (simp add: executed page_OR_def)

lemma describes_ld_register: "describes H emulated_LD_register decodeLdReg"
  by (simp add: executed emulated_LD_register_def read_access)

lemma describes_j: "describes H page_J decodeJ"
  by (simp add: executed page_J_def flip: unat_extractBits)

lemma describes_beq: "describes H page_BEQ decodeBeq"
  by (simp add: executed page_BEQ_def)

lemma describes_clz: "describes H page_CLZ decodeClz"
  by (simp add: executed page_CLZ_def countLeadingZeros_eq)

lemma describes_ssat: "describes H emulated_SSAT decodeSsat"
  by (simp add: executed emulated_SSAT_def saturate_field)

lemma describes_ld: "describes H emulated_LD decodeLdImm"
  by (simp add: executed emulated_LD_def read_access)

lemma describes_add: "describes H page_ADD decodeAdd"
  by (simp add: executed page_ADD_def)

lemma describes_syscall: "describes H (\<lambda>C w. executeSyscall H C (instr OP_SYSCALL [])) decodeSyscall"
  by (simp add: executed executeSyscall_def)

lemma describes_bext: "describes H page_BEXT decodeBext"
  by (simp add: executed page_BEXT_def compressBits_eq)

lemma describes_li: "describes H page_LI decodeLi"
  by (simp add: executed page_LI_def)

lemma describes_rori: "describes H page_RORI decodeRori"
  by (simp add: executed page_RORI_def rotate_field)

lemma describes_stp: "describes H emulated_STP decodeStp"
  by (simp add: executed emulated_STP_def write_access write_access_second arch_access arch_put
      arch_marked arch_stored_second del: arch_updates)

lemma describes_flush: "describes H page_NOP decodeFlush"
  by (simp add: executed page_NOP_def arch_flushed arch_put)

text \<open>A table of the decoder against a list of pages: the same words, the same effect.\<close>

definition documents :: "'w Host \<Rightarrow> format \<times> 'w effect \<Rightarrow> DecodeInfo \<Rightarrow> bool" where
  "documents H p i \<longleftrightarrow> (\<forall>w. w AND Mask i = Reference i \<longleftrightarrow> fits w (fst p)) \<and> describes H (snd p) (Handler i)"

lemma documentsI:
  "(\<And>w. w AND m = r \<longleftrightarrow> fits w format) \<Longrightarrow> describes H page h \<Longrightarrow> documents H (format, page) (info opc m r h)"
  by (simp add: documents_def info_def)

lemma documented_search:
  "list_all2 (documents H) pages table \<Longrightarrow>
     map_outcome arch (executeInstructionSwitch H C (decode_search table w)) = map_outcome arch (perform pages C w)"
proof (induction pages table rule: list_all2_induct)
  case Nil
  then show ?case by (simp add: executeInstructionSwitch_def executeInvalid_def)
next
  case (Cons p pages i table)
  then show ?case by (cases p) (simp add: documents_def describes_def Let_def)
qed

lemma table_documented: "list_all2 (documents H) (emulated_pages H) DecodeVector"
  unfolding emulated_pages_def DecodeVector_def
  by (intro list_all2_Cons [THEN iffD2] conjI list_all2_Nil [THEN iffD2] refl documentsI
      fits_st fits_addi fits_or fits_ld_reg fits_j fits_beq fits_clz fits_ssat fits_ld fits_add
      fits_syscall fits_bext fits_li fits_rori fits_stp fits_flush
      describes_st describes_addi describes_or describes_ld_register describes_j describes_beq
      describes_clz describes_ssat describes_ld describes_add describes_syscall describes_bext
      describes_li describes_rori describes_stp describes_flush)

section \<open>The order of the code and the order of the manual\<close>

lemma fits_nop: "fits w format_NOP \<longleftrightarrow> w = 0"
  using unat_u32_less [of w] by (simp add: bits_def unat_eq_0)

lemma next_word_aligned: "(a :: u32) mod 4 = 0 \<Longrightarrow> (a + 4) mod 4 = 0"
  by (simp add: mod_4_eq_0 aligned_def unat_word_ariths mod_mod_cancel)

lemma in_memory_stored [simp]: "in_memory (put_memory a v C) b = in_memory C b"
  by (simp add: in_memory_def put_memory_def Let_def)

lemmas manual_simps =
  implemented_def strays_def access_address_def manual_def unsaid_def emulated_pages_def fits_nop Let_def
  access_def raise_unless_aligned_def
  page_ST_def page_LD_register_def page_LD_def page_STP_def page_SSAT_def page_SYSCALL_def page_NOP_def
  emulated_ST_def emulated_LD_register_def emulated_LD_def emulated_STP_def emulated_SSAT_def

lemma perform_implemented: "perform (emulated_pages H) C w = implemented H C w"
proof (cases "w = 0")
  case True
  then show ?thesis by (simp add: implemented_def emulated_pages_def bits_def)
next
  case False
  then have nop: "bits w 31 0 \<noteq> 0" using fits_nop [of w] by simp
  consider "\<exists>f \<in> {format_ST, format_ADDI, format_OR, format_LD_register, format_J, format_BEQ, format_CLZ,
      format_SSAT, format_LD, format_ADD, format_SYSCALL, format_BEXT, format_LI, format_RORI, format_FLUSH}. fits w f"
    | "fits w format_STP"
    | "\<forall>f \<in> set (map fst (emulated_pages H)). \<not> fits w f"
    unfolding emulated_pages_def by (simp del: fits.simps) blast
  then show ?thesis
  proof cases
    case 1
    then show ?thesis
      by (elim bexE insertE emptyE; clarsimp simp: False nop manual_simps)
  next
    case 2
    then show ?thesis
      using next_word_aligned [of "xreg C (bits w 25 21) + sbits w 10"] by (simp add: False nop manual_simps)
  next
    case 3
    then show ?thesis by (simp add: False manual_simps del: fits.simps)
  qed
qed

lemma decoded_effect:
  "map_outcome arch (executeInstructionSwitch H C (decode w)) = map_outcome arch (implemented H C w)"
  using documented_search [OF table_documented] by (simp add: decode_def perform_implemented)

section \<open>Properties\<close>

text \<open>C5. Decoding and executing any word, with any operands, has exactly the effect its page of the
  manual gives it on registers, program counter and memory, and raises MisalignedAccess where the page
  does, with two deviations: the all-zero word, NOP in the manual, is an invalid instruction, and an
  access at an address that is misaligned and outside the memory is reported as out of bounds. Where
  the manual gives no effect the code does what \<open>unsaid\<close> says: an error for an aligned access outside
  the memory, for SSAT to 0 bits and for words that are no instruction, a step for FLUSH, and the
  emulated call for SYSCALL.\<close>

theorem code_follows_the_manual:
  "map_outcome arch (executeInstructionSwitch H C (decode w)) = map_outcome arch
     (if w = 0 then Throw (SimulationException INVALID_INSTRUCTION) C
      else if strays C w then Throw (SimulationException MEMORY_OUT_OF_BOUNDS) C
      else case consult manual C w of
          Some r \<Rightarrow> r
        | None \<Rightarrow> unsaid H C w)"
  by (simp only: decoded_effect implemented_def)

end
