(* ===== verification/IsaSpec.thy ===== *)
theory IsaSpec
  imports JitRefinement Manual
begin

text \<open>
  The instruction set as a programmer sees it: fetch the word at the program counter and do what
  the manual says, or \<open>unsaid\<close> where it says nothing, with the deviations of \<open>implemented\<close>; no blocks,
  no cache, no dirty ranges. \<open>FlushDiscipline\<close> says for which guest programs the engines implement it.
\<close>

section \<open>The machine\<close>

lemma arch_catch:
  "map_outcome arch (catchSimulationException r) = catchSimulationException (map_outcome arch r)"
  by (cases r rule: catchSimulationException.cases) simp_all

text \<open>
  Fetching is the code's own rule (the manual has none): a word outside the memory is out of bounds,
  and otherwise a misaligned one a misaligned access; both leave the status as it is. The exception
  of an instruction faults the machine.
\<close>

definition isa_step :: "'w Host \<Rightarrow> 'w ExecutionContext \<Rightarrow> 'w ExecutionContext outcome" where
  "isa_step H C = access C (PC (Cpu C))
     (catchSimulationException (map_outcome arch (implemented H C (memory_at C (PC (Cpu C))))))"

text \<open>The machine and the code: fetching, decoding and executing one word.\<close>

lemma isa_step_eq:
  "isa_step H C =
     (case read32 (Memory C) (PC (Cpu C)) of
        Inl e \<Rightarrow> Throw (SimulationException e) C
      | Inr w \<Rightarrow> map_outcome arch (catchSimulationException (executeInstructionSwitch H C (decode w))))"
  unfolding isa_step_def read_access by (simp add: arch_catch decoded_effect)

text \<open>Steps of the machine while it is running, and how it ends.\<close>

inductive isa_path ::
  "'w Host \<Rightarrow> nat \<Rightarrow> 'w ExecutionContext \<Rightarrow> 'w ExecutionContext \<Rightarrow> bool"
  for H where
  isa_refl: "isa_path H 0 C C"
| isa_next: "Status (State C) = RUNNING \<Longrightarrow> isa_step H C = Done D \<Longrightarrow> isa_path H n D E
    \<Longrightarrow> isa_path H (Suc n) C E"

inductive_simps isa_path_0 [simp]: "isa_path H 0 C D"
inductive_simps isa_path_Suc: "isa_path H (Suc n) C D"

fun isa_final :: "'w Host \<Rightarrow> 'w ExecutionContext \<Rightarrow> 'w ExecutionContext outcome \<Rightarrow> bool" where
  "isa_final H C (Done D) \<longleftrightarrow> Status (State C) \<noteq> RUNNING \<and> D = C"
| "isa_final H C (Throw e D) \<longleftrightarrow> Status (State C) = RUNNING \<and> isa_step H C = Throw e D"
| "isa_final H C Stuck \<longleftrightarrow> False"

definition isa_ends :: "'w Host \<Rightarrow> 'w ExecutionContext \<Rightarrow> 'w ExecutionContext outcome \<Rightarrow> bool" where
  "isa_ends H C r \<longleftrightarrow> (\<exists>n D. isa_path H n C D \<and> isa_final H D r)"

lemma isa_path_append: "isa_path H n C D \<Longrightarrow> isa_path H m D E \<Longrightarrow> isa_path H (n + m) C E"
  by (induction rule: isa_path.induct) (auto intro: isa_path.intros)

lemma isa_path_split:
  "isa_path H k A B \<Longrightarrow> isa_path H n A D \<Longrightarrow> isa_final H D r \<Longrightarrow> k \<le> n \<and> isa_path H (n - k) B D"
proof (induction arbitrary: n rule: isa_path.induct)
  case (isa_next C C1 k E)
  then obtain m where "n = Suc m" "isa_path H m C1 D"
    by (cases n; cases r) (auto simp: isa_path_Suc)
  then show ?case using isa_next.IH isa_next.prems by simp
qed simp

lemma isa_final_unique: "isa_final H C r \<Longrightarrow> isa_final H C r' \<Longrightarrow> r = r'"
  by (cases r; cases r') auto

lemma isa_ends_unique: "isa_ends H C r \<Longrightarrow> isa_ends H C r' \<Longrightarrow> r = r'"
proof -
  assume "isa_ends H C r" "isa_ends H C r'"
  then obtain n D n' D' where p: "isa_path H n C D" "isa_final H D r" "isa_path H n' C D'" "isa_final H D' r'"
    by (auto simp: isa_ends_def)
  then have "n \<le> n'" "n' \<le> n" "isa_path H (n' - n) D D'"
    using isa_path_split [OF p(1,3,4)] isa_path_split [OF p(3,1,2)] by blast+
  then have "D' = D" by simp
  then show "r = r'" using isa_final_unique p(2,4) by blast
qed

lemma isa_ends_path: "isa_path H n C D \<Longrightarrow> isa_ends H D r \<Longrightarrow> isa_ends H C r"
  unfolding isa_ends_def by (blast intro: isa_path_append)

section \<open>Steps of the engines and of the machine\<close>

lemma isa_step_arch:
  assumes "read32 (Memory C) (PC (Cpu C)) = Inr w"
  shows "isa_step H (arch C) = map_outcome arch (catchSimulationException (executeInstructionSwitch H C (decode w)))"
  using assms by (simp add: isa_step_eq arch_catch arch_switch)

lemma isa_throws_here:
  assumes "Status (State C) = RUNNING"
    "isa_step H (arch C) = map_outcome arch (catchSimulationException (Throw e D))"
  shows "\<exists>n E. isa_path H n (arch C) E
    \<and> isa_final H E (map_outcome arch (catchSimulationException (Throw e D)))"
proof (intro exI conjI)
  show "isa_path H 0 (arch C) (arch C)" by simp
  show "isa_final H (arch C) (map_outcome arch (catchSimulationException (Throw e D)))"
    using assms by (cases e) simp_all
qed

lemma isa_ends_throw: "isa_path H n C E \<Longrightarrow> isa_final H E r \<Longrightarrow> isa_ends H C r"
  unfolding isa_ends_def by blast

text \<open>A lookup changes the code of its own address only.\<close>

lemma getBlock_other:
  assumes "cache_ok (length (Bytes m)) c" "getBlock c a m = Some (Done c')" "validCode c' k = Some ins" "k \<noteq> a"
  shows "validCode c k = Some ins"
  using assms(1)
proof (cases rule: getBlock_cases [where a = a])
  case (hit b)
  then show ?thesis using assms by simp
next
  case (error e c0)
  then show ?thesis using assms by simp
next
  case (decoded c0 ins')
  then show ?thesis using assms by (auto simp: validCode_def split: option.splits if_splits)
qed

lemma step_returns:
  assumes "run_ok C" "Mode C \<noteq> JIT"
  shows "\<exists>q. step L H C = Some q"
  using assms(1)
proof (cases rule: getBlock_run_ok)
  case (block c b)
  then show ?thesis using assms(2) by (cases "Mode C") (simp_all add: step_def executeBlock_def)
qed (simp add: step_def)

text \<open>The program of one exit system call ends in one step.\<close>

lemma isa_step_exit:
  "isa_step H (arch (exit_context SWITCH)) =
     Done (arch ((exit_context SWITCH)\<lparr>State := \<lparr>Status = HALTED, ExitCode = 42\<rparr>\<rparr>))"
proof -
  have r: "read32 (Memory (exit_context SWITCH)) (PC (Cpu (exit_context SWITCH))) = Inr 0x1E"
    by (simp add: exit_context_start read32_exit)
  have "Registers (Cpu (exit_context SWITCH)) ! 8 = 60" "Registers (Cpu (exit_context SWITCH)) ! 0 = 42"
    by (simp_all add: exit_context_def)
  then have "executeInstructionSwitch H (exit_context SWITCH) (decode 0x1E) =
      Done ((exit_context SWITCH)\<lparr>State := \<lparr>Status = HALTED, ExitCode = 42\<rparr>\<rparr>)"
    by (simp add: executeInstructionSwitch_def decode_exit executeSyscall_def Handlers_def
        READ_NUMBER_SYSCALL_def halt_def put_sys_def)
  then show ?thesis using isa_step_arch [OF r, of H] by simp
qed

end
