(* ===== verification/FlushDiscipline.thy ===== *)
theory FlushDiscipline
  imports IsaSpec
begin

text \<open>
  Self-modifying programs. A store log beside the machine says which bytes a program has changed
  since the FLUSH that covers them; a program that never executes such a byte gets from the
  engines, with their blocks and their cache, exactly the instruction set.
\<close>

section \<open>The store log\<close>

text \<open>
  \<open>Stale\<close> are the bytes whose change no FLUSH has published yet. FLUSH publishes what store
  instructions changed inside the executable regions, which is \<open>Recorded\<close>. What a read system call
  changed, or what lies outside the executable regions, is never published.
\<close>

record store_log =
  Stale :: "nat set"
  Recorded :: "nat set"

definition empty_log :: store_log where
  "empty_log = \<lparr>Stale = {}, Recorded = {}\<rparr>"

definition changed :: "'w ExecutionContext \<Rightarrow> 'w ExecutionContext \<Rightarrow> nat set" where
  "changed C D = {k. k < length (Bytes (Memory C)) \<and> Bytes (Memory D) ! k \<noteq> Bytes (Memory C) ! k}"

definition track ::
  "TIInstruction \<Rightarrow> 'w ExecutionContext \<Rightarrow> 'w ExecutionContext \<Rightarrow> store_log \<Rightarrow> store_log" where
  "track i C D g =
     (if OpCode i = OP_FLUSH then \<lparr>Stale = Stale g - Recorded g, Recorded = {}\<rparr>
      else \<lparr>Stale = Stale g \<union> changed C D,
            Recorded = Recorded g \<union>
              (if OpCode i = OP_SYSCALL then {} else changed C D \<inter> executable_bytes (Memory C))\<rparr>)"

inductive isa_trace ::
  "'w Host \<Rightarrow> nat \<Rightarrow> 'w ExecutionContext \<Rightarrow> store_log \<Rightarrow> 'w ExecutionContext \<Rightarrow> store_log \<Rightarrow> bool"
  for H where
  trace_refl: "isa_trace H 0 C g C g"
| trace_next: "Status (State C) = RUNNING \<Longrightarrow> read32 (Memory C) (PC (Cpu C)) = Inr w
    \<Longrightarrow> isa_step H C = Done D \<Longrightarrow> isa_trace H n D (track (decode w) C D g) E g'
    \<Longrightarrow> isa_trace H (Suc n) C g E g'"

inductive_simps isa_trace_0 [simp]: "isa_trace H 0 C g D g'"
inductive_simps isa_trace_Suc: "isa_trace H (Suc n) C g D g'"

lemma isa_trace_path: "isa_trace H n C g D g' \<Longrightarrow> isa_path H n C D"
  by (induction rule: isa_trace.induct) (auto intro: isa_path.intros)

lemma isa_trace_append:
  "isa_trace H n C g D g' \<Longrightarrow> isa_trace H m D g' E g'' \<Longrightarrow> isa_trace H (n + m) C g E g''"
  by (induction rule: isa_trace.induct) (auto intro: isa_trace.intros)

text \<open>The discipline: no word that is fetched has a stale byte.\<close>

definition flushes_code :: "'w Host \<Rightarrow> 'w ExecutionContext \<Rightarrow> store_log \<Rightarrow> bool" where
  "flushes_code H C g \<longleftrightarrow> (\<forall>n D g' w. isa_trace H n C g D g' \<longrightarrow> Status (State D) = RUNNING \<longrightarrow>
     read32 (Memory D) (PC (Cpu D)) = Inr w \<longrightarrow>
     {unat (PC (Cpu D)) ..< unat (PC (Cpu D)) + 4} \<inter> Stale g' = {})"

lemma flushes_codeD:
  assumes "flushes_code H C g" "Status (State C) = RUNNING" "read32 (Memory C) (PC (Cpu C)) = Inr w"
  shows "{unat (PC (Cpu C)) ..< unat (PC (Cpu C)) + 4} \<inter> Stale g = {}"
  using assms trace_refl [of H C g] unfolding flushes_code_def by blast

lemma flushes_code_trace:
  assumes "flushes_code H C g" "isa_trace H n C g D g'"
  shows "flushes_code H D g'"
  unfolding flushes_code_def
proof (intro allI impI)
  fix m E g'' w
  assume "isa_trace H m D g' E g''" "Status (State E) = RUNNING" "read32 (Memory E) (PC (Cpu E)) = Inr w"
  then show "{unat (PC (Cpu E)) ..< unat (PC (Cpu E)) + 4} \<inter> Stale g'' = {}"
    using assms(1) isa_trace_append [OF assms(2)] unfolding flushes_code_def by blast
qed

text \<open>An invariant of machine and log shows that a program follows the discipline.\<close>

lemma flushes_codeI:
  assumes "P C g"
    and "\<And>D h w E. P D h \<Longrightarrow> Status (State D) = RUNNING \<Longrightarrow> read32 (Memory D) (PC (Cpu D)) = Inr w
      \<Longrightarrow> isa_step H D = Done E \<Longrightarrow> P E (track (decode w) D E h)"
    and "\<And>D h. P D h \<Longrightarrow> Status (State D) = RUNNING \<Longrightarrow>
      {unat (PC (Cpu D)) ..< unat (PC (Cpu D)) + 4} \<inter> Stale h = {}"
  shows "flushes_code H C g"
proof -
  have "P D g'" if "isa_trace H n C' h D g'" "P C' h" for n C' h D g'
    using that by (induction rule: isa_trace.induct) (auto intro: assms(2))
  then show ?thesis unfolding flushes_code_def using assms(1,3) by blast
qed

text \<open>A program that never changes a byte it executes needs no FLUSH.\<close>

lemma unmodified_flushes_code:
  assumes "\<And>n D. isa_path H n C D \<Longrightarrow> (\<forall>k \<in> X. Bytes (Memory D) ! k = Bytes (Memory C) ! k)
      \<and> (Status (State D) = RUNNING \<longrightarrow> {unat (PC (Cpu D)) ..< unat (PC (Cpu D)) + 4} \<subseteq> X)"
  shows "flushes_code H C empty_log"
proof (rule flushes_codeI [where P = "\<lambda>D h. (\<exists>n. isa_path H n C D) \<and> Stale h \<inter> X = {}"])
  show "(\<exists>n. isa_path H n C C) \<and> Stale empty_log \<inter> X = {}"
    by (auto simp: empty_log_def intro: exI [of _ 0])
next
  fix D E and h :: store_log and w
  assume P: "(\<exists>n. isa_path H n C D) \<and> Stale h \<inter> X = {}"
    and s: "Status (State D) = RUNNING" "isa_step H D = Done E"
  then obtain n where n: "isa_path H n C D" by blast
  then have E: "isa_path H (n + 1) C E" using s by (intro isa_path_append) (simp_all add: isa_path_Suc)
  have "changed D E \<inter> X = {}" using assms [OF n] assms [OF E] by (auto simp: changed_def)
  then show "(\<exists>n. isa_path H n C E) \<and> Stale (track (decode w) D E h) \<inter> X = {}"
    using P E by (auto simp: track_def)
next
  fix D and h :: store_log
  assume P: "(\<exists>n. isa_path H n C D) \<and> Stale h \<inter> X = {}" and s: "Status (State D) = RUNNING"
  then obtain n where n: "isa_path H n C D" by blast
  then show "{unat (PC (Cpu D)) ..< unat (PC (Cpu D)) + 4} \<inter> Stale h = {}"
    using assms [OF n] P s by blast
qed

section \<open>Stores are recorded\<close>

text \<open>Every byte of the executable regions that a change of memory alters is recorded as dirty.\<close>

definition records :: "TIMemory \<Rightarrow> TIMemory \<Rightarrow> bool" where
  "records m m' \<longleftrightarrow> length (Bytes m') = length (Bytes m) \<and> executable_bytes m' = executable_bytes m
     \<and> dirty_bytes m \<subseteq> dirty_bytes m'
     \<and> (\<forall>k < length (Bytes m). k \<in> executable_bytes m \<longrightarrow> Bytes m' ! k \<noteq> Bytes m ! k \<longrightarrow> k \<in> dirty_bytes m')"

lemma records_refl [simp]: "records m m"
  by (simp add: records_def)

lemma records_trans: "records m m1 \<Longrightarrow> records m1 m2 \<Longrightarrow> records m m2"
  unfolding records_def by (metis subsetD subset_trans)

lemma write32_records: "write32 m a v = Inr m' \<Longrightarrow> records m m'"
  using write32_frame [of m a v m'] write32_dirty_mono [of m a v m'] write32_marks_dirty [of m a v m']
  by (auto simp: records_def executable_bytes_def)

lemma switch_records:
  assumes "OpCode i \<noteq> OP_FLUSH" "OpCode i \<noteq> OP_SYSCALL"
  shows "holds_in (\<lambda>D. records (Memory C) (Memory D)) (executeInstructionSwitch H C i)"
  using switch_opcode_cases [of H C i] assms
  by (elim disjE conjE)
    (auto simp: execute_defs Let_def split: sum.split dest: write32_records intro: records_trans)

text \<open>A system call records nothing.\<close>

lemma syscall_dirty:
  "holds_in (\<lambda>D. DirtyCodeRanges (Memory D) = DirtyCodeRanges (Memory C)) (executeSyscall H C i)"
  by (rule executeSyscall_holds) (auto simp: sys_frame_def put_sys_def)

section \<open>Cached code and the log\<close>

text \<open>Cached instructions agree with the memory where no byte is stale.\<close>

fun agrees :: "TIMemory \<Rightarrow> nat set \<Rightarrow> u32 \<Rightarrow> TIInstruction list \<Rightarrow> bool" where
  "agrees m S a [] = True"
| "agrees m S a (i # is) =
     (({unat a ..< unat a + 4} \<inter> S = {} \<longrightarrow> (case read32 m a of Inl _ \<Rightarrow> False | Inr w \<Rightarrow> i = decode w))
      \<and> agrees m S (a + 4) is)"

lemma agrees_decoded: "decoded_at m a ins \<Longrightarrow> agrees m S a ins"
  by (induction ins arbitrary: a) simp_all

lemma agrees_step:
  assumes "agrees m S a ins" "length (Bytes m') = length (Bytes m)" "unat a + 4 * length ins < 2 ^ 32"
    and "\<And>k. k \<in> code_bytes a ins \<Longrightarrow> k \<notin> S' \<Longrightarrow> k \<notin> S \<and> Bytes m' ! k = Bytes m ! k"
  shows "agrees m' S' a ins"
  using assms(1,3,4)
proof (induction ins arbitrary: a)
  case (Cons i ins)
  have a4: "unat (a + 4) = unat a + 4" using Cons.prems(2) by (intro unat_plus_4) simp
  have "agrees m' S' (a + 4) ins"
    using Cons.prems a4 by (intro Cons.IH) (auto simp: code_bytes_def)
  moreover have "{unat a ..< unat a + 4} \<inter> S = {} \<and> read32 m' a = read32 m a"
    if "{unat a ..< unat a + 4} \<inter> S' = {}"
  proof -
    have "k \<notin> S \<and> Bytes m' ! k = Bytes m ! k" if "unat a \<le> k" "k < unat a + 4" for k
    proof (rule Cons.prems(3))
      show "k \<in> code_bytes a (i # ins)" using that by (simp add: code_bytes_def)
      have "k \<in> {unat a ..< unat a + 4}" using that by simp
      then show "k \<notin> S'" using \<open>{unat a ..< unat a + 4} \<inter> S' = {}\<close> by blast
    qed
    then show ?thesis using read32_cong [OF assms(2), of a] by auto
  qed
  ultimately show ?case using Cons.prems(1) by simp
qed simp

definition in_sync :: "'w ExecutionContext \<Rightarrow> store_log \<Rightarrow> bool" where
  "in_sync C g \<longleftrightarrow> Recorded g \<subseteq> dirty_bytes (Memory C)
     \<and> (\<forall>a ins. validCode (BlockCache C) a = Some ins \<longrightarrow> agrees (Memory C) (Stale g) a ins)"

definition fresh :: "'w ExecutionContext \<Rightarrow> bool" where
  "fresh C \<longleftrightarrow> (\<forall>a ins. validCode (BlockCache C) a = Some ins \<longrightarrow> decoded_at (Memory C) a ins)"

lemma fresh_in_sync: "fresh C \<Longrightarrow> in_sync C empty_log"
  by (auto simp: fresh_def in_sync_def empty_log_def intro: agrees_decoded)

text \<open>FLUSH publishes: what stays in the cache has no recorded byte.\<close>

lemma in_sync_flush:
  assumes "ctx_ok C" "in_sync C g" "executeFlush C i = Done D" "OpCode i = OP_FLUSH"
  shows "in_sync D (track i C E g)"
  unfolding in_sync_def
proof (intro conjI allI impI)
  have D: "D = (flushInstructionCache C)\<lparr>Cpu := advance (Cpu C)\<rparr>"
    using assms(3) by (simp add: executeFlush_def Let_def)
  show "Recorded (track i C E g) \<subseteq> dirty_bytes (Memory D)" using assms(4) by (simp add: track_def)
  fix a ins assume "validCode (BlockCache D) a = Some ins"
  then have v: "validCode (BlockCache C) a = Some ins"
    "\<forall>r \<in> set (DirtyCodeRanges (Memory C)). code_bytes a ins \<inter> range_bytes r = {}"
    using bbcache.dropRanges_only [of "length (Bytes (Memory C))" "BlockCache C"
        "DirtyCodeRanges (Memory C)" a ins] assms(1) by (simp_all add: D ctx_ok_def)
  then have "code_bytes a ins \<inter> dirty_bytes (Memory C) = {}" by (auto simp: dirty_bytes_def)
  then have k: "k \<notin> Stale g" if "k \<in> code_bytes a ins" "k \<notin> Stale g - Recorded g" for k
    using that assms(2) unfolding in_sync_def by blast
  have agr: "agrees (Memory C) (Stale g) a ins" using assms(2) v(1) by (simp add: in_sync_def)
  have ext: "unat a + 4 * length ins < 2 ^ 32"
    using validCode_extent [of "length (Bytes (Memory C))" "BlockCache C" a ins] assms(1) v(1)
    by (simp add: ctx_ok_def)
  have same: "Bytes (Memory D) = Bytes (Memory C)" by (simp add: D)
  have "agrees (Memory D) (Stale g - Recorded g) a ins"
    by (rule agrees_step [OF agr _ ext]) (simp_all only: same k simp_thms)
  then show "agrees (Memory D) (Stale (track i C E g)) a ins" using assms(4) by (simp add: track_def)
qed

lemma agrees_changed:
  assumes "agrees (Memory C) (Stale g) a ins" "unat a + 4 * length ins \<le> length (Bytes (Memory C))"
    "length (Bytes (Memory C)) < 2 ^ 32" "length (Bytes (Memory D)) = length (Bytes (Memory C))"
    "OpCode i \<noteq> OP_FLUSH"
  shows "agrees (Memory D) (Stale (track i C D g)) a ins"
  using assms
  by (intro agrees_step [OF assms(1)]) (auto simp: track_def changed_def code_bytes_def)

lemma in_sync_instruction:
  assumes "ctx_ok C" "in_sync C g" "executeInstructionSwitch H C i = Done D"
  shows "in_sync D (track i C D g)"
proof (cases "OpCode i = OP_FLUSH")
  case True
  then show ?thesis using in_sync_flush [OF assms(1,2)] assms(3) by (simp add: executeInstructionSwitch_def)
next
  case False
  have c: "BlockCache D = BlockCache C" using switch_cache_frame [OF False, of C H] assms(3) by simp
  have len: "length (Bytes (Memory D)) = length (Bytes (Memory C))"
    using switch_instr_frame [of C H i] assms(3) by (simp add: instr_frame_def)
  have "Recorded (track i C D g) \<subseteq> dirty_bytes (Memory D)"
  proof (cases "OpCode i = OP_SYSCALL")
    case True
    then have "dirty_bytes (Memory D) = dirty_bytes (Memory C)"
      using syscall_dirty [of C H i] assms(3) by (simp add: executeInstructionSwitch_def dirty_bytes_def)
    then show ?thesis using True assms(2) by (simp add: track_def in_sync_def)
  next
    case no: False
    have "records (Memory C) (Memory D)" using switch_records [OF False no, of C H] assms(3) by simp
    then show ?thesis using False no assms(2) by (auto simp: track_def in_sync_def records_def changed_def)
  qed
  moreover have "agrees (Memory D) (Stale (track i C D g)) a ins" if "validCode (BlockCache D) a = Some ins" for a ins
    using that assms(1,2) c validCode_extent [of "length (Bytes (Memory C))" "BlockCache C" a ins]
    by (intro agrees_changed [OF _ _ _ len False]) (auto simp: in_sync_def ctx_ok_def)
  ultimately show ?thesis by (simp add: in_sync_def)
qed

section \<open>A block is its instructions\<close>

lemma track_arch [simp]: "track i (arch C) (arch D) g = track i C D g"
  by (simp add: track_def changed_def executable_bytes_def)

text \<open>
  At an instruction of a block in sync, the machine fetches the same instruction: the word is not
  stale, or the program would not follow the discipline.
\<close>

lemma fetch_here:
  assumes "agrees (Memory C) (Stale g) (PC (Cpu C)) (i # is)" "in_bounds (Memory C) (PC (Cpu C)) 4"
    "aligned (PC (Cpu C))" "flushes_code H (arch C) g" "Status (State C) = RUNNING"
  obtains w where "read32 (Memory C) (PC (Cpu C)) = Inr w" "i = decode w"
    "isa_step H (arch C) = map_outcome arch (catchSimulationException (executeInstructionSwitch H C i))"
proof -
  obtain w where w: "read32 (Memory C) (PC (Cpu C)) = Inr w" using read32_ok_iff assms(2,3) by blast
  have "{unat (PC (Cpu C)) ..< unat (PC (Cpu C)) + 4} \<inter> Stale g = {}"
    using flushes_codeD [OF assms(4)] assms(5) w by simp
  then have "i = decode w" using assms(1) w by simp
  then show ?thesis using that w isa_step_arch [OF w, of H] by simp
qed

lemma trace_one:
  assumes "read32 (Memory C) (PC (Cpu C)) = Inr w" "Status (State C) = RUNNING"
    "executeInstructionSwitch H C (decode w) = Done D"
  shows "isa_trace H 1 (arch C) g (arch D) (track (decode w) C D g)"
  using isa_step_arch [OF assms(1), of H] assms by (simp add: isa_trace_Suc)

lemma block_trace:
  assumes "block_shape ins" "agrees (Memory C) (Stale g) (PC (Cpu C)) ins" "aligned (PC (Cpu C))"
    "unat (PC (Cpu C)) + 4 * length ins \<le> length (Bytes (Memory C))"
    "ctx_ok C" "in_sync C g" "flushes_code H (arch C) g" "Status (State C) = RUNNING"
  shows "case executeSwitch_loop H C ins of
     Done D \<Rightarrow> \<exists>g'. isa_trace H (length ins) (arch C) g (arch D) g' \<and> in_sync D g'
   | Throw e D \<Rightarrow> \<exists>n E. isa_path H n (arch C) E \<and> isa_final H E
        (map_outcome arch (catchSimulationException (Throw e D)))
   | Stuck \<Rightarrow> False"
  using assms
proof (induction ins arbitrary: C g rule: block_shape.induct)
  case (2 i)
  have b: "in_bounds (Memory C) (PC (Cpu C)) 4"
    using 2(4,5) by (simp add: in_bounds_def ctx_ok_def cache_ok_def)
  from fetch_here [OF 2(2) b 2(3,7,8)] obtain w where f: "read32 (Memory C) (PC (Cpu C)) = Inr w" "i = decode w"
    "isa_step H (arch C) = map_outcome arch (catchSimulationException (executeInstructionSwitch H C i))" by metis
  show ?case
  proof (cases "executeInstructionSwitch H C i")
    case (Done D)
    then have "isa_trace H 1 (arch C) g (arch D) (track i C D g)" using trace_one [OF f(1) 2(8)] f(2) by simp
    then show ?thesis using in_sync_instruction [OF 2(5,6) Done] Done by auto
  next
    case (Throw e D)
    then show ?thesis using f(3) isa_throws_here [OF 2(8), of H e D] by simp
  qed (use switch_not_stuck in blast)
next
  case (3 i j "is")
  have n: "unat (PC (Cpu C)) + 4 * length (j # is) + 4 \<le> length (Bytes (Memory C))"
    "length (Bytes (Memory C)) < 2 ^ 32"
    using 3(5,6) by (simp_all add: ctx_ok_def cache_ok_def)
  then have b: "in_bounds (Memory C) (PC (Cpu C)) 4" by (simp add: in_bounds_def)
  from fetch_here [OF 3(3) b 3(4,8,9)] obtain w where f: "read32 (Memory C) (PC (Cpu C)) = Inr w" "i = decode w"
    "isa_step H (arch C) = map_outcome arch (catchSimulationException (executeInstructionSwitch H C i))" by metis
  have nb: "\<not> endsBlock (OpCode i)" "block_shape (j # is)" using 3(2) by simp_all
  show ?case
  proof (cases "executeInstructionSwitch H C i")
    case (Done D)
    have D: "State D = State C" "PC (Cpu D) = PC (Cpu C) + 4" "length (Bytes (Memory D)) = length (Bytes (Memory C))"
      using switch_state [OF nb(1), of C H] switch_pc(1) [OF nb(1) Done] switch_instr_frame [of C H i] Done
      by (simp_all add: instr_frame_def)
    have a4: "unat (PC (Cpu C) + 4) = unat (PC (Cpu C)) + 4" using n by (intro unat_plus_4) simp
    have al: "aligned (PC (Cpu D))" using aligned_plus_4 [OF 3(4)] n D(2) by simp
    let ?g = "track i C D g"
    have p: "isa_trace H 1 (arch C) g (arch D) ?g" using trace_one [OF f(1) 3(9)] f(2) Done by simp
    have "OpCode i \<noteq> OP_FLUSH" using nb(1) by auto
    then have "agrees (Memory D) (Stale ?g) (PC (Cpu D)) (j # is)"
      using 3(3) n D(3) by (intro agrees_changed) (simp_all add: D(2) a4)
    moreover have "ctx_ok D" using switch_ctx_ok [OF 3(6), of H i] Done by simp
    ultimately have "case executeSwitch_loop H D (j # is) of
       Done D' \<Rightarrow> \<exists>g'. isa_trace H (length (j # is)) (arch D) ?g (arch D') g' \<and> in_sync D' g'
     | Throw e D' \<Rightarrow> \<exists>n E. isa_path H n (arch D) E \<and> isa_final H E
          (map_outcome arch (catchSimulationException (Throw e D')))
     | Stuck \<Rightarrow> False"
      using 3(9) n D a4 al in_sync_instruction [OF 3(6,7) Done] flushes_code_trace [OF 3(8) p]
      by (intro 3(1) [OF nb(2)]) simp_all
    moreover have "executeSwitch_loop H C (i # j # is) = executeSwitch_loop H D (j # is)" using Done by simp
    moreover have "isa_trace H (length (i # j # is)) (arch C) g E g'"
      if "isa_trace H (length (j # is)) (arch D) ?g E g'" for E g'
      using isa_trace_append [OF p that] by simp
    ultimately show ?thesis using isa_path_append [OF isa_trace_path [OF p]]
      by (auto split: outcome.splits simp del: executeSwitch_loop.simps isa_final.simps) blast+
  next
    case (Throw e D)
    then show ?thesis using f(3) isa_throws_here [OF 3(9), of H e D] by simp
  qed (use switch_not_stuck in blast)
qed simp

section \<open>A step is a trace\<close>

lemma step_isa:
  assumes "run_ok C" "Mode C \<noteq> JIT" "Status (State C) = RUNNING" "in_sync C g"
    "flushes_code H (arch C) g" "step L H C = Some r"
  shows "case r of
     Done D \<Rightarrow> \<exists>k g'. isa_trace H (Suc k) (arch C) g (arch D) g' \<and> in_sync D g'
   | Throw e D \<Rightarrow> \<exists>n E. isa_path H n (arch C) E \<and> isa_final H E (Throw e (arch D))
   | Stuck \<Rightarrow> False"
  using assms(1)
proof (cases rule: getBlock_run_ok)
  case (error e c)
  then have "isa_step H (arch C) = Throw (SimulationException e) (arch C)" by (simp add: isa_step_eq)
  then have "isa_final H (arch C) (Throw (SimulationException e) (arch C))" using assms(3) by simp
  moreover have "r = Throw (SimulationException e) (C\<lparr>BlockCache := c\<rparr>)" using error assms(6) by (simp add: step_def)
  ultimately show ?thesis using isa_refl [of H "arch C"]
    by (simp del: isa_final.simps isa_path_0) blast
next
  case (block c b)
  let ?C = "C\<lparr>BlockCache := c\<rparr>" and ?ins = "Instructions b" and ?n = "length (Bytes (Memory C))"
  have r: "r = catchSimulationException (executeSwitch_loop H ?C ?ins)"
    using assms(2,6) block
    by (cases "Mode C") (simp_all add: step_def executeBlock_def threaded_eq_switch executeSwitchBlock_def)
  have ok: "cache_ok ?n (BlockCache C)" "cache_ok ?n c" "ctx_ok ?C"
    using assms(1) block(2) by (simp_all add: run_ok_def ctx_ok_def)
  have v: "validCode c (PC (Cpu C)) = Some ?ins" using block(3,4) by (simp add: validCode_def)
  have sync: "in_sync ?C g" unfolding in_sync_def
  proof (intro conjI allI impI)
    show "Recorded g \<subseteq> dirty_bytes (Memory ?C)" using assms(4) by (simp add: in_sync_def)
    fix a ins assume va: "validCode (BlockCache ?C) a = Some ins"
    then have "validCode (BlockCache C) a = Some ins \<or> decoded_at (Memory C) a ins"
      using bbcache.fetch_old [OF ok(1) block(1)] by simp
    then show "agrees (Memory ?C) (Stale g) a ins"
      using assms(4) by (auto simp: in_sync_def intro: agrees_decoded)
  qed
  have a: "aligned (PC (Cpu C))" "unat (PC (Cpu C)) + 4 * length ?ins \<le> ?n"
    using cache_okD [OF ok(2) block(3)] by (simp_all add: block_ok_def)
  have "agrees (Memory ?C) (Stale g) (PC (Cpu ?C)) ?ins" using sync v by (simp add: in_sync_def)
  then have isa: "case executeSwitch_loop H ?C ?ins of
     Done D \<Rightarrow> \<exists>g'. isa_trace H (length ?ins) (arch ?C) g (arch D) g' \<and> in_sync D g'
   | Throw e D \<Rightarrow> \<exists>n E. isa_path H n (arch ?C) E \<and> isa_final H E
        (map_outcome arch (catchSimulationException (Throw e D)))
   | Stuck \<Rightarrow> False"
    using a assms(3,5) sync ok(3) by (intro block_trace [OF block(5)]) simp_all
  obtain k where "length ?ins = Suc k" using block(5) by (cases ?ins) auto
  then show ?thesis using isa r
    by (cases "executeSwitch_loop H ?C ?ins"; cases "catchSimulationException (executeSwitch_loop H ?C ?ins)")
      (auto simp del: isa_final.simps elim: catchSimulationException.elims)
qed

section \<open>Runs\<close>

lemma run_isa:
  assumes "run_ok C" "Mode C \<noteq> JIT" "in_sync C g" "flushes_code H (arch C) g" "run L H C = Some r"
  shows "isa_ends H (arch C) (map_outcome arch r)"
proof -
  obtain n where "run_fuel n L H C = Some r" using assms(5) run_run_fuel by blast
  then show ?thesis using assms(1-4)
  proof (induction n arbitrary: C g)
    case (Suc n)
    show ?case
    proof (cases "Status (State C) = RUNNING")
      case False
      then have "isa_final H (arch C) (map_outcome arch r)" using Suc.prems(1) by auto
      then show ?thesis using isa_refl isa_ends_throw by blast
    next
      case True
      then obtain q where q: "step L H C = Some q" using Suc.prems(1) by (cases "step L H C") auto
      note s = step_isa [OF Suc.prems(2,3) True Suc.prems(4,5) q]
      show ?thesis
      proof (cases q)
        case (Done D)
        then obtain k g' where p: "isa_trace H (Suc k) (arch C) g (arch D) g'" "in_sync D g'" using s by auto
        have "run_ok D \<and> Mode D \<noteq> JIT" using plain_view.view_inv [of C L H D] Suc.prems q Done by simp
        then have "isa_ends H (arch D) (map_outcome arch r)"
          using Suc.IH [of D g'] Suc.prems(1,5) True q Done p flushes_code_trace [OF _ p(1)] by simp
        then show ?thesis using isa_ends_path [OF isa_trace_path [OF p(1)]] by blast
      next
        case (Throw e D)
        then show ?thesis using s Suc.prems(1) True q isa_ends_throw by fastforce
      qed (use s in simp)
    qed
  qed simp
qed

lemma run_isa_returns:
  assumes "run_ok C" "Mode C \<noteq> JIT" "in_sync C g" "flushes_code H (arch C) g" "isa_ends H (arch C) r'"
  shows "\<exists>r. run L H C = Some r"
proof -
  obtain n F where "isa_path H n (arch C) F" "isa_final H F r'" using assms(5) by (auto simp: isa_ends_def)
  then show ?thesis using assms(1-4)
  proof (induction n arbitrary: C g rule: less_induct)
    case (less n)
    show ?case
    proof (cases "Status (State C) = RUNNING")
      case False
      then show ?thesis by (simp add: run.simps)
    next
      case True
      obtain q where q: "step L H C = Some q" using step_returns [OF less.prems(3,4)] by blast
      note s = step_isa [OF less.prems(3,4) True less.prems(5,6) q]
      show ?thesis
      proof (cases q)
        case (Done D)
        then obtain k g' where p: "isa_trace H (Suc k) (arch C) g (arch D) g'" "in_sync D g'" using s by auto
        have "run_ok D \<and> Mode D \<noteq> JIT" using plain_view.view_inv [of C L H D] less.prems q Done by simp
        moreover have "isa_path H (n - Suc k) (arch D) F" "n - Suc k < n"
          using isa_path_split [OF isa_trace_path [OF p(1)] less.prems(1,2)] by auto
        ultimately have "\<exists>r. run L H D = Some r"
          using less.IH [of "n - Suc k" D g'] less.prems p flushes_code_trace [OF less.prems(6) p(1)] by blast
        then show ?thesis using True q Done by (simp add: run.simps [of L H C])
      qed (use True q in \<open>simp_all add: run.simps\<close>)
    qed
  qed
qed

section \<open>Properties\<close>

text \<open>C1. The interpreter implements the instruction set, for self-modifying programs too: when the
  program publishes changed code with FLUSH before it executes it, a run through blocks and cache, in
  switch or threaded mode, returns, throws or runs forever exactly as the machine that fetches and
  executes one word after the other, and ends with the same registers, program counter, memory,
  status and outside world. The machine does what the manual says but for the deviations C5 names
  (the all-zero word is invalid and not NOP, a misaligned address outside the memory is out of bounds)
  and, where the manual says nothing, what C5 says of the code (errors, FLUSH, SSAT to 0 bits, the
  system calls).\<close>

theorem interpreter_implements_the_isa:
  assumes "run_ok C" "Mode C \<noteq> JIT" "fresh C" "flushes_code H (arch C) empty_log"
  shows "isa_ends H (arch C) r' \<longleftrightarrow> (\<exists>r. run L H C = Some r \<and> r' = map_outcome arch r)"
proof
  note sync = fresh_in_sync [OF assms(3)]
  assume e: "isa_ends H (arch C) r'"
  then obtain r where r: "run L H C = Some r" using run_isa_returns [OF assms(1,2) sync assms(4)] by blast
  have "r' = map_outcome arch r" by (rule isa_ends_unique [OF e run_isa [OF assms(1,2) sync assms(4) r]])
  with r show "\<exists>r. run L H C = Some r \<and> r' = map_outcome arch r" by blast
next
  assume "\<exists>r. run L H C = Some r \<and> r' = map_outcome arch r"
  then show "isa_ends H (arch C) r'"
    using run_isa [OF assms(1,2) fresh_in_sync [OF assms(3)] assms(4)] by blast
qed

text \<open>
  A program that patches itself: it stores the word of SYSCALL over the INVALID at address 8,
  flushes, and runs into it. The four states it passes through.
\<close>

definition patching_context :: "TIExecutionMode \<Rightarrow> unit ExecutionContext" where
  "patching_context md = (ExecutionContext_new 12 md 0 0 ())\<lparr>
     Cpu := \<lparr>Registers = (replicate 32 0)[0 := 42, 1 := 8, 2 := 0x1E, 8 := 60], PC = 0\<rparr>,
     Memory := \<lparr>Bytes = [0, 0, 0x22, 0x80, 0, 0, 0, 0x98, 0, 0, 0, 0],
       ExecutableRegions = [\<lparr>Address = 0, Size = 12\<rparr>], DirtyCodeRanges = []\<rparr>\<rparr>"

definition patched_bytes :: "u8 list" where
  "patched_bytes = [0, 0, 0x22, 0x80, 0, 0, 0, 0x98, 0x1E, 0, 0, 0]"

definition patching_at :: "TIExecutionMode \<Rightarrow> u32 \<Rightarrow> TIExecutionState \<Rightarrow> unit ExecutionContext" where
  "patching_at md pc st = (patching_context md)\<lparr>
     Cpu := (Cpu (patching_context md))\<lparr>PC := pc\<rparr>, State := st,
     Memory := (Memory (patching_context md))\<lparr>Bytes := patched_bytes\<rparr>\<rparr>"

lemma decode_patching:
  "decode 0x80220000 = \<lparr>OpCode = OP_ST, Operands = [Reg 2, Reg 1, Imm 0], ThreadedHandler = Some threadedSt\<rparr>"
  "decode 0x98000000 = \<lparr>OpCode = OP_FLUSH, Operands = [], ThreadedHandler = Some threadedFlush\<rparr>"
  by (simp_all add: decode_def DecodeVector_def info_def decodeSt_def decodeFlush_def instr_def Let_def ti_bits
      decoder_extract_asserts take_bit_eq_mod drop_bit_eq_div signed_take_bit_eq_take_bit_minus bit_iff_odd)

abbreviation RUN :: TIExecutionState where
  "RUN \<equiv> \<lparr>Status = RUNNING, ExitCode = 0\<rparr>"

lemma patching_start:
  "State (patching_context md) = RUN" "PC (Cpu (patching_context md)) = 0"
  "BlockCache (patching_context md) = emptyCache" "Mode (patching_context md) = md"
  by (simp_all add: patching_context_def ExecutionContext_new_def TIExecutionState_new_def)

lemma patching_at_start [simp]:
  "State (patching_at md pc st) = st" "PC (Cpu (patching_at md pc st)) = pc"
  by (simp_all add: patching_at_def)

lemma patching_reads:
  "read32 (Memory (patching_context md)) 0 = Inr 0x80220000"
  "read32 (Memory (patching_at md pc st)) 4 = Inr 0x98000000"
  "read32 (Memory (patching_at md pc st)) 8 = Inr 0x1E"
  by (simp_all add: read32_eq in_bounds_def patching_context_def patching_at_def patched_bytes_def aligned_def
      decodeLittleEndianWord_eq word_of_bytes_def)

lemma patching_regs:
  "Registers (Cpu (patching_context md)) ! 1 = 8" "Registers (Cpu (patching_context md)) ! Suc 0 = 8"
  "Registers (Cpu (patching_context md)) ! 2 = 0x1E" "Registers (Cpu (patching_context md)) ! 8 = 60"
  "Registers (Cpu (patching_context md)) ! 0 = 42"
  by (simp_all add: patching_context_def)

lemma patching_store:
  "write32 (Memory (patching_context md)) 8 0x1E =
     Inr (markCodeDirty ((Memory (patching_context md))\<lparr>Bytes := patched_bytes\<rparr>) 8 4)"
  by (simp add: write32_eq in_bounds_def aligned_def patching_context_def patched_bytes_def
      encodeLittleEndianWord_eq)

lemma patching_steps:
  "isa_step H (arch (patching_context md)) = Done (arch (patching_at md 4 RUN))"
  "isa_step H (arch (patching_at md 4 RUN)) = Done (arch (patching_at md 8 RUN))"
  "isa_step H (arch (patching_at md 8 RUN)) = Done (arch (patching_at md 8 \<lparr>Status = HALTED, ExitCode = 42\<rparr>))"
proof -
  let ?A = "patching_context md" and ?B = "patching_at md 4 RUN" and ?D = "patching_at md 8 RUN"
  have r: "read32 (Memory ?A) (PC (Cpu ?A)) = Inr 0x80220000" "read32 (Memory ?B) (PC (Cpu ?B)) = Inr 0x98000000"
    "read32 (Memory ?D) (PC (Cpu ?D)) = Inr 0x1E"
    using patching_reads [of md] by (simp_all add: patching_start patching_at_def)
  have "map_outcome arch (executeInstructionSwitch H ?A (decode 0x80220000)) = Done (arch ?B)"
    using patching_store [of md]
    by (simp add: executeInstructionSwitch_def decode_patching executeSt_def Let_def reg_def patching_regs)
      (simp add: arch_def patching_at_def advance_def patching_start undirtied_def ExecutionContext_new_def
        patching_context_def TIExecutionState_new_def)
  then show "isa_step H (arch ?A) = Done (arch ?B)" 
    using isa_step_arch [OF r(1), of H] by (simp add: arch_catch)
  have "map_outcome arch (executeInstructionSwitch H ?B (decode 0x98000000)) = Done (arch ?D)"
    by (simp add: executeInstructionSwitch_def decode_patching executeFlush_def Let_def)
      (simp add: arch_def patching_at_def advance_def undirtied_def flushInstructionCache_def
        takeDirtyCodeRanges_def)
  then show "isa_step H (arch ?B) = Done (arch ?D)" 
    using isa_step_arch [OF r(2), of H] by (simp add: arch_catch)
  have "map_outcome arch (executeInstructionSwitch H ?D (decode 0x1E)) = Done (arch (patching_at md 8 \<lparr>Status = HALTED, ExitCode = 42\<rparr>))"
    by (simp add: executeInstructionSwitch_def decode_exit executeSyscall_def Handlers_def
        READ_NUMBER_SYSCALL_def halt_def put_sys_def patching_at_def patching_regs Let_def)
      (simp add: arch_def undirtied_def)
  then show "isa_step H (arch ?D) = Done (arch (patching_at md 8 \<lparr>Status = HALTED, ExitCode = 42\<rparr>))"
    using isa_step_arch [OF r(3), of H] by (simp add: arch_catch)
qed

lemma patching_flushes: "flushes_code H (arch (patching_context md)) empty_log"
proof (rule flushes_codeI [where P = "\<lambda>D h. D = arch (patching_context md) \<and> h = empty_log
    \<or> D = arch (patching_at md 4 RUN) \<and> Stale h = {8} \<and> Recorded h = {8}
    \<or> D = arch (patching_at md 8 RUN) \<and> Stale h = {}
    \<or> D = arch (patching_at md 8 \<lparr>Status = HALTED, ExitCode = 42\<rparr>)"])
  have ch: "changed (patching_context md) (patching_at md 4 RUN) = {8}"
  proof -
    have "Bytes (Memory (patching_at md 4 RUN)) = (Bytes (Memory (patching_context md))) [8 := 0x1E]"
      "length (Bytes (Memory (patching_context md))) = 12" "Bytes (Memory (patching_context md)) ! 8 = 0"
      by (simp_all add: patching_at_def patching_context_def patched_bytes_def)
    then show ?thesis by (auto simp: changed_def nth_list_update split: if_splits)
  qed
  have ex: "executable_bytes (Memory (patching_context md)) = {0..<12}"
    by (simp add: executable_bytes_def range_bytes_def patching_context_def)
  have first: "track (decode 0x80220000) (patching_context md) (patching_at md 4 RUN) empty_log
      = \<lparr>Stale = {8}, Recorded = {8}\<rparr>"
    by (simp add: track_def decode_patching ch ex empty_log_def)
  have second: "track (decode 0x98000000) A B h = \<lparr>Stale = Stale h - Recorded h, Recorded = {}\<rparr>"
    for A B :: "unit ExecutionContext" and h
    by (simp add: track_def decode_patching)
  note facts = patching_steps [of H md] patching_reads [of md] patching_start [of md]
  fix D E and h :: store_log and w
  assume "D = arch (patching_context md) \<and> h = empty_log
    \<or> D = arch (patching_at md 4 RUN) \<and> Stale h = {8} \<and> Recorded h = {8}
    \<or> D = arch (patching_at md 8 RUN) \<and> Stale h = {}
    \<or> D = arch (patching_at md 8 \<lparr>Status = HALTED, ExitCode = 42\<rparr>)"
    and "Status (State D) = RUNNING" "read32 (Memory D) (PC (Cpu D)) = Inr w" "isa_step H D = Done E"
  then consider "D = arch (patching_context md)" "h = empty_log" "w = 0x80220000" "E = arch (patching_at md 4 RUN)"
    | "D = arch (patching_at md 4 RUN)" "Stale h = {8}" "Recorded h = {8}" "w = 0x98000000"
      "E = arch (patching_at md 8 RUN)"
    | "D = arch (patching_at md 8 RUN)" "E = arch (patching_at md 8 \<lparr>Status = HALTED, ExitCode = 42\<rparr>)"
    using facts by (elim disjE conjE) auto
  then show "E = arch (patching_context md) \<and> track (decode w) D E h = empty_log
    \<or> E = arch (patching_at md 4 RUN) \<and> Stale (track (decode w) D E h) = {8} \<and> Recorded (track (decode w) D E h) = {8}
    \<or> E = arch (patching_at md 8 RUN) \<and> Stale (track (decode w) D E h) = {}
    \<or> E = arch (patching_at md 8 \<lparr>Status = HALTED, ExitCode = 42\<rparr>)"
    by cases (simp_all add: first second)
qed (auto simp: empty_log_def patching_start)

lemma patching_ends: "isa_ends H (arch (patching_context md))
    (Done (arch (patching_at md 8 \<lparr>Status = HALTED, ExitCode = 42\<rparr>)))"
proof -
  have "Status (State (patching_at md pc RUN)) = RUNNING" for pc by (simp add: patching_at_def)
  then have "isa_path H 3 (arch (patching_context md)) (arch (patching_at md 8 \<lparr>Status = HALTED, ExitCode = 42\<rparr>))"
    using patching_steps [of H md] patching_start [of md] by (simp add: numeral_3_eq_3 isa_path_Suc)
  then show ?thesis by (rule isa_ends_throw) (simp add: patching_at_def)
qed

lemma patching_context_ok: "run_ok (patching_context md)" "fresh (patching_context md)"
proof -
  have "length (Bytes (Memory (patching_context md))) = 12" "length (Registers (Cpu (patching_context md))) = 32"
    by (simp_all add: patching_context_def)
  then show "run_ok (patching_context md)"
    by (simp add: run_ok_def ctx_ok_def wf_cpu_def cache_ok_empty jit_ok_empty patching_start)
  show "fresh (patching_context md)" by (simp add: fresh_def validCode_def patching_start emptyCache_def)
qed

lemma interpreter_implements_the_isa_witness:
  "\<exists>D. run reference_lib silent_host (patching_context THREADED) = Some (Done D)
     \<and> State D = \<lparr>Status = HALTED, ExitCode = 42\<rparr> \<and> Bytes (Memory D) = patched_bytes"
proof -
  from interpreter_implements_the_isa [OF patching_context_ok(1) _ patching_context_ok(2) patching_flushes, of THREADED,
      THEN iffD1, OF _ patching_ends, of reference_lib]
  obtain r where r: "run reference_lib silent_host (patching_context THREADED) = Some r"
    "Done (arch (patching_at THREADED 8 \<lparr>Status = HALTED, ExitCode = 42\<rparr>)) = map_outcome arch r"
    by (auto simp: patching_start)
  then obtain D where D: "r = Done D" "arch D = arch (patching_at THREADED 8 \<lparr>Status = HALTED, ExitCode = 42\<rparr>)"
    by (cases r) auto
  have "State D = \<lparr>Status = HALTED, ExitCode = 42\<rparr>" "Bytes (Memory D) = patched_bytes"
    using arg_cong [OF D(2), of State] arg_cong [OF D(2), of "\<lambda>C. Bytes (Memory C)"] by (simp_all add: patching_at_def)
  with r D show ?thesis by blast
qed

end
