(* ===== verification/Loader.thy ===== *)
theory Loader
  imports SwitchView
begin

text \<open>
  \<open>loadSegment\<close> and \<open>loadBinary\<close> of \<open>execution_context.cpp\<close>. The ELF reader (\<open>ELFIO\<close>) is a
  parameter: a function from file names to what its accessors return, or failure. A load that
  throws keeps what was written to the memory before.
\<close>

section \<open>What the reader returns\<close>

record ElfSegment =
  get_segment_type :: u32
  get_flags :: u32
  get_virtual_address :: u64
  get_file_size :: u64
  get_memory_size :: u64
  get_data :: "u8 list"

record ElfFile =
  get_type :: "16 word"
  get_class :: u8
  get_encoding :: u8
  get_machine :: "16 word"
  get_entry :: u64
  elf_segments :: "ElfSegment list"

definition ET_EXEC :: "16 word" where [simp]: "ET_EXEC = 2"
definition ELFCLASS32 :: u8 where [simp]: "ELFCLASS32 = 1"
definition ELFDATA2LSB :: u8 where [simp]: "ELFDATA2LSB = 1"
definition PT_LOAD :: u32 where [simp]: "PT_LOAD = 1"
definition PF_X :: u32 where [simp]: "PF_X = 1"
definition PF_W :: u32 where [simp]: "PF_W = 2"
definition PF_R :: u32 where [simp]: "PF_R = 4"

text \<open>
  A segment's data is as long as its file size says. For a file that ends before its segments do the
  reader may have less, or nothing (\<open>get_data\<close> is then null, here \<open>[]\<close>): \<open>short_data\<close>.
\<close>

definition reader_ok :: "ElfFile \<Rightarrow> bool" where
  "reader_ok f \<longleftrightarrow> (\<forall>s \<in> set (elf_segments f). length (get_data s) = unat (get_file_size s))"

definition short_data :: "ElfSegment \<Rightarrow> bool" where
  "short_data s \<longleftrightarrow> length (get_data s) < unat (get_file_size s)"

section \<open>The operations\<close>

text \<open>Copying more bytes than there are has no meaning (\<open>Stuck\<close>).\<close>

definition loadSegment :: "ElfSegment \<Rightarrow> TIMemory \<Rightarrow> TIMemory outcome" where
  "loadSegment segment memory =
     (let addr = get_virtual_address segment;
          fileSize = get_file_size segment;
          memorySize = get_memory_size segment
      in if fileSize > memorySize
         then Throw (SimulationException INCORRECT_BINARY_FILE) memory
         else case writableRange memory (ucast addr) (unat memorySize) of
             Inl e \<Rightarrow> Throw (SimulationException e) memory
           | Inr rng \<Rightarrow>
               if fileSize \<noteq> 0 \<and> length (get_data segment) < unat fileSize then Stuck
               else
                 let memory1 = (if fileSize \<noteq> 0
                       then writeThrough memory rng 0 (take (unat fileSize) (get_data segment))
                       else memory);
                     memory2 = (if memorySize > fileSize
                       then writeThrough memory1 rng (unat fileSize)
                              (replicate (unat (memorySize - fileSize)) 0)
                       else memory1)
                 in Done memory2)"

fun loadSegments :: "ElfSegment list \<Rightarrow> TIMemory \<times> bool \<Rightarrow> (TIMemory \<times> bool) outcome" where
  "loadSegments [] (memory, hasExecutableSegment) = Done (memory, hasExecutableSegment)"
| "loadSegments (segment # rest) (memory, hasExecutableSegment) =
     (if get_segment_type segment \<noteq> PT_LOAD then loadSegments rest (memory, hasExecutableSegment)
      else
        let executable = (if get_flags segment AND PF_X \<noteq> 0 \<and> get_memory_size segment \<noteq> 0
              then if get_memory_size segment mod ucast INSTRUCTION_SIZE \<noteq> 0
                      \<or> get_virtual_address segment mod ucast INSTRUCTION_SIZE \<noteq> 0
                   then Throw (SimulationException INCORRECT_BINARY_FILE) (memory, hasExecutableSegment)
                   else case addExecutableRegion memory (ucast (get_virtual_address segment))
                               (unat (get_memory_size segment)) of
                          Inl e \<Rightarrow> Throw (SimulationException e) (memory, hasExecutableSegment)
                        | Inr memory1 \<Rightarrow> Done (memory1, True)
              else Done (memory, hasExecutableSegment))
        in andThen executable (\<lambda>(memory1, flag1).
             bind_outcome (loadSegment segment memory1)
               (\<lambda>memory2. loadSegments rest (memory2, flag1)) (\<lambda>memory2. (memory2, flag1))))"

definition loadBinary ::
  "(string \<Rightarrow> ElfFile option) \<Rightarrow> 'w ExecutionContext \<Rightarrow> string \<Rightarrow> u32 \<Rightarrow> 'w ExecutionContext outcome" where
  "loadBinary load C filename loadAddress =
     (if loadAddress \<noteq> 0 then Throw (SimulationException MISALIGNED_ACCESS) C
      else case load filename of
          None \<Rightarrow> Throw (SimulationException INCORRECT_BINARY_FILE) C
        | Some reader \<Rightarrow>
            if get_type reader \<noteq> ET_EXEC \<or> get_class reader \<noteq> ELFCLASS32
               \<or> get_encoding reader \<noteq> ELFDATA2LSB \<or> get_machine reader \<noteq> ELF_MACHINE
            then Throw (SimulationException INCORRECT_BINARY_FILE) C
            else bind_outcome (loadSegments (elf_segments reader) (Memory C, False))
              (\<lambda>(memory, hasExecutableSegment).
                 let C1 = C\<lparr>Memory := memory\<rparr>
                 in if \<not> hasExecutableSegment
                    then Throw (SimulationException INCORRECT_BINARY_FILE) C1
                    else Done (C1\<lparr>Cpu := (Cpu C1)\<lparr>PC := ucast (get_entry reader)\<rparr>,
                           State := reset (State C1), BlockCache := clear (BlockCache C1)\<rparr>))
              (\<lambda>(memory, _). C\<lparr>Memory := memory\<rparr>))"

section \<open>What a segment asks for\<close>

text \<open>The bytes of a segment in memory: its data, then zeros.\<close>

definition segment_image :: "ElfSegment \<Rightarrow> u8 list" where
  "segment_image s = take (unat (get_file_size s)) (get_data s)
     @ replicate (unat (get_memory_size s) - unat (get_file_size s)) 0"

definition segment_base :: "ElfSegment \<Rightarrow> nat" where
  "segment_base s = unat (ucast (get_virtual_address s) :: u32)"

definition loads :: "ElfSegment \<Rightarrow> bool" where
  "loads s \<longleftrightarrow> get_segment_type s = PT_LOAD"

definition runs_code :: "ElfSegment \<Rightarrow> bool" where
  "runs_code s \<longleftrightarrow> loads s \<and> get_flags s AND PF_X \<noteq> 0 \<and> get_memory_size s \<noteq> 0"

definition segment_ok :: "nat \<Rightarrow> ElfSegment \<Rightarrow> bool" where
  "segment_ok msize s \<longleftrightarrow>
     get_file_size s \<le> get_memory_size s
     \<and> segment_base s + unat (get_memory_size s) \<le> msize
     \<and> segment_base s + unat (get_memory_size s) \<le> 2 ^ 32
     \<and> (runs_code s \<longrightarrow> get_memory_size s mod 4 = 0 \<and> get_virtual_address s mod 4 = 0)"

definition put_segment :: "u8 list \<Rightarrow> ElfSegment \<Rightarrow> u8 list" where
  "put_segment bytes s = storeBytes (segment_base s) (segment_image s) bytes"

lemma storeBytes_append:
  "storeBytes a (bs @ cs) xs = storeBytes (a + length bs) cs (storeBytes a bs xs)"
  by (induction bs arbitrary: a xs) simp_all

lemma loadSegment_eq:
  "loadSegment s m =
     (if get_file_size s > get_memory_size s
      then Throw (SimulationException INCORRECT_BINARY_FILE) m
      else if segment_base s + unat (get_memory_size s) \<le> length (Bytes m)
              \<and> segment_base s + unat (get_memory_size s) \<le> 2 ^ 32
      then if short_data s then Stuck else Done (m\<lparr>Bytes := put_segment (Bytes m) s\<rparr>)
      else Throw (SimulationException MEMORY_OUT_OF_BOUNDS) m)"
proof -
  have le: "\<not> get_file_size s > get_memory_size s \<Longrightarrow>
      unat (get_memory_size s - get_file_size s) = unat (get_memory_size s) - unat (get_file_size s)"
    by (simp add: not_less unat_sub)
  have z: "get_file_size s = 0 \<longleftrightarrow> unat (get_file_size s) = 0" by (simp add: unat_eq_0)
  have g: "get_memory_size s > get_file_size s \<longleftrightarrow> unat (get_file_size s) < unat (get_memory_size s)"
    by (simp add: word_less_nat_alt)
  have pos: "length (get_data s) < unat (get_file_size s) \<Longrightarrow> 0 < get_file_size s"
    by (cases "get_file_size s = 0") (simp_all add: word_gt_0)
  show ?thesis
  proof (cases "get_memory_size s = 0")
    case True
    then have "\<not> get_file_size s > get_memory_size s \<Longrightarrow> get_file_size s = 0"
      by (simp add: word_gt_0)
    then show ?thesis using True pos
      by (auto simp: loadSegment_def short_data_def Let_def writableRange_eq in_bounds_def segment_base_def
          put_segment_def segment_image_def)
  next
    case False
    then show ?thesis
      using le
      by (auto simp: loadSegment_def short_data_def Let_def writableRange_eq in_bounds_def segment_base_def unat_eq_0
          writeThrough_def put_segment_def segment_image_def storeBytes_append g not_less)
  qed
qed

definition code_range :: "ElfSegment \<Rightarrow> TICodeRange" where
  "code_range s = \<lparr>Address = ucast (get_virtual_address s), Size = unat (get_memory_size s)\<rparr>"

definition load_one :: "TIMemory \<Rightarrow> ElfSegment \<Rightarrow> TIMemory" where
  "load_one m s = m\<lparr>ExecutableRegions := ExecutableRegions m
       @ (if runs_code s then [code_range s] else []),
     Bytes := put_segment (Bytes m) s\<rparr>"

lemma length_put_segment [simp, ti_len]: "length (put_segment bytes s) = length bytes"
  by (simp add: put_segment_def)

lemma load_one_size [simp, ti_len]: "length (Bytes (load_one m s)) = length (Bytes m)"
  by (simp add: load_one_def)

text \<open>One round of the loop: the segment is loaded, or the load throws without going on.\<close>

lemma loadSegments_ok:
  assumes "loads s" "segment_ok (length (Bytes m)) s"
  shows "loadSegments (s # rest) (m, f) =
    (if short_data s then Stuck else loadSegments rest (load_one m s, f \<or> runs_code s))"
proof -
  have r: "get_flags s AND PF_X \<noteq> 0 \<and> get_memory_size s \<noteq> 0 \<longleftrightarrow> runs_code s"
    using assms(1) by (simp add: runs_code_def)
  have t: "get_segment_type s = PT_LOAD" using assms(1) by (simp add: loads_def)
  have b: "segment_base s + unat (get_memory_size s) \<le> length (Bytes m)"
      "segment_base s + unat (get_memory_size s) \<le> 2 ^ 32" "\<not> get_file_size s > get_memory_size s"
    using assms(2) by (simp_all add: segment_ok_def not_less)
  have l: "loadSegment s m' = (if short_data s then Stuck else Done (m'\<lparr>Bytes := put_segment (Bytes m') s\<rparr>))"
    if "length (Bytes m') = length (Bytes m)" for m'
    using loadSegment_eq [of s m'] b that by simp
  show ?thesis
  proof (cases "runs_code s")
    case True
    moreover from this have "get_memory_size s mod 4 = 0" "get_virtual_address s mod 4 = 0"
      using assms(2) by (simp_all add: segment_ok_def)
    moreover have "addExecutableRegion m (ucast (get_virtual_address s)) (unat (get_memory_size s)) =
        Inr (m\<lparr>ExecutableRegions := ExecutableRegions m @ [code_range s]\<rparr>)"
      using b by (simp add: addExecutableRegion_def checkBounds_eq in_bounds_def segment_base_def code_range_def)
    ultimately show ?thesis
      unfolding loadSegments.simps(2) r using t
      by (simp add: l Let_def load_one_def)
  next
    case False
    have "m\<lparr>ExecutableRegions := ExecutableRegions m\<rparr> = m" by (cases m) simp
    with False show ?thesis unfolding loadSegments.simps(2) r using t
      by (simp add: l load_one_def)
  qed
qed

lemma loadSegments_bad:
  assumes "loads s" "\<not> segment_ok (length (Bytes m)) s"
  shows "\<exists>e m1 f1. loadSegments (s # rest) (m, f) = Throw (SimulationException e) (m1, f1)
     \<and> length (Bytes m1) = length (Bytes m)"
proof -
  have r: "get_flags s AND PF_X \<noteq> 0 \<and> get_memory_size s \<noteq> 0 \<longleftrightarrow> runs_code s"
    using assms(1) by (simp add: runs_code_def)
  have t: "get_segment_type s = PT_LOAD" using assms(1) by (simp add: loads_def)
  have bad: "\<exists>e. loadSegment s m' = Throw (SimulationException e) m'"
    if "length (Bytes m') = length (Bytes m)"
      "runs_code s \<longrightarrow> get_memory_size s mod 4 = 0 \<and> get_virtual_address s mod 4 = 0" for m'
    using loadSegment_eq [of s m'] assms(2) that by (auto simp: segment_ok_def not_less)
  show ?thesis
  proof (cases "runs_code s")
    case True
    show ?thesis
    proof (cases "get_memory_size s mod 4 = 0 \<and> get_virtual_address s mod 4 = 0")
      case aligned: True
      obtain e where e: "loadSegment s (m\<lparr>ExecutableRegions := ExecutableRegions m @ [code_range s]\<rparr>) =
          Throw (SimulationException e) (m\<lparr>ExecutableRegions := ExecutableRegions m @ [code_range s]\<rparr>)"
        using bad [of "m\<lparr>ExecutableRegions := ExecutableRegions m @ [code_range s]\<rparr>"] aligned by auto
      then show ?thesis unfolding loadSegments.simps(2) r
        using t True aligned
        by (auto simp: Let_def addExecutableRegion_def checkBounds_eq code_range_def)
    next
      case False
      then show ?thesis unfolding loadSegments.simps(2) r using t True by (auto simp: Let_def)
    qed
  next
    case False
    then show ?thesis unfolding loadSegments.simps(2) r using t bad [of m] by auto
  qed
qed

lemma loadSegments_skip:
  "\<not> loads s \<Longrightarrow> loadSegments (s # rest) (m, f) = loadSegments rest (m, f)"
  by (simp add: loads_def)

text \<open>
  The loop copies data that is not there when it gets to a segment that passes the checks and is
  short: \<open>missing_data\<close>. Otherwise it loads all segments or throws.
\<close>

fun missing_data :: "nat \<Rightarrow> ElfSegment list \<Rightarrow> bool" where
  "missing_data msize [] \<longleftrightarrow> False"
| "missing_data msize (s # segs) \<longleftrightarrow>
     (if loads s then segment_ok msize s \<and> (short_data s \<or> missing_data msize segs)
      else missing_data msize segs)"

lemma no_missing_data:
  "\<forall>s \<in> set segs. length (get_data s) = unat (get_file_size s) \<Longrightarrow> \<not> missing_data msize segs"
  by (induction segs) (auto simp: short_data_def)

lemma loadSegments_cases:
  obtains (copied) "missing_data (length (Bytes m)) segs" "loadSegments segs (m, f) = Stuck"
  | (every) "\<not> missing_data (length (Bytes m)) segs"
      "\<forall>s \<in> set (filter loads segs). segment_ok (length (Bytes m)) s"
      "loadSegments segs (m, f) = Done (foldl load_one m (filter loads segs), f \<or> list_ex runs_code segs)"
  | (bad) e m1 f1 where "\<not> missing_data (length (Bytes m)) segs"
      "\<not> (\<forall>s \<in> set (filter loads segs). segment_ok (length (Bytes m)) s)"
      "loadSegments segs (m, f) = Throw (SimulationException e) (m1, f1)"
      "length (Bytes m1) = length (Bytes m)"
proof (induction segs arbitrary: m f thesis)
  case (Cons s segs)
  show ?case
  proof (cases "loads s")
    case l: True
    show ?thesis
    proof (cases "segment_ok (length (Bytes m)) s")
      case ok: True
      note step = loadSegments_ok [OF l ok, of segs f]
      show ?thesis
      proof (cases "short_data s")
        case True
        then show ?thesis using Cons.prems(1) l ok step by (simp del: loadSegments.simps)
      next
        case False
        show ?thesis
          by (rule Cons.IH [of "load_one m s" "f \<or> runs_code s"])
            (use Cons.prems False l ok step in \<open>simp_all del: loadSegments.simps\<close>)
      qed
    next
      case False
      then obtain e m1 f1 where "loadSegments (s # segs) (m, f) = Throw (SimulationException e) (m1, f1)"
        "length (Bytes m1) = length (Bytes m)" using loadSegments_bad [OF l False] by blast
      then show ?thesis using Cons.prems(3) l False by (simp del: loadSegments.simps)
    qed
  next
    case False
    show ?thesis
      by (rule Cons.IH [of m f])
        (use Cons.prems False loadSegments_skip [OF False, of segs m f] in
          \<open>simp_all del: loadSegments.simps add: runs_code_def\<close>)
  qed
qed simp

section \<open>Disjoint segments\<close>

definition segment_bytes :: "ElfSegment \<Rightarrow> nat set" where
  "segment_bytes s = {segment_base s ..< segment_base s + unat (get_memory_size s)}"

lemma length_segment_image:
  "length (get_data s) = unat (get_file_size s) \<Longrightarrow> get_file_size s \<le> get_memory_size s \<Longrightarrow>
     length (segment_image s) = unat (get_memory_size s)"
  by (simp add: segment_image_def word_le_nat_alt)

lemma put_segment_nth:
  assumes "length (segment_image s) = unat (get_memory_size s)" "i < length bytes"
  shows "put_segment bytes s ! i =
    (if i \<in> segment_bytes s then segment_image s ! (i - segment_base s) else bytes ! i)"
  using assms by (auto simp: put_segment_def nth_storeBytes segment_bytes_def)

lemma load_fold_Bytes: "Bytes (foldl load_one m segs) = foldl put_segment (Bytes m) segs"
  by (induction segs arbitrary: m) (simp_all add: load_one_def)

lemma load_fold_Regions:
  "ExecutableRegions (foldl load_one m segs) =
     ExecutableRegions m @ map code_range (filter runs_code segs)"
  by (induction segs arbitrary: m) (simp_all add: load_one_def)

lemma load_fold_Dirty: "DirtyCodeRanges (foldl load_one m segs) = DirtyCodeRanges m"
  by (induction segs arbitrary: m) (simp_all add: load_one_def)

lemma put_segments_length [simp, ti_len]: "length (foldl put_segment bytes segs) = length bytes"
  by (induction segs arbitrary: bytes) simp_all

lemma put_segments_outside:
  assumes "\<forall>s \<in> set segs. length (segment_image s) = unat (get_memory_size s)"
    "i < length bytes" "\<forall>s \<in> set segs. i \<notin> segment_bytes s"
  shows "foldl put_segment bytes segs ! i = bytes ! i"
  using assms by (induction segs arbitrary: bytes) (auto simp: put_segment_nth)

fun disjoint_segments :: "ElfSegment list \<Rightarrow> bool" where
  "disjoint_segments [] = True"
| "disjoint_segments (s # segs) =
     ((\<forall>t \<in> set segs. segment_bytes s \<inter> segment_bytes t = {}) \<and> disjoint_segments segs)"

lemma put_segments_inside:
  assumes "\<forall>s \<in> set segs. length (segment_image s) = unat (get_memory_size s)"
    "disjoint_segments segs" "s \<in> set segs" "i \<in> segment_bytes s" "i < length bytes"
  shows "foldl put_segment bytes segs ! i = segment_image s ! (i - segment_base s)"
  using assms
proof (induction segs arbitrary: bytes)
  case (Cons t segs)
  show ?case
  proof (cases "s = t")
    case True
    then have "\<forall>u \<in> set segs. i \<notin> segment_bytes u" using Cons.prems(2,4) by auto
    then show ?thesis using True Cons.prems
      by (simp add: put_segments_outside put_segment_nth)
  next
    case False
    then show ?thesis using Cons by auto
  qed
qed simp

section \<open>A whole load\<close>

definition header_ok :: "ElfFile \<Rightarrow> bool" where
  "header_ok f \<longleftrightarrow> get_type f = ET_EXEC \<and> get_class f = ELFCLASS32
     \<and> get_encoding f = ELFDATA2LSB \<and> get_machine f = ELF_MACHINE"

definition loadable :: "nat \<Rightarrow> ElfFile \<Rightarrow> bool" where
  "loadable msize f \<longleftrightarrow> header_ok f \<and> list_ex runs_code (elf_segments f)
     \<and> (\<forall>s \<in> set (filter loads (elf_segments f)). segment_ok msize s)"

definition loaded :: "'w ExecutionContext \<Rightarrow> ElfFile \<Rightarrow> 'w ExecutionContext" where
  "loaded C f = C\<lparr>Memory := foldl load_one (Memory C) (filter loads (elf_segments f)),
     Cpu := (Cpu C)\<lparr>PC := ucast (get_entry f)\<rparr>, State := reset (State C),
     BlockCache := clear (BlockCache C)\<rparr>"

text \<open>Files for which the loader goes beyond what the reader has.\<close>

definition truncated :: "nat \<Rightarrow> ElfFile \<Rightarrow> bool" where
  "truncated msize f \<longleftrightarrow> header_ok f \<and> missing_data msize (elf_segments f)"

lemma reader_ok_complete: "reader_ok f \<Longrightarrow> \<not> truncated msize f"
  by (simp add: reader_ok_def truncated_def no_missing_data)

lemma loadBinary_cases:
  assumes "load fn = Some f"
  obtains (stuck) "truncated (length (Bytes (Memory C))) f" "loadBinary load C fn 0 = Stuck"
  | (loaded) "\<not> truncated (length (Bytes (Memory C))) f" "loadable (length (Bytes (Memory C))) f"
      "loadBinary load C fn 0 = Done (loaded C f)"
  | (throws) e m where "\<not> truncated (length (Bytes (Memory C))) f" "\<not> loadable (length (Bytes (Memory C))) f"
      "loadBinary load C fn 0 = Throw (SimulationException e) (C\<lparr>Memory := m\<rparr>)"
      "length (Bytes m) = length (Bytes (Memory C))"
proof (cases "header_ok f")
  case False
  moreover have "C = C\<lparr>Memory := Memory C\<rparr>" by simp
  moreover have "loadBinary load C fn 0 = Throw (SimulationException INCORRECT_BINARY_FILE) C"
    using assms False by (auto simp: loadBinary_def header_ok_def)
  ultimately show ?thesis
    using throws [of INCORRECT_BINARY_FILE "Memory C"] by (simp add: truncated_def loadable_def)
next
  case header: True
  note simps = loadBinary_def assms(1) header [unfolded header_ok_def] truncated_def loadable_def header Let_def
  show ?thesis
  proof (cases rule: loadSegments_cases [of "Memory C" "elf_segments f" False])
    case copied
    then show ?thesis using stuck by (simp add: simps)
  next
    case every
    show ?thesis
    proof (cases "list_ex runs_code (elf_segments f)")
      case True
      then show ?thesis using loaded every by (simp add: simps loaded_def)
    next
      case False
      have "length (Bytes (foldl load_one m segs)) = length (Bytes m)" for m segs
        by (simp add: load_fold_Bytes)
      then show ?thesis
        using throws [of INCORRECT_BINARY_FILE "foldl load_one (Memory C) (filter loads (elf_segments f))"] every False
        by (simp add: simps)
    qed
  next
    case (bad e m1 f1)
    then show ?thesis using throws [of e m1] by (simp add: simps)
  qed
qed

lemma loadBinary_loadable:
  assumes "load fn = Some f" "reader_ok f" "loadable (length (Bytes (Memory C))) f"
  shows "loadBinary load C fn 0 = Done (loaded C f)"
  using assms(1) by (cases rule: loadBinary_cases [where C = C]) (use assms(3) reader_ok_complete [OF assms(2)] in simp_all)


lemma loadBinary_done:
  assumes "load fn = Some f" "loadBinary load C fn 0 = Done D"
  shows "loadable (length (Bytes (Memory C))) f" "D = loaded C f"
  using assms(1) by (cases rule: loadBinary_cases [where C = C]; use assms(2) in simp)+

lemma loadBinary_stuck:
  "loadBinary load C fn 0 = Stuck \<longleftrightarrow> (\<exists>f. load fn = Some f \<and> truncated (length (Bytes (Memory C))) f)"
proof (cases "load fn")
  case (Some f)
  then show ?thesis by (cases rule: loadBinary_cases [where C = C]) (simp_all add: Some)
qed (simp add: loadBinary_def)

text \<open>A loaded context is one the engines may run from.\<close>

lemma loaded_run_ok:
  assumes "wf_cpu (Cpu C)" "length (Bytes (Memory C)) < 2 ^ 32" "jit_ok (BlockCache C)"
  shows "run_ok (loaded C f)" "ctx_coherent (loaded C f)"
proof -
  have "Blocks (clear c) = (\<lambda>_. None)" for c by (simp add: clear_def)
  then show "run_ok (loaded C f)" "ctx_coherent (loaded C f)"
    using assms jit_ok_clear [OF assms(3)]
    by (simp_all add: run_ok_def ctx_ok_def loaded_def cache_ok_def load_fold_Bytes wf_cpu_def
        ctx_coherent_def coherent_def validCode_def)
qed

section \<open>Readers\<close>

text \<open>What the programs rely on in the ELF reader: every file it can read is read whole.\<close>

definition elfio_ok :: "(string \<Rightarrow> ElfFile option) \<Rightarrow> bool" where
  "elfio_ok load \<longleftrightarrow> (\<forall>fn f. load fn = Some f \<longrightarrow> reader_ok f)"

lemma no_files_ok: "elfio_ok (\<lambda>_. None)"
  by (simp add: elfio_ok_def)

lemma load_not_stuck:
  assumes "elfio_ok load"
  shows "loadBinary load C fn 0 \<noteq> Stuck"
  using assms by (auto simp: loadBinary_stuck elfio_ok_def dest!: reader_ok_complete)

section \<open>Properties\<close>


text \<open>A file with one code segment of a word and four bytes that start as zeros.\<close>

definition sample_segment :: ElfSegment where
  "sample_segment = \<lparr>get_segment_type = 1, get_flags = 5, get_virtual_address = 8,
     get_file_size = 4, get_memory_size = 8, get_data = [0x1E, 0, 0, 0]\<rparr>"

definition sample_file :: ElfFile where
  "sample_file = \<lparr>get_type = 2, get_class = 1, get_encoding = 1, get_machine = 0x6767,
     get_entry = 8, elf_segments = [sample_segment]\<rparr>"

lemma sample_file_ok: "reader_ok sample_file" "16 \<le> n \<Longrightarrow> loadable n sample_file"
  "disjoint_segments (filter loads (elf_segments sample_file))"
  by (simp_all add: reader_ok_def sample_file_def sample_segment_def loadable_def header_ok_def
      ELF_MACHINE_def loads_def runs_code_def segment_ok_def segment_base_def)

text \<open>The same file, cut off in its segment.\<close>

definition cut_file :: ElfFile where
  "cut_file = sample_file\<lparr>elf_segments := [sample_segment\<lparr>get_data := []\<rparr>]\<rparr>"

lemma cut_file_truncated: "16 \<le> n \<Longrightarrow> truncated n cut_file"
  by (simp add: cut_file_def sample_file_def sample_segment_def truncated_def header_ok_def short_data_def
      ELF_MACHINE_def loads_def runs_code_def segment_ok_def segment_base_def)




text \<open>C31. What a loaded program finds in memory: when the load segments do not overlap, each of them
  appears at its address as its file contents followed by zeros, every byte outside them is what
  it was before, and exactly the nonempty executable segments are registered as code.\<close>

theorem load_places_segments:
  assumes "load fn = Some f" "reader_ok f" "disjoint_segments (filter loads (elf_segments f))"
    and "loadBinary load C fn 0 = Done D"
  shows "(\<forall>s \<in> set (elf_segments f). loads s \<longrightarrow>
      take (unat (get_memory_size s)) (drop (segment_base s) (Bytes (Memory D))) = segment_image s)
    \<and> (\<forall>i < length (Bytes (Memory C)). (\<forall>s \<in> set (elf_segments f). loads s \<longrightarrow> i \<notin> segment_bytes s)
        \<longrightarrow> Bytes (Memory D) ! i = Bytes (Memory C) ! i)
    \<and> ExecutableRegions (Memory D) = ExecutableRegions (Memory C)
        @ map code_range (filter runs_code (filter loads (elf_segments f)))"
proof (intro conjI ballI allI impI)
  let ?segs = "filter loads (elf_segments f)"
  let ?b = "Bytes (Memory C)"
  have D: "Bytes (Memory D) = foldl put_segment ?b ?segs"
    "ExecutableRegions (Memory D) = ExecutableRegions (Memory C) @ map code_range (filter runs_code ?segs)"
    unfolding loadBinary_done(2) [OF assms(1,4)]
    by (simp_all add: loaded_def load_fold_Bytes load_fold_Regions)
  have ok: "segment_ok (length ?b) s" if "s \<in> set ?segs" for s
    using loadBinary_done(1) [OF assms(1,4)] that by (simp add: loadable_def)
  have img: "\<forall>s \<in> set ?segs. length (segment_image s) = unat (get_memory_size s)"
    using ok length_segment_image assms(2) by (auto simp: segment_ok_def reader_ok_def)
  show "ExecutableRegions (Memory D) = ExecutableRegions (Memory C) @ map code_range (filter runs_code ?segs)"
    by (rule D(2))
  show "Bytes (Memory D) ! i = ?b ! i"
    if "i < length ?b" "\<forall>s \<in> set (elf_segments f). loads s \<longrightarrow> i \<notin> segment_bytes s" for i
    unfolding D(1) using put_segments_outside [OF img that(1)] that(2) by simp
  fix s assume s: "s \<in> set (elf_segments f)" "loads s"
  then have s': "s \<in> set ?segs" by simp
  have fits: "segment_base s + unat (get_memory_size s) \<le> length ?b"
    using ok [OF s'] by (simp add: segment_ok_def)
  show "take (unat (get_memory_size s)) (drop (segment_base s) (Bytes (Memory D))) = segment_image s"
  proof (rule nth_equalityI)
    fix j assume "j < length (take (unat (get_memory_size s)) (drop (segment_base s) (Bytes (Memory D))))"
    then have j: "j < unat (get_memory_size s)" by simp
    then show "take (unat (get_memory_size s)) (drop (segment_base s) (Bytes (Memory D))) ! j = segment_image s ! j"
      using put_segments_inside [OF img assms(3) s', of "segment_base s + j" ?b] fits
      by (simp add: D(1) segment_bytes_def)
  qed (use img s' fits D(1) in simp)
qed

lemma load_places_segments_witness:
  "take 8 (drop 8 (Bytes (Memory (loaded (new_context 16) sample_file)))) = [0x1E, 0, 0, 0, 0, 0, 0, 0]"
proof -
  have "length (Bytes (Memory (new_context 16))) = 16"
    by (simp add: new_context_def ExecutionContext_new_def TIMemory_new_def)
  then have "loadBinary (\<lambda>_. Some sample_file) (new_context 16) ''prog'' 0 = Done (loaded (new_context 16) sample_file)"
    using loadBinary_loadable [of "\<lambda>_. Some sample_file" "''prog''" sample_file "new_context 16"]
      sample_file_ok by simp
  from load_places_segments [OF _ sample_file_ok(1,3) this]
  have "take 8 (drop 8 (Bytes (Memory (loaded (new_context 16) sample_file)))) = segment_image sample_segment"
    by (simp add: sample_file_def sample_segment_def loads_def segment_base_def)
  moreover have "segment_image sample_segment = [0x1E, 0, 0, 0] @ replicate 4 0"
    by (simp add: segment_image_def sample_segment_def)
  moreover have "replicate 4 (0 :: u8) = [0, 0, 0, 0]" by (simp add: numeral_eq_Suc)
  ultimately show ?thesis by simp
qed

text \<open>A successful load leaves a context the engines may start from: running at the file's entry
  point, the cache consistent and coherent with the memory, no compiled code left.\<close>

lemma loaded_context_is_ready:
  assumes "load fn = Some f" "loadBinary load C fn 0 = Done D"
    and "wf_cpu (Cpu C)" "length (Bytes (Memory C)) < 2 ^ 32" "jit_ok (BlockCache C)"
  shows "run_ok D \<and> ctx_coherent D \<and> Status (State D) = RUNNING \<and> ExitCode (State D) = 0
    \<and> PC (Cpu D) = ucast (get_entry f) \<and> Registers (Cpu D) = Registers (Cpu C)
    \<and> NativeCode (BlockCache D) p = None"
  using loadBinary_done(2) [OF assms(1,2)] loaded_run_ok [OF assms(3-5), of f] clear_unmaps [OF assms(5), of p]
  by (simp add: loaded_def reset_def)

end
