(* ===== verification/ElfWriter.thy ===== *)
theory ElfWriter
  imports Loader
begin

text \<open>
  \<open>elf_writer.cpp\<close>, the program that packs an assembled text and data section into an ELF file.
  The files are a parameter (absent, or what their stream reports and delivers), and so is whether
  \<open>ELFIO\<close> can save: the writer's result is the object it hands to \<open>save\<close>, field by field as it sets it.
\<close>

section \<open>The object under construction\<close>

record ElfSection =
  section_name :: string
  section_type :: u32
  section_flags :: u32
  section_address :: u32
  section_addr_align :: u32
  section_data :: "u8 list"

record ElfOutSegment =
  out_type :: u32
  out_virtual_address :: u32
  out_physical_address :: u32
  out_flags :: u32
  out_align :: u32
  out_sections :: "ElfSection list"

record ElfImage =
  image_class :: u8
  image_encoding :: u8
  image_os_abi :: u8
  image_type :: "16 word"
  image_machine :: "16 word"
  image_entry :: u32
  image_sections :: "ElfSection list"
  image_segments :: "ElfOutSegment list"

definition ELFOSABI_LINUX :: u8 where [simp]: "ELFOSABI_LINUX = 3"
definition SHT_PROGBITS :: u32 where [simp]: "SHT_PROGBITS = 1"
definition SHF_WRITE :: u32 where [simp]: "SHF_WRITE = 1"
definition SHF_ALLOC :: u32 where [simp]: "SHF_ALLOC = 2"
definition SHF_EXECINSTR :: u32 where [simp]: "SHF_EXECINSTR = 4"

definition TEXT_ADDRESS :: u32 where [simp]: "TEXT_ADDRESS = 0"
definition SECTION_ALIGNMENT :: u32 where [simp]: "SECTION_ALIGNMENT = 4"

section \<open>The program\<close>

datatype writer_error = CannotOpen string | StdLengthError | IncorrectTextSection | CannotWrite string

text \<open>
  An opened file: its size as \<open>tellg\<close> reports it, -1 for a failure, and the bytes \<open>read\<close> delivers. The
  string of a negative size cannot be built (\<open>std::length_error\<close>); what \<open>read\<close> does not fill stays 0.
\<close>

record InputFile =
  tellg :: int
  readable :: "u8 list"

definition whole_file :: "u8 list \<Rightarrow> InputFile" where
  "whole_file data = \<lparr>tellg = int (length data), readable = data\<rparr>"

definition readBinary :: "(string \<Rightarrow> InputFile option) \<Rightarrow> string \<Rightarrow> writer_error + u8 list" where
  "readBinary files filename =
     (case files filename of
        None \<Rightarrow> Inl (CannotOpen filename)
      | Some input \<Rightarrow>
          if tellg input < 0 then Inl StdLengthError
          else let size = nat (tellg input); data = take size (readable input)
               in Inr (data @ replicate (size - length data) 0))"

lemma readBinary_whole [simp]: "files fn = Some (whole_file data) \<Longrightarrow> readBinary files fn = Inr data"
  by (simp add: readBinary_def whole_file_def)

definition elf_image :: "u8 list \<Rightarrow> u8 list \<Rightarrow> ElfImage" where
  "elf_image text data =
     (let dataAddress = of_nat (length text);
          textSection = \<lparr>section_name = ''.text'', section_type = SHT_PROGBITS,
            section_flags = SHF_ALLOC OR SHF_EXECINSTR, section_address = TEXT_ADDRESS,
            section_addr_align = SECTION_ALIGNMENT, section_data = text\<rparr>;
          textSegment = \<lparr>out_type = PT_LOAD, out_virtual_address = TEXT_ADDRESS,
            out_physical_address = TEXT_ADDRESS, out_flags = PF_R OR PF_X,
            out_align = SECTION_ALIGNMENT, out_sections = [textSection]\<rparr>;
          dataSection = \<lparr>section_name = ''.data'', section_type = SHT_PROGBITS,
            section_flags = SHF_ALLOC OR SHF_WRITE, section_address = dataAddress,
            section_addr_align = SECTION_ALIGNMENT, section_data = data\<rparr>;
          dataSegment = \<lparr>out_type = PT_LOAD, out_virtual_address = dataAddress,
            out_physical_address = dataAddress, out_flags = PF_R OR PF_W,
            out_align = SECTION_ALIGNMENT, out_sections = [dataSection]\<rparr>
      in \<lparr>image_class = ELFCLASS32, image_encoding = ELFDATA2LSB, image_os_abi = ELFOSABI_LINUX,
          image_type = ET_EXEC, image_machine = ELF_MACHINE, image_entry = TEXT_ADDRESS,
          image_sections = [textSection, dataSection],
          image_segments = [textSegment, dataSegment]\<rparr>)"

definition writeElf ::
  "(string \<Rightarrow> InputFile option) \<Rightarrow> (string \<Rightarrow> ElfImage \<Rightarrow> bool) \<Rightarrow> string \<Rightarrow> string \<Rightarrow> string
     \<Rightarrow> writer_error + ElfImage" where
  "writeElf files save outputFilename textFilename dataFilename =
     (case readBinary files textFilename of
        Inl e \<Rightarrow> Inl e
      | Inr text \<Rightarrow>
         (case readBinary files dataFilename of
            Inl e \<Rightarrow> Inl e
          | Inr data \<Rightarrow>
             if text = [] \<or> length text mod unat SECTION_ALIGNMENT \<noteq> 0 then Inl IncorrectTextSection
             else if save outputFilename (elf_image text data) then Inr (elf_image text data)
             else Inl (CannotWrite outputFilename)))"

text \<open>
  The exit status and the file written; \<open>None\<close> for what is undefined, printing the null program name
  of an empty argument vector.
\<close>

definition writer_main ::
  "(string \<Rightarrow> InputFile option) \<Rightarrow> (string \<Rightarrow> ElfImage \<Rightarrow> bool) \<Rightarrow> string list
     \<Rightarrow> (nat \<times> (string \<times> ElfImage) option) option" where
  "writer_main files save arguments =
     (if length arguments \<noteq> 4 then (if arguments = [] then None else Some (1, None))
      else case writeElf files save (arguments ! 1) (arguments ! 2) (arguments ! 3) of
             Inl e \<Rightarrow> Some (1, None)
           | Inr img \<Rightarrow> Some (0, Some (arguments ! 1, img)))"

section \<open>Reading the file back\<close>

text \<open>
  What the reader sees of a saved object: the header fields, and for every segment the contents
  of its section as file contents, with the same size in memory.
\<close>

definition saved_segment :: "ElfOutSegment \<Rightarrow> ElfSegment" where
  "saved_segment s =
     (let data = concat (map section_data (out_sections s))
      in \<lparr>get_segment_type = out_type s, get_flags = out_flags s,
          get_virtual_address = ucast (out_virtual_address s),
          get_file_size = of_nat (length data), get_memory_size = of_nat (length data),
          get_data = data\<rparr>)"

definition saved_file :: "ElfImage \<Rightarrow> ElfFile" where
  "saved_file i =
     \<lparr>get_type = image_type i, get_class = image_class i, get_encoding = image_encoding i,
      get_machine = image_machine i, get_entry = ucast (image_entry i),
      elf_segments = map saved_segment (image_segments i)\<rparr>"

lemma storeBytes_whole: "length bs \<le> length xs \<Longrightarrow> storeBytes 0 bs xs = bs @ drop (length bs) xs"
  by (rule nth_equalityI) (auto simp: nth_storeBytes nth_append)

text \<open>The two segments of a written file, and that they can be loaded.\<close>

definition text_seg :: "u8 list \<Rightarrow> ElfSegment" where
  "text_seg text = \<lparr>get_segment_type = 1, get_flags = 5, get_virtual_address = 0,
     get_file_size = of_nat (length text), get_memory_size = of_nat (length text), get_data = text\<rparr>"

definition data_seg :: "nat \<Rightarrow> u8 list \<Rightarrow> ElfSegment" where
  "data_seg base data = \<lparr>get_segment_type = 1, get_flags = 6,
     get_virtual_address = ucast (of_nat base :: u32),
     get_file_size = of_nat (length data), get_memory_size = of_nat (length data), get_data = data\<rparr>"

lemma saved_segments:
  "elf_segments (saved_file (elf_image text data)) = [text_seg text, data_seg (length text) data]"
  by (simp add: saved_file_def elf_image_def saved_segment_def Let_def text_seg_def data_seg_def)

lemma saved_header: "header_ok (saved_file (elf_image text data))"
  "get_entry (saved_file (elf_image text data)) = 0"
  by (simp_all add: header_ok_def saved_file_def elf_image_def Let_def)

lemma unat_of_nat_u64: "n < 2 ^ 32 \<Longrightarrow> unat (of_nat n :: u64) = n"
  by (simp add: unat_of_nat take_bit_nat_eq_self)

lemma seg_shapes:
  assumes "length text + length data \<le> 2 ^ 32" "length text < 2 ^ 32" "length data < 2 ^ 32"
  shows "segment_base (text_seg text) = 0" "segment_base (data_seg (length text) data) = length text"
    "segment_image (text_seg text) = text" "segment_image (data_seg b data) = data"
    "loads (text_seg text)" "loads (data_seg b data)" "\<not> runs_code (data_seg b data)"
    "runs_code (text_seg text) \<longleftrightarrow> text \<noteq> []"
proof -
  have l: "unat (of_nat (length text) :: u64) = length text" "unat (of_nat (length data) :: u64) = length data"
    using assms by (simp_all add: unat_of_nat_u64)
  then have "(of_nat (length text) :: u64) = 0 \<longleftrightarrow> text = []" by (simp add: unat_eq_0 [symmetric])
  moreover have "unat (of_nat (length text) :: u32) = length text"
    using assms by (simp add: unat_of_nat take_bit_nat_eq_self)
  moreover have "(ucast (ucast x :: u64) :: u32) = x" for x :: u32
    by (rule bit_word_eqI) (simp add: bit_simps)
  ultimately show "segment_base (text_seg text) = 0" "segment_base (data_seg (length text) data) = length text"
    "segment_image (text_seg text) = text" "segment_image (data_seg b data) = data"
    "loads (text_seg text)" "loads (data_seg b data)" "\<not> runs_code (data_seg b data)"
    "runs_code (text_seg text) \<longleftrightarrow> text \<noteq> []"
    using l by (simp_all add: text_seg_def data_seg_def segment_base_def segment_image_def loads_def runs_code_def)
qed

lemma written_loadable:
  assumes "text \<noteq> []" "length text mod 4 = 0" "length text + length data \<le> msize" "msize < 2 ^ 32"
  shows "loadable msize (saved_file (elf_image text data))" "reader_ok (saved_file (elf_image text data))"
proof -
  have b: "length text + length data \<le> 2 ^ 32" "length text < 2 ^ 32" "length data < 2 ^ 32"
    using assms by simp_all
  have l: "unat (of_nat (length text) :: u64) = length text" "unat (of_nat (length data) :: u64) = length data"
    using b by (simp_all add: unat_of_nat_u64)
  have "(of_nat (length text) :: u64) mod 4 = 0"
    using assms(2) l(1) by (simp add: word_unat_eq_iff unat_mod_distrib)
  then show "loadable msize (saved_file (elf_image text data))"
    using seg_shapes [OF b] assms l saved_header(1)
    by (simp add: loadable_def saved_segments segment_ok_def)
      (simp add: text_seg_def data_seg_def)
  show "reader_ok (saved_file (elf_image text data))"
    using l by (simp add: reader_ok_def saved_segments) (simp add: text_seg_def data_seg_def)
qed

lemma put_text_data:
  assumes "length text + length data \<le> length bytes" "length bytes < 2 ^ 32"
  shows "foldl put_segment bytes [text_seg text, data_seg (length text) data] =
    text @ data @ drop (length text + length data) bytes"
proof -
  have b: "length text + length data \<le> 2 ^ 32" "length text < 2 ^ 32" "length data < 2 ^ 32"
    using assms by simp_all
  have "foldl put_segment bytes [text_seg text, data_seg (length text) data] =
      storeBytes 0 (text @ data) bytes"
    using seg_shapes [OF b] by (simp add: put_segment_def storeBytes_append)
  then show ?thesis using storeBytes_whole [of "text @ data" bytes] assms by simp
qed

lemma written_image_loads:
  assumes "text \<noteq> []" "length text mod 4 = 0" "load out = Some (saved_file (elf_image text data))"
    and "length text + length data \<le> length (Bytes (Memory C))" "length (Bytes (Memory C)) < 2 ^ 32"
  shows "\<exists>D. loadBinary load C out 0 = Done D \<and> PC (Cpu D) = 0
    \<and> Bytes (Memory D) = text @ data @ drop (length text + length data) (Bytes (Memory C))
    \<and> ExecutableRegions (Memory D) = ExecutableRegions (Memory C) @ [\<lparr>Address = 0, Size = length text\<rparr>]"
proof -
  let ?f = "saved_file (elf_image text data)"
  note ok = written_loadable [OF assms(1,2,4,5)]
  have b: "length text + length data \<le> 2 ^ 32" "length text < 2 ^ 32" "length data < 2 ^ 32"
    using assms(4,5) by simp_all
  have l: "filter loads [text_seg text, data_seg (length text) data] = [text_seg text, data_seg (length text) data]"
    "filter runs_code [text_seg text, data_seg (length text) data] = [text_seg text]"
    using seg_shapes [OF b] assms(1) by simp_all
  have "code_range (text_seg text) = \<lparr>Address = 0, Size = length text\<rparr>"
    using b by (simp add: code_range_def text_seg_def unat_of_nat_u64)
  then have "PC (Cpu (loaded C ?f)) = 0
    \<and> Bytes (Memory (loaded C ?f)) = text @ data @ drop (length text + length data) (Bytes (Memory C))
    \<and> ExecutableRegions (Memory (loaded C ?f))
        = ExecutableRegions (Memory C) @ [\<lparr>Address = 0, Size = length text\<rparr>]"
    using put_text_data [OF assms(4,5)] l
    by (simp add: loaded_def saved_segments load_fold_Bytes load_fold_Regions saved_header(2)
        del: foldl_Cons filter.simps)
  then show ?thesis using loadBinary_loadable [of load out ?f C] assms(3) ok by blast
qed

section \<open>Properties\<close>

text \<open>C33. Round trip from the assembler to the emulator: when the file the writer saved is read back
  with the fields it was given, and text and data fit the memory, loading it succeeds and puts the
  text at address 0 with the data right behind it, registers exactly the text as code and starts at
  its first instruction.\<close>

theorem written_file_loads:
  assumes "writeElf files save out t d = Inr img" "files t = Some (whole_file text)" "files d = Some (whole_file data)"
    and "load out = Some (saved_file img)"
    and "length text + length data \<le> length (Bytes (Memory C))" "length (Bytes (Memory C)) < 2 ^ 32"
  shows "\<exists>D. loadBinary load C out 0 = Done D \<and> PC (Cpu D) = 0
    \<and> Bytes (Memory D) = text @ data @ drop (length text + length data) (Bytes (Memory C))
    \<and> ExecutableRegions (Memory D) = ExecutableRegions (Memory C) @ [\<lparr>Address = 0, Size = length text\<rparr>]"
proof -
  have "img = elf_image text data" "text \<noteq> []" "length text mod 4 = 0"
    using assms(1-3) by (auto simp: writeElf_def split: if_splits)
  then show ?thesis using written_image_loads [OF _ _ _ assms(5,6)] assms(4) by simp
qed

definition sample_files :: "string \<Rightarrow> InputFile option" where
  "sample_files = [''t'' \<mapsto> whole_file [0x1E, 0, 0, 0], ''d'' \<mapsto> whole_file [7]]"

lemma written_file_loads_witness:
  "\<exists>D. loadBinary (\<lambda>_. Some (saved_file (elf_image [0x1E, 0, 0, 0] [7]))) (new_context 8) ''o'' 0 = Done D
     \<and> take 5 (Bytes (Memory D)) = [0x1E, 0, 0, 0, 7]"
proof -
  have n: "length (Bytes (Memory (new_context 8))) = 8"
    by (simp add: new_context_def ExecutionContext_new_def TIMemory_new_def)
  have "writeElf sample_files (\<lambda>_ _. True) ''o'' ''t'' ''d'' = Inr (elf_image [0x1E, 0, 0, 0] [7])"
    by (simp add: writeElf_def sample_files_def)
  from written_file_loads [OF this, of "[0x1E, 0, 0, 0]" "[7]"
      "\<lambda>_. Some (saved_file (elf_image [0x1E, 0, 0, 0] [7]))" "new_context 8"] n
  show ?thesis by (auto simp: sample_files_def)
qed

text \<open>The writer succeeds exactly when both input files can be read, the text section is nonempty
  and a whole number of words, and the library can save; it reports success with exit status 0 and
  every failure with 1.\<close>

lemma writer_succeeds_iff:
  "writer_main files save arguments = Some (0, written) \<longleftrightarrow>
     (\<exists>prog out t d text data. arguments = [prog, out, t, d] \<and> readBinary files t = Inr text
        \<and> readBinary files d = Inr data \<and> text \<noteq> [] \<and> length text mod 4 = 0
        \<and> save out (elf_image text data) \<and> written = Some (out, elf_image text data))"
proof (cases "length arguments = 4")
  case False
  then show ?thesis by (auto simp: writer_main_def)
next
  case True
  then obtain prog out t d where "arguments = [prog, out, t, d]"
    by (auto simp: numeral_eq_Suc length_Suc_conv)
  then show ?thesis
    by (auto simp: writer_main_def writeElf_def split: sum.splits)
qed

end
