(* ===== verification/AssembledProgram.thy ===== *)
theory AssembledProgram
  imports AssemblerCorrect FlushDiscipline ElfWriter
begin

text \<open>
  \<open>assembler/toy_as.rb\<close>: from a source file to an ELF file. What a source file evaluates to is a
  parameter (the calls it makes), as is the rest of the host (record \<open>AsHost\<close>). Then
  the chain from the source to the machine: labels, jumps, and the loaded program.
\<close>

section \<open>The program\<close>

text \<open>\<open>File.extname\<close>: what follows the last period of the base name, leading periods apart.\<close>

definition strip_slashes :: "string \<Rightarrow> string" where
  "strip_slashes p = rev (dropWhile (\<lambda>c. c = CHR ''/'') (rev p))"

definition base_name :: "string \<Rightarrow> string" where
  "base_name p = rev (takeWhile (\<lambda>c. c \<noteq> CHR ''/'') (rev (strip_slashes p)))"

definition extname :: "string \<Rightarrow> string" where
  "extname p =
     (let b = dropWhile (\<lambda>c. c = CHR ''.'') (base_name p)
      in if CHR ''.'' \<in> set b
         then CHR ''.'' # rev (takeWhile (\<lambda>c. c \<noteq> CHR ''.'') (rev b)) else [])"

definition delete_suffix :: "string \<Rightarrow> string \<Rightarrow> string" where
  "delete_suffix p ext =
     (if drop (length p - length ext) p = ext then take (length p - length ext) p else p)"

definition output_path_for :: "string \<Rightarrow> string" where
  "output_path_for source_path = delete_suffix source_path (extname source_path) @ ''.elf''"

lemma output_path_examples:
  "output_path_for ''a.b/loop.rb'' = ''a.b/loop.elf''" "output_path_for ''a.b/loop'' = ''a.b/loop.elf''"
  "output_path_for ''.rc'' = ''.rc.elf''"
  by (simp_all add: output_path_for_def delete_suffix_def extname_def base_name_def strip_slashes_def)

text \<open>\<open>words.pack("V*")\<close>: the low 32 bits of each integer, least significant byte first.\<close>

definition pack_V :: "int list \<Rightarrow> u8 list" where
  "pack_V ws = concat (map (\<lambda>w. encodeLittleEndianWord False (of_int w)) ws)"

text \<open>
  What the program finds on its host: the calls a readable source file makes, the path of the
  writer and whether it can be run, the names of the two temporary files and whether ELFIO can save.
\<close>

record AsHost =
  source_calls :: "string \<Rightarrow> asm_call list option"
  ELF_WRITER_PATH :: string
  is_executable :: "string \<Rightarrow> bool"
  text_temp :: string
  data_temp :: string
  elf_save :: "string \<Rightarrow> ElfImage \<Rightarrow> bool"

text \<open>The writer is run on the temporary files; it succeeds when its exit status is 0.\<close>

definition write_elf :: "AsHost \<Rightarrow> string \<Rightarrow> u8 list \<Rightarrow> u8 list \<Rightarrow> asm_error + (string \<times> ElfImage)" where
  "write_elf host output_path text dat =
     (if \<not> is_executable host (ELF_WRITER_PATH host) then Inl WriterMissing
      else
        let files = Map.empty(text_temp host \<mapsto> whole_file text, data_temp host \<mapsto> whole_file dat)
        in case writer_main files (elf_save host)
               [ELF_WRITER_PATH host, output_path, text_temp host, data_temp host] of
             None \<Rightarrow> Inl WriterFailed
           | Some (status, written) \<Rightarrow>
               if status \<noteq> 0 then Inl WriterFailed
               else (case written of None \<Rightarrow> Inl WriterFailed | Some r \<Rightarrow> Inr r))"

definition toy_as_main ::
  "AsHost \<Rightarrow> string list \<Rightarrow> asm_error + (nat \<times> (string \<times> ElfImage) option)" where
  "toy_as_main host arguments =
     (if \<not> (1 \<le> length arguments \<and> length arguments \<le> 2) then Inr (1, None)
      else
        let source_path = arguments ! 0;
            output_path = (if length arguments = 2 then arguments ! 1 else output_path_for source_path)
        in case source_calls host source_path of
             None \<Rightarrow> Inl CannotReadSource
           | Some calls \<Rightarrow>
               attempt (asm_eval calls Assembler_new) (\<lambda>a.
               attempt (encode_all (asm_labels a) (asm_instructions a)) (\<lambda>words.
               attempt (write_elf host output_path (pack_V words) (asm_data a)) (\<lambda>r.
               Inr (0, Some r)))))"

section \<open>Labels\<close>

text \<open>
  Instruction \<open>k\<close> is at address \<open>4 * k\<close>, a label of the text names the address of an instruction or
  the end of the text, a label of the data a place in the data.
\<close>

definition label_ok :: "nat \<Rightarrow> nat \<Rightarrow> LabelInfo \<Rightarrow> bool" where
  "label_ok n d lab \<longleftrightarrow>
     (if label_section lab = TextSection then \<exists>k \<le> n. label_offset lab = 4 * int k
      else \<exists>k \<le> d. label_offset lab = int k)"

definition asm_ok :: "AssemblerState \<Rightarrow> bool" where
  "asm_ok a \<longleftrightarrow> text_offset a = 4 * int (length (asm_instructions a))
     \<and> (\<forall>k < length (asm_instructions a). ins_pc (asm_instructions a ! k) = 4 * int k)
     \<and> (\<forall>s lab. asm_labels a s = Some lab \<longrightarrow>
          label_ok (length (asm_instructions a)) (length (asm_data a)) lab)"

lemma label_ok_mono: "label_ok n d lab \<Longrightarrow> n \<le> n' \<Longrightarrow> d \<le> d' \<Longrightarrow> label_ok n' d' lab"
  unfolding label_ok_def by (auto intro: order_trans split: if_splits)

text \<open>Later calls keep what there is: instructions and data are appended, labels stay.\<close>

definition asm_extends :: "AssemblerState \<Rightarrow> AssemblerState \<Rightarrow> bool" where
  "asm_extends a b \<longleftrightarrow> asm_labels a \<subseteq>\<^sub>m asm_labels b
     \<and> (\<exists>new. asm_instructions b = asm_instructions a @ new) \<and> (\<exists>new. asm_data b = asm_data a @ new)"

lemma asm_extends_refl [simp]: "asm_extends a a"
  by (simp add: asm_extends_def)

lemma asm_extends_trans: "asm_extends a b \<Longrightarrow> asm_extends b c \<Longrightarrow> asm_extends a c"
  unfolding asm_extends_def by (metis append.assoc map_le_trans)

lemma asm_step_ok:
  assumes "asm_step call a = Inr b" "asm_ok a"
  shows "asm_ok b \<and> asm_extends a b"
proof (cases call)
  case (CallSection v)
  then show ?thesis using assms
    by (auto simp: open_section_def asm_ok_def asm_extends_def split: option.splits if_splits)
next
  case (CallLabel v)
  then obtain s where s: "define_label s a = Inr b" using assms(1) by (auto simp: call_label_def split: ruby_value.splits)
  then obtain sec where "current_section a = Some sec" "asm_labels a s = None"
    "b = a\<lparr>asm_labels := (asm_labels a)(s \<mapsto> \<lparr>label_section = sec, label_offset =
      (if sec = TextSection then text_offset a else int (length (asm_data a)))\<rparr>)\<rparr>"
    by (auto simp: define_label_def Let_def split: option.splits if_splits)
  then show ?thesis using assms(2) by (auto simp: asm_ok_def asm_extends_def map_le_def label_ok_def)
next
  case (CallBytes v)
  then obtain bs where "b = a\<lparr>asm_data := asm_data a @ bs\<rparr>" using assms(1)
    by (auto simp: call_bytes_def attempt_Inr split: ruby_value.splits)
  then show ?thesis using assms(2) by (auto simp: asm_ok_def asm_extends_def
        intro: label_ok_mono [of "length (asm_instructions a)" "length (asm_data a)"])
next
  case (CallInstruction m os line)
  then have "b = a\<lparr>asm_instructions := asm_instructions a @
      [\<lparr>ins_name = m, ins_operands = os, ins_pc = text_offset a, ins_line = line\<rparr>],
      text_offset := text_offset a + 4\<rparr>"
    using assms(1) by (auto simp: call_instruction_def make_instruction_def attempt_Inr Let_def)
  then show ?thesis using assms(2)
    by (auto simp: asm_ok_def asm_extends_def nth_append less_Suc_eq
        intro: label_ok_mono [of "length (asm_instructions a)" "length (asm_data a)"])
qed

lemma asm_eval_append:
  "asm_eval (xs @ ys) a = attempt (asm_eval xs a) (asm_eval ys)"
proof (induction xs arbitrary: a)
  case (Cons x xs)
  then show ?case by (cases "asm_step x a") simp_all
qed simp

lemma asm_eval_ok: "asm_eval calls a = Inr b \<Longrightarrow> asm_ok a \<Longrightarrow> asm_ok b \<and> asm_extends a b"
proof (induction calls arbitrary: a)
  case (Cons call calls)
  then obtain c where c: "asm_step call a = Inr c" "asm_eval calls c = Inr b" by (auto simp: attempt_Inr)
  then show ?case
    using asm_step_ok [OF c(1) Cons.prems(2)] Cons.IH [OF c(2)] asm_extends_trans by blast
qed simp

lemma Assembler_new_ok: "asm_ok Assembler_new"
  by (simp add: asm_ok_def Assembler_new_def)

section \<open>Text in memory\<close>

lemma encode_all_nth:
  "encode_all labels is = Inr ws \<Longrightarrow> length ws = length is \<and> (\<forall>k < length is. encode labels (is ! k) = Inr (ws ! k))"
proof (induction "is" arbitrary: ws)
  case (Cons i "is")
  then obtain w ws' where "encode labels i = Inr w" "encode_all labels is = Inr ws'" "ws = w # ws'"
    by (auto simp: attempt_Inr)
  then show ?case using Cons.IH by (auto simp: nth_Cons split: nat.split)
qed simp

lemma encoded_word [simp]: "length (encodeLittleEndianWord False w) = 4"
  by (simp add: encodeLittleEndianWord_eq)

lemma pack_V_length [simp]: "length (pack_V ws) = 4 * length ws"
  by (induction ws) (simp_all add: pack_V_def)

lemma pack_V_word: "k < length ws \<Longrightarrow> take 4 (drop (4 * k) (pack_V ws)) = encodeLittleEndianWord False (of_int (ws ! k))"
proof (induction ws arbitrary: k)
  case (Cons w ws)
  then show ?case by (cases k) (simp_all add: pack_V_def)
qed simp

lemma read32_pack_V:
  assumes "k < length ws" "Bytes m = pack_V ws @ rest" "length (Bytes m) < 2 ^ 32"
  shows "read32 m (of_nat (4 * k)) = Inr (of_int (ws ! k))"
proof -
  have n: "4 * k + 4 \<le> length (Bytes m)" using assms(1,2) by simp
  then have u: "unat (of_nat (4 * k) :: u32) = 4 * k"
    using assms(3)
    by (simp add: unat_of_nat take_bit_nat_eq_self del: of_nat_mult)
  have "take 4 (drop (4 * k) (Bytes m)) = encodeLittleEndianWord False (of_int (ws ! k))"
    using pack_V_word [OF assms(1)] assms(1) by (simp add: assms(2))
  then show ?thesis using n assms(3)
    by (simp add: read32_eq in_bounds_def aligned_def u decodeLittleEndianWord_eq encodeLittleEndianWord_eq
        del: of_nat_mult)
qed

section \<open>Jumps\<close>

lemma encode_meaning: "encode labels ins = Inr w \<Longrightarrow> meaning labels ins = Some (decode (of_int w))"
  using reads_back_encode [of labels ins] by simp

text \<open>The operand of a jump counts words from 0, that of a branch words from its own address.\<close>

lemma jump_target:
  assumes "jump_of labels (RSymbol s) = Some operand"
  obtains lab where "labels s = Some lab" "label_section lab = TextSection" "0 \<le> label_offset lab"
    "label_offset lab < 2 ^ 28" "Value operand * 4 = of_int (label_offset lab)"
proof -
  obtain lab where lab: "labels s = Some lab" "label_section lab = TextSection" "label_offset lab mod 4 = 0"
    "0 \<le> label_offset lab div 4" "label_offset lab div 4 < 2 ^ 26" "operand = Imm (of_int (label_offset lab div 4))"
    using assms by (auto simp: jump_of_def split: option.splits if_splits)
  define q where "q = label_offset lab div 4"
  have o: "label_offset lab = q * 4" using lab(3) by (auto simp: q_def)
  show ?thesis using that [OF lab(1,2)] lab(4-6) unfolding q_def [symmetric] o by simp
qed

lemma branch_target:
  assumes "branch_of labels pc (RSymbol s) = Some operand"
  obtains lab where "labels s = Some lab" "label_section lab = TextSection"
    "of_int pc + Value operand * 4 = of_int (label_offset lab)"
proof -
  obtain lab where lab: "labels s = Some lab" "label_section lab = TextSection" "(label_offset lab - pc) mod 4 = 0"
    "operand = Imm (of_int ((label_offset lab - pc) div 4))"
    using assms by (auto split: option.splits if_splits)
  define q where "q = (label_offset lab - pc) div 4"
  have "label_offset lab = pc + q * 4" using lab(3) unfolding q_def by presburger
  then show ?thesis using that [OF lab(1,2)] lab(4) unfolding q_def [symmetric] by simp
qed

lemma low_pc: "(pc :: u32) < 0x10000000 \<Longrightarrow> pc AND 0xF0000000 = 0"
proof -
  assume "pc < 0x10000000"
  then have "take_bit 28 pc = pc" 
    by (simp add: word_unat_eq_iff unsigned_take_bit_eq take_bit_nat_eq_self word_less_nat_alt)
  then have "pc = pc AND 0x0FFFFFFF" by (simp add: take_bit_eq_mask mask_eq_exp_minus_1)
  then have "pc AND 0xF0000000 = pc AND (0x0FFFFFFF AND 0xF0000000)" by (metis and.assoc)
  then show ?thesis by simp
qed

section \<open>Properties\<close>

text \<open>C21. A label names what follows it: a label of the text is the address of the next instruction,
  the instructions before it stay where they are, and instruction \<open>k\<close> of the program is at address
  \<open>4 * k\<close>; a label of the data is the place of the next byte.\<close>

theorem labels_name_what_follows:
  assumes "asm_eval (pre @ CallLabel (RSymbol s) # post) Assembler_new = Inr a"
  shows "\<exists>b lab. asm_eval pre Assembler_new = Inr b \<and> asm_labels a s = Some lab
    \<and> current_section b = Some (label_section lab)
    \<and> label_offset lab = (if label_section lab = TextSection then 4 * int (length (asm_instructions b))
        else int (length (asm_data b)))
    \<and> (\<exists>new. asm_instructions a = asm_instructions b @ new) \<and> (\<exists>new. asm_data a = asm_data b @ new)
    \<and> (\<forall>k < length (asm_instructions a). ins_pc (asm_instructions a ! k) = 4 * int k)"
proof -
  obtain b c where b: "asm_eval pre Assembler_new = Inr b" "define_label s b = Inr c" "asm_eval post c = Inr a"
    using assms by (auto simp: asm_eval_append attempt_Inr call_label_def)
  have ok: "asm_ok b" using asm_eval_ok [OF b(1) Assembler_new_ok] by simp
  have c: "asm_ok c" "asm_extends b c" using asm_step_ok [of "CallLabel (RSymbol s)" b c] b(2) ok
    by (simp_all add: call_label_def)
  have a: "asm_ok a" "asm_extends c a" using asm_eval_ok [OF b(3) c(1)] by simp_all
  obtain sec where sec: "current_section b = Some sec" "asm_labels c s = Some \<lparr>label_section = sec, label_offset =
      (if sec = TextSection then text_offset b else int (length (asm_data b)))\<rparr>"
    using b(2) by (auto simp: define_label_def Let_def split: option.splits if_splits)
  then have "asm_labels a s = asm_labels c s"
    using a(2) by (auto simp: asm_extends_def map_le_def dom_def)
  then show ?thesis
    using b(1) sec ok a(1) asm_extends_trans [OF c(2) a(2)] by (auto simp: asm_ok_def asm_extends_def)
qed

lemma labels_name_what_follows_witness:
  "\<exists>a lab. asm_eval ([CallSection (RSymbol ''text''), CallInstruction MFlush [] 2] @ CallLabel (RSymbol ''Loop'')
      # [CallInstruction MJ [RSymbol ''Loop''] 4]) Assembler_new = Inr a
    \<and> asm_labels a ''Loop'' = Some lab \<and> label_offset lab = 4"
proof -
  let ?pre = "[CallSection (RSymbol ''text''), CallInstruction MFlush [] 2]"
  let ?post = "[CallInstruction MJ [RSymbol ''Loop''] 4]"
  obtain b where b: "asm_eval ?pre Assembler_new = Inr b" "length (asm_instructions b) = 1" "current_section b = Some TextSection"
    by (simp add: open_section_def call_instruction_def make_instruction_def require_section_def Assembler_new_def Let_def)
  obtain a where a: "asm_eval (?pre @ CallLabel (RSymbol ''Loop'') # ?post) Assembler_new = Inr a"
    by (simp add: open_section_def call_instruction_def make_instruction_def require_section_def Assembler_new_def
        call_label_def define_label_def Let_def)
  from labels_name_what_follows [OF a] a b show ?thesis by auto
qed

text \<open>C20. A taken branch goes to its label, and a jump too when it is itself below 2^28, as every address
  of the emulator's memory is: executing the encoded word of \<open>J\<close> or \<open>Beq\<close> at the address the assembler
  gave it leaves the program counter at the label's address (behind the instruction when the registers
  of the branch differ) and changes nothing else. A jump at a higher address, which the encoder
  accepts as well, keeps the upper four bits of its own address and misses the label.\<close>

theorem jumps_reach_their_labels:
  assumes "encode labels ins = Inr w"
    and "ins_name ins = MJ \<and> ins_operands ins = [RSymbol s]
      \<or> ins_name ins = MBeq \<and> ins_operands ins = [RRegister p, RRegister q, RSymbol s]"
    and "PC (Cpu C) = of_int (ins_pc ins)"
  shows "\<exists>lab. labels s = Some lab \<and> label_section lab = TextSection
    \<and> executeInstructionSwitch H C (decode (of_int w)) = Done (C\<lparr>Cpu := (Cpu C)\<lparr>PC :=
        (if ins_name ins = MJ
         then if PC (Cpu C) < 0x10000000 then of_int (label_offset lab)
              else (PC (Cpu C) AND 0xF0000000) OR of_int (label_offset lab)
         else if Registers (Cpu C) ! nat p = Registers (Cpu C) ! nat q
         then of_int (label_offset lab) else PC (Cpu C) + 4)\<rparr>\<rparr>)"
  using assms(2)
proof (elim disjE conjE)
  assume ins: "ins_name ins = MJ" "ins_operands ins = [RSymbol s]"
  then obtain operand where operand: "jump_of labels (RSymbol s) = Some operand"
    "decode (of_int w) = \<lparr>OpCode = OP_J, Operands = [operand], ThreadedHandler = Some threadedJ\<rparr>"
    using encode_meaning [OF assms(1)]
    by (cases "jump_of labels (RSymbol s)") (auto simp: meaning_def meaning_of_def instruction_of_def)
  then show ?thesis using ins(1) low_pc [of "PC (Cpu C)"]
    by (elim jump_target) (simp add: executeInstructionSwitch_def executeJ_def Let_def)
next
  assume ins: "ins_name ins = MBeq" "ins_operands ins = [RRegister p, RRegister q, RSymbol s]"
  then obtain operand where operand: "branch_of labels (ins_pc ins) (RSymbol s) = Some operand"
    "0 \<le> p" "p < 32" "0 \<le> q" "q < 32"
    "decode (of_int w) = \<lparr>OpCode = OP_BEQ, Operands = [Reg (of_int p), Reg (of_int q), operand],
      ThreadedHandler = Some threadedBeq\<rparr>"
    using encode_meaning [OF assms(1)]
    by (cases "branch_of labels (ins_pc ins) (RSymbol s)")
      (auto simp: meaning_def meaning_of_def instruction_of_def simp del: branch_of.simps split: if_splits)
  obtain lab where "labels s = Some lab" "label_section lab = TextSection"
    "of_int (ins_pc ins) + Value operand * 4 = of_int (label_offset lab)"
    by (rule branch_target [OF operand(1)])
  moreover have "unat (of_int n :: u32) = nat n" if "0 \<le> n" "n < 32" for n
    using that by (simp add: unat_eq_nat_uint uint_word_of_int_eq take_bit_int_eq_self)
  ultimately show ?thesis using ins(1) operand(2-6)
    by (auto simp: executeInstructionSwitch_def executeBeq_def Let_def reg_def advance_def assms(3))
qed

lemma jumps_reach_their_labels_witness:
  "executeInstructionSwitch silent_host (new_context 8) (decode (of_int 0xFC000001)) =
     Done ((new_context 8)\<lparr>Cpu := (Cpu (new_context 8))\<lparr>PC := 4\<rparr>\<rparr>)"
proof -
  have e: "encode test_labels (test_ins MJ [RSymbol ''Target'']) = Inr 0xFC000001"
    by (rule assembler_test_vectors)
  have pc: "PC (Cpu (new_context 8)) = 0"
    by (simp add: new_context_def ExecutionContext_new_def TICpuState_new_def)
  from jumps_reach_their_labels [OF e, of "''Target''" 0 0 "new_context 8" silent_host]
  show ?thesis by (auto simp: pc test_ins_def test_labels_def)
qed

text \<open>What a successful run of the assembler has written.\<close>

lemma toy_as_cases:
  assumes "toy_as_main host arguments = Inr (0, Some (out, img))"
    "text_temp host \<noteq> data_temp host"
  obtains calls a words where "source_calls host (arguments ! 0) = Some calls" "asm_eval calls Assembler_new = Inr a"
    "encode_all (asm_labels a) (asm_instructions a) = Inr words" "img = elf_image (pack_V words) (asm_data a)"
    "words \<noteq> []"
proof -
  obtain calls a words r where m: "source_calls host (arguments ! 0) = Some calls" "asm_eval calls Assembler_new = Inr a"
    "encode_all (asm_labels a) (asm_instructions a) = Inr words"
    "write_elf host r (pack_V words) (asm_data a) = Inr (out, img)"
    using assms(1) by (auto simp: toy_as_main_def Let_def attempt_Inr split: if_splits option.splits)
  moreover have "img = elf_image (pack_V words) (asm_data a) \<and> pack_V words \<noteq> []"
    using m(4) assms(2)
    by (auto simp: write_elf_def writer_main_def writeElf_def split: if_splits prod.splits option.splits sum.splits)
  moreover from this have "words \<noteq> []" by (cases words) (simp_all add: pack_V_def)
  ultimately show ?thesis using that [OF m(1-3)] by simp
qed

text \<open>C7. From the source file to the machine: when the assembler has written a file and the emulator
  loads it into a memory with room for text and data, the program counter is at the first
  instruction, word \<open>k\<close> of the memory decodes to the meaning of instruction \<open>k\<close> of the source file,
  the machine at that address executes it, and the data of the source file follows the text.\<close>

theorem assembled_program_is_executed:
  fixes H :: "'w Host"
  assumes "toy_as_main host arguments = Inr (0, Some (out, img))"
    and "text_temp host \<noteq> data_temp host" "load out = Some (saved_file img)" "length (Bytes (Memory C)) < 2 ^ 32"
    and "length (concat (map section_data (image_sections img))) \<le> length (Bytes (Memory C))"
  shows "\<exists>calls a D. source_calls host (arguments ! 0) = Some calls \<and> asm_eval calls Assembler_new = Inr a
    \<and> loadBinary load C out 0 = Done D \<and> PC (Cpu D) = 0
    \<and> (\<forall>k < length (asm_instructions a). \<exists>i. meaning (asm_labels a) (asm_instructions a ! k) = Some i
         \<and> (\<forall>E. Bytes (Memory E) = Bytes (Memory D) \<longrightarrow> PC (Cpu E) = of_nat (4 * k) \<longrightarrow>
              isa_step H E = map_outcome arch (catchSimulationException (executeInstructionSwitch H E i))))
    \<and> take (length (asm_data a)) (drop (4 * length (asm_instructions a)) (Bytes (Memory D))) = asm_data a"
proof -
  obtain calls a words where s: "source_calls host (arguments ! 0) = Some calls" "asm_eval calls Assembler_new = Inr a"
    "encode_all (asm_labels a) (asm_instructions a) = Inr words" "img = elf_image (pack_V words) (asm_data a)"
    "words \<noteq> []" using toy_as_cases [OF assms(1,2)] .
  have n: "length words = length (asm_instructions a)"
    "\<And>k. k < length (asm_instructions a) \<Longrightarrow> encode (asm_labels a) (asm_instructions a ! k) = Inr (words ! k)"
    using encode_all_nth [OF s(3)] by simp_all
  have "pack_V words \<noteq> []" using s(5) pack_V_length [of words] by fastforce
  moreover have "length (pack_V words) + length (asm_data a) \<le> length (Bytes (Memory C))"
    using assms(5) by (simp add: s(4) elf_image_def Let_def)
  ultimately obtain D where D: "loadBinary load C out 0 = Done D" "PC (Cpu D) = 0"
    "Bytes (Memory D) = pack_V words @ asm_data a @ drop (length (pack_V words) + length (asm_data a)) (Bytes (Memory C))"
    using written_image_loads [of "pack_V words" load out "asm_data a" C] assms(3,4) s(4) by auto
  have "\<exists>i. meaning (asm_labels a) (asm_instructions a ! k) = Some i
      \<and> (\<forall>E. Bytes (Memory E) = Bytes (Memory D) \<longrightarrow> PC (Cpu E) = of_nat (4 * k) \<longrightarrow>
           isa_step H E = map_outcome arch (catchSimulationException (executeInstructionSwitch H E i)))"
    if k: "k < length (asm_instructions a)" for k :: nat
  proof (intro exI conjI allI impI)
    show "meaning (asm_labels a) (asm_instructions a ! k) = Some (decode (of_int (words ! k)))"
      by (rule encode_meaning [OF n(2) [OF k]])
    fix E :: "'w ExecutionContext"
    assume E: "Bytes (Memory E) = Bytes (Memory D)" "PC (Cpu E) = of_nat (4 * k)"
    have "length (Bytes (Memory D)) < 2 ^ 32"
      using D(3) assms(4) \<open>length (pack_V words) + length (asm_data a) \<le> length (Bytes (Memory C))\<close> by simp
    then have "read32 (Memory E) (PC (Cpu E)) = Inr (of_int (words ! k))"
      using read32_pack_V [of k words "Memory E"] k n(1) D(3) E by simp
    then show "isa_step H E = map_outcome arch (catchSimulationException
        (executeInstructionSwitch H E (decode (of_int (words ! k)))))" by (simp add: isa_step_eq)
  qed
  then show ?thesis using s(1,2) D n(1) by auto
qed

text \<open>A source file: a flush, an endless loop, and a byte of data.\<close>

definition loop_host :: AsHost where
  "loop_host = \<lparr>
     source_calls = [''loop.rb'' \<mapsto>
       [CallSection (RSymbol ''text''), CallInstruction MFlush [] 2, CallLabel (RSymbol ''Loop''),
        CallInstruction MJ [RSymbol ''Loop''] 4, CallSection (RSymbol ''data''), CallBytes (RString [7])]],
     ELF_WRITER_PATH = ''toy_elf_writer'', is_executable = (\<lambda>_. True), text_temp = ''t'', data_temp = ''d'',
     elf_save = (\<lambda>_ _. True)\<rparr>"

lemma loop_host_assembles:
  "toy_as_main loop_host [''loop.rb''] =
     Inr (0, Some (''loop.elf'', elf_image (pack_V [0x98000000, 0xFC000001]) [7]))"
  by (simp add: toy_as_main_def loop_host_def output_path_for_def delete_suffix_def extname_def base_name_def
      strip_slashes_def open_section_def call_instruction_def make_instruction_def require_section_def
      Assembler_new_def call_label_def define_label_def call_bytes_def encode_def encode_flush_def encode_j_def
      require_operand_count_def label_address_def require_alignment_def unsigned_immediate_def push_bit_eq_mult
      drop_bit_eq_div write_elf_def writer_main_def writeElf_def pack_V_def encodeLittleEndianWord_eq
      Let_def)

lemma assembled_program_is_executed_witness:
  "\<exists>D. loadBinary (\<lambda>_. Some (saved_file (elf_image (pack_V [0x98000000, 0xFC000001]) [7]))) (new_context 16) ''loop.elf'' 0
       = Done D \<and> PC (Cpu D) = 0 \<and> Bytes (Memory D) ! 8 = 7"
proof -
  have n: "length (Bytes (Memory (new_context 16))) = 16"
    by (simp add: new_context_def ExecutionContext_new_def TIMemory_new_def)
  have "length (concat (map section_data (image_sections (elf_image (pack_V [0x98000000, 0xFC000001]) [7])))) \<le> 16"
    by (simp add: elf_image_def Let_def)
  from assembled_program_is_executed [OF loop_host_assembles, of "\<lambda>_. Some (saved_file (elf_image (pack_V [0x98000000, 0xFC000001]) [7]))"
      "new_context 16" "silent_host :: unit Host", unfolded n, OF _ _ _ this]
  obtain calls a D where D: "source_calls loop_host ''loop.rb'' = Some calls" "asm_eval calls Assembler_new = Inr a"
    "loadBinary (\<lambda>_. Some (saved_file (elf_image (pack_V [0x98000000, 0xFC000001]) [7]))) (new_context 16) ''loop.elf'' 0
       = Done D" "PC (Cpu D) = 0"
    "take (length (asm_data a)) (drop (4 * length (asm_instructions a)) (Bytes (Memory D))) = asm_data a" by (auto simp: loop_host_def)
  have "asm_data a = [7]" "length (asm_instructions a) = 2"
    using D(1,2) by (auto simp: loop_host_def open_section_def call_instruction_def make_instruction_def
        require_section_def Assembler_new_def call_label_def define_label_def call_bytes_def Let_def)
  then have "take 1 (drop 8 (Bytes (Memory D))) = [7]" using D(5) by simp
  then have "Bytes (Memory D) ! 8 = 7" by (cases "drop 8 (Bytes (Memory D))") (auto simp: nth_via_drop)
  then show ?thesis using D(3,4) by blast
qed

end
