(* ===== verification/Unflushed.thy ===== *)
theory Unflushed
  imports FlushDiscipline
begin

text \<open>
  Why programs have to FLUSH: a program that stores the word of SYSCALL over the INVALID behind
  the store, in the same block, and runs into it. The machine exits with 42; the engines execute
  the INVALID they decoded before the store.
\<close>

definition unflushed_context :: "TIExecutionMode \<Rightarrow> unit ExecutionContext" where
  "unflushed_context md = (ExecutionContext_new 8 md 0 0 ())\<lparr>
     Cpu := \<lparr>Registers = (replicate 32 0)[0 := 42, 1 := 4, 2 := 0x1E, 8 := 60], PC = 0\<rparr>,
     Memory := \<lparr>Bytes = [0, 0, 0x22, 0x80, 0, 0, 0, 0],
       ExecutableRegions = [\<lparr>Address = 0, Size = 8\<rparr>], DirtyCodeRanges = []\<rparr>\<rparr>"

definition unflushed_at :: "TIExecutionMode \<Rightarrow> TIExecutionState \<Rightarrow> unit ExecutionContext" where
  "unflushed_at md st = (unflushed_context md)\<lparr>
     Cpu := (Cpu (unflushed_context md))\<lparr>PC := 4\<rparr>, State := st,
     Memory := (Memory (unflushed_context md))\<lparr>Bytes := [0, 0, 0x22, 0x80, 0x1E, 0, 0, 0]\<rparr>\<rparr>"

lemma unflushed_start:
  "State (unflushed_context md) = RUN" "PC (Cpu (unflushed_context md)) = 0"
  "BlockCache (unflushed_context md) = emptyCache" "Mode (unflushed_context md) = md"
  "State (unflushed_at md st) = st" "PC (Cpu (unflushed_at md st)) = 4"
  by (simp_all add: unflushed_at_def unflushed_context_def ExecutionContext_new_def TIExecutionState_new_def)

lemma unflushed_reads:
  "read32 (Memory (unflushed_context md)) 0 = Inr 0x80220000"
  "read32 (Memory (unflushed_context md)) 4 = Inr 0"
  "read32 (Memory (unflushed_at md st)) 4 = Inr 0x1E"
  by (simp_all add: read32_eq in_bounds_def unflushed_context_def unflushed_at_def aligned_def
      decodeLittleEndianWord_eq word_of_bytes_def)

lemma unflushed_regs:
  "Registers (Cpu (unflushed_context md)) ! 1 = 4" "Registers (Cpu (unflushed_context md)) ! Suc 0 = 4"
  "Registers (Cpu (unflushed_context md)) ! 2 = 0x1E" "Registers (Cpu (unflushed_context md)) ! 8 = 60"
  "Registers (Cpu (unflushed_context md)) ! 0 = 42"
  by (simp_all add: unflushed_context_def)

lemma unflushed_store:
  "write32 (Memory (unflushed_context md)) 4 0x1E = Inr (markCodeDirty (Memory (unflushed_at md st)) 4 4)"
  by (simp add: write32_eq in_bounds_def aligned_def unflushed_context_def unflushed_at_def
      encodeLittleEndianWord_eq)

lemma decode_zero: "decode 0 = \<lparr>OpCode = OP_INVALID, Operands = [], ThreadedHandler = Some (getThreadedHandler OP_INVALID)\<rparr>"
  by (simp add: decode_def DecodeVector_def info_def)

lemma unflushed_machine:
  "isa_ends H (arch (unflushed_context md)) (Done (arch (unflushed_at md \<lparr>Status = HALTED, ExitCode = 42\<rparr>)))"
proof -
  let ?A = "unflushed_context md" and ?B = "unflushed_at md RUN" and ?E = "unflushed_at md \<lparr>Status = HALTED, ExitCode = 42\<rparr>"
  have r: "read32 (Memory ?A) (PC (Cpu ?A)) = Inr 0x80220000" "read32 (Memory ?B) (PC (Cpu ?B)) = Inr 0x1E"
    using unflushed_reads [of md] by (simp_all add: unflushed_start)
  have "map_outcome arch (executeInstructionSwitch H ?A (decode 0x80220000)) = Done (arch ?B)"
    using unflushed_store [of md RUN]
    by (simp add: executeInstructionSwitch_def decode_patching executeSt_def Let_def reg_def unflushed_regs)
      (simp add: arch_def unflushed_at_def advance_def undirtied_def ExecutionContext_new_def
        unflushed_context_def TIExecutionState_new_def)
  then have s: "isa_step H (arch ?A) = Done (arch ?B)"
    using isa_step_arch [OF r(1), of H] by (simp add: arch_catch)
  have "map_outcome arch (executeInstructionSwitch H ?B (decode 0x1E)) = Done (arch ?E)"
    by (simp add: executeInstructionSwitch_def decode_exit executeSyscall_def Handlers_def
        READ_NUMBER_SYSCALL_def halt_def put_sys_def unflushed_at_def unflushed_regs Let_def)
      (simp add: arch_def undirtied_def)
  then have "isa_step H (arch ?B) = Done (arch ?E)"
    using isa_step_arch [OF r(2), of H] by (simp add: arch_catch)
  then have "isa_path H 2 (arch ?A) (arch ?E)"
    using s by (simp add: numeral_2_eq_2 isa_path_Suc unflushed_start)
  then show ?thesis by (rule isa_ends_throw) (simp add: unflushed_start)
qed

lemma getBlock_unflushed:
  "getBlock emptyCache 0 (Memory (unflushed_context md)) = Some (Done (emptyCache\<lparr>Blocks :=
     (Blocks emptyCache)(0 := Some (TIBasicBlock_new 0 [decode 0x80220000, decode 0]))\<rparr>))"
proof -
  have len: "length (Bytes (Memory (unflushed_context md))) = 8" by (simp add: unflushed_context_def)
  have "decodeBlock_loop (Memory (unflushed_context md)) 0 [] = Some (Inr [decode 0x80220000, decode 0])"
    using unflushed_reads [of md] len
    by (simp add: decodeBlock_loop.simps [of _ 0] decodeBlock_loop.simps [of _ 4] decode_patching decode_zero mem_size_def)
  then show ?thesis by (simp add: getBlock_def decodeBlock_def emptyCache_def)
qed

lemma unflushed_engine:
  assumes "md \<noteq> JIT"
  shows "\<exists>D. run L H (unflushed_context md) = Some (Throw (SimulationException INVALID_INSTRUCTION) D)
    \<and> Status (State D) = FAULTED"
proof -
  define C where "C = (unflushed_context md)\<lparr>BlockCache := emptyCache\<lparr>Blocks :=
     (Blocks emptyCache)(0 := Some (TIBasicBlock_new 0 [decode 0x80220000, decode 0]))\<rparr>\<rparr>"
  have "\<exists>D. executeSwitch_loop H C [decode 0x80220000, decode 0] = Throw (SimulationException INVALID_INSTRUCTION) D"
    using unflushed_store [of md RUN]
    by (simp add: C_def executeInstructionSwitch_def decode_patching decode_zero executeSt_def executeInvalid_def
        Let_def reg_def unflushed_regs)
  then obtain D where D: "executeSwitchBlock H C (TIBasicBlock_new 0 [decode 0x80220000, decode 0])
      = Throw (SimulationException INVALID_INSTRUCTION) D"
    by (auto simp: executeSwitchBlock_def TIBasicBlock_new_def)
  moreover have "block_shape [decode 0x80220000, decode 0]"
    by (simp add: decode_wf) (simp add: decode_patching)
  then have "executeThreadedBlock H C (TIBasicBlock_new 0 [decode 0x80220000, decode 0])
      = executeSwitchBlock H C (TIBasicBlock_new 0 [decode 0x80220000, decode 0])"
    by (intro threaded_eq_switch) (simp add: TIBasicBlock_new_def)
  ultimately have "step L H (unflushed_context md) =
      Some (Throw (SimulationException INVALID_INSTRUCTION) (D\<lparr>State := fault (State D)\<rparr>))"
    using assms unfolding C_def by (cases md)
      (simp_all add: step_def getBlock_unflushed unflushed_start executeBlock_def)
  then show ?thesis
    by (simp add: run.simps [of L H "unflushed_context md"] unflushed_start fault_def)
qed

lemma flush_is_needed:
  assumes "md \<noteq> JIT"
  shows "isa_ends H (arch (unflushed_context md)) (Done (arch (unflushed_at md \<lparr>Status = HALTED, ExitCode = 42\<rparr>)))
    \<and> (\<exists>D. run L H (unflushed_context md) = Some (Throw (SimulationException INVALID_INSTRUCTION) D)
          \<and> Status (State D) = FAULTED)"
  using unflushed_machine unflushed_engine [OF assms] by blast

end
