(* ===== verification/CommandLine.thy ===== *)
theory CommandLine
  imports Loader
begin

text \<open>
  \<open>main.cpp\<close>: the command line and the program around \<open>loadBinary\<close> and \<open>run\<close>. \<open>std::stoull\<close>
  is modelled as the C++ standard has it (base 10, C locale): white space, an optional sign,
  digits; a minus sign negates modulo \<open>2 ^ 64\<close>. Message texts are not modelled, the class of
  the exception is. \<open>NullProgramName\<close> is not an exception but what C++ leaves undefined: started
  without any argument, not even its name, the program adds a null pointer to a \<open>std::string\<close>.
\<close>

section \<open>std::stoull\<close>

datatype cli_error = NullProgramName | UsageError | UnknownArgument | InvalidThreshold | InvalidLevel
  | StdInvalidArgument | StdOutOfRange

definition isSpace :: "char \<Rightarrow> bool" where
  "isSpace c \<longleftrightarrow> c = CHR '' '' \<or> c = CHR 0x09 \<or> c = CHR 0x0A \<or> c = CHR 0x0B \<or> c = CHR 0x0C \<or> c = CHR 0x0D"

definition digits :: string where
  "digits = ''0123456789''"

definition isDigit :: "char \<Rightarrow> bool" where
  "isDigit c \<longleftrightarrow> c \<in> set digits"

definition digitValue :: "char \<Rightarrow> nat" where
  "digitValue c = length (takeWhile (\<lambda>d. d \<noteq> c) digits)"

definition decimalValue :: "string \<Rightarrow> nat" where
  "decimalValue s = foldl (\<lambda>n c. 10 * n + digitValue c) 0 s"

definition stoull :: "string \<Rightarrow> cli_error + (u64 \<times> nat)" where
  "stoull s =
     (let spaces = takeWhile isSpace s;
          s1 = drop (length spaces) s;
          sign = (case s1 of c # _ \<Rightarrow> if c = CHR ''-'' \<or> c = CHR ''+'' then [c] else [] | [] \<Rightarrow> []);
          ds = takeWhile isDigit (drop (length sign) s1);
          n = decimalValue ds
      in if ds = [] then Inl StdInvalidArgument
         else if n \<ge> 2 ^ 64 then Inl StdOutOfRange
         else Inr (if sign = ''-'' then - of_nat n else of_nat n,
                   length spaces + length sign + length ds))"

section \<open>Options\<close>

record CommandLineOptions =
  Filename :: string
  OptMode :: TIExecutionMode
  OptJitThreshold :: u64
  OptJitOptimizationLevel :: u8

definition defaultOptions :: "string \<Rightarrow> CommandLineOptions" where
  "defaultOptions file = \<lparr>Filename = file, OptMode = THREADED, OptJitThreshold = 0,
     OptJitOptimizationLevel = 0\<rparr>"

text \<open>\<open>Argument.rfind(Prefix, 0) == 0\<close> and the \<open>substr\<close> after it.\<close>

definition startsWith :: "string \<Rightarrow> string \<Rightarrow> bool" where
  "startsWith pre s \<longleftrightarrow> take (length pre) s = pre"

definition parseArgument :: "string \<Rightarrow> CommandLineOptions \<Rightarrow> cli_error + CommandLineOptions" where
  "parseArgument argument options =
     (if argument = ''--engine=switch'' then Inr (options\<lparr>OptMode := SWITCH\<rparr>)
      else if argument = ''--engine=jit'' then Inr (options\<lparr>OptMode := JIT\<rparr>)
      else if argument = ''--engine=threaded'' then Inr (options\<lparr>OptMode := THREADED\<rparr>)
      else if startsWith ''--jit-threshold='' argument then
        (let v = drop (length ''--jit-threshold='') argument
         in case stoull v of
              Inl e \<Rightarrow> Inl e
            | Inr (threshold, parsedCharacters) \<Rightarrow>
                if parsedCharacters \<noteq> length v then Inl InvalidThreshold
                else Inr (options\<lparr>OptJitThreshold := threshold\<rparr>))
      else if startsWith ''--jit-opt-level='' argument then
        (let v = drop (length ''--jit-opt-level='') argument
         in case stoull v of
              Inl e \<Rightarrow> Inl e
            | Inr (parsedLevel, parsedCharacters) \<Rightarrow>
                if parsedCharacters \<noteq> length v \<or> parsedLevel > 2 then Inl InvalidLevel
                else Inr (options\<lparr>OptJitOptimizationLevel := ucast parsedLevel\<rparr>))
      else Inl UnknownArgument)"

fun parseArguments :: "string list \<Rightarrow> CommandLineOptions \<Rightarrow> cli_error + CommandLineOptions" where
  "parseArguments [] options = Inr options"
| "parseArguments (argument # rest) options =
     (case parseArgument argument options of
        Inl e \<Rightarrow> Inl e
      | Inr options1 \<Rightarrow> parseArguments rest options1)"

definition parseCommandLine :: "string list \<Rightarrow> cli_error + CommandLineOptions" where
  "parseCommandLine arguments =
     (if length arguments < 2 \<or> length arguments > 5
      then Inl (if arguments = [] then NullProgramName else UsageError)
      else parseArguments (drop 2 arguments) (defaultOptions (arguments ! 1)))"

section \<open>The program\<close>

definition MEMORY_SIZE :: nat where
  "MEMORY_SIZE = 64 * 1024 * 1024"

text \<open>What the process leaves: its exit status and the exit code it printed, if it did.\<close>

datatype 'w process_end =
    Ended (exitStatus: nat) (printedCode: "u32 option") (endContext: "'w ExecutionContext option")
  | Undefined_behaviour

definition main_program ::
  "(string \<Rightarrow> ElfFile option) \<Rightarrow> 'w ir_lib \<Rightarrow> 'w Host \<Rightarrow> 'w \<Rightarrow> string list \<Rightarrow> 'w process_end option" where
  "main_program load L H w arguments =
     (case parseCommandLine arguments of
        Inl e \<Rightarrow> Some (if e = NullProgramName then Undefined_behaviour else Ended 1 None None)
      | Inr options \<Rightarrow>
          (let C = ExecutionContext_new MEMORY_SIZE (OptMode options) (OptJitThreshold options)
                     (OptJitOptimizationLevel options) w
           in case loadBinary load C (Filename options) 0 of
                Throw e C1 \<Rightarrow> Some (Ended 1 None (Some C1))
              | Stuck \<Rightarrow> Some Undefined_behaviour
              | Done C1 \<Rightarrow>
                 (case run L H C1 of
                    None \<Rightarrow> None
                  | Some Stuck \<Rightarrow> Some Undefined_behaviour
                  | Some (Throw e C2) \<Rightarrow> Some (Ended 1 None (Some C2))
                  | Some (Done C2) \<Rightarrow> Some (Ended 0 (Some (ExitCode (State C2))) (Some C2)))))"

section \<open>Decimal numbers\<close>

fun decimal :: "nat \<Rightarrow> string" where
  "decimal n = (if n < 10 then [digits ! n] else decimal (n div 10) @ [digits ! (n mod 10)])"

declare decimal.simps [simp del]

lemma digit_values: "k < 10 \<Longrightarrow> digitValue (digits ! k) = k \<and> isDigit (digits ! k)"
proof -
  have "\<forall>k \<in> {..<10}. digitValue (digits ! k) = k \<and> isDigit (digits ! k)"
    by (simp add: digitValue_def digits_def isDigit_def lessThan_nat_numeral lessThan_Suc)
  then show "k < 10 \<Longrightarrow> ?thesis" by blast
qed

lemma decimal_digits: "list_all isDigit (decimal n) \<and> decimal n \<noteq> []"
proof (induction n rule: decimal.induct)
  case (1 n)
  then show ?case using digit_values [of n] digit_values [of "n mod 10"]
    by (cases "n < 10") (simp_all add: decimal.simps [of n])
qed

lemma decimalValue_decimal: "decimalValue (decimal n) = n"
proof (induction n rule: decimal.induct)
  case (1 n)
  then show ?case using digit_values [of n] digit_values [of "n mod 10"]
    by (cases "n < 10") (simp_all add: decimal.simps [of n] decimalValue_def)
qed

lemma digit_no_space: "isDigit c \<Longrightarrow> \<not> isSpace c \<and> c \<noteq> CHR ''-'' \<and> c \<noteq> CHR ''+''"
  by (auto simp: isDigit_def digits_def isSpace_def)

lemma stoull_decimal:
  assumes "n < 2 ^ 64"
  shows "stoull (decimal n) = Inr (of_nat n, length (decimal n))"
proof -
  obtain c cs where d: "decimal n = c # cs" using decimal_digits [of n] by (cases "decimal n") auto
  have all: "list_all isDigit (decimal n)" using decimal_digits by blast
  then have c: "\<not> isSpace c" "c \<noteq> CHR ''-''" "c \<noteq> CHR ''+''" using digit_no_space [of c] by (simp_all add: d)
  have "takeWhile isDigit (decimal n) = decimal n"
    using all by (simp add: takeWhile_eq_all_conv list_all_iff)
  then show ?thesis using assms c decimalValue_decimal [of n]
    by (simp add: stoull_def d Let_def)
qed

section \<open>What the parser accepts\<close>

lemma parseArgument_same:
  "(\<exists>r. parseArgument a options = Inr r) \<longleftrightarrow> (\<exists>r. parseArgument a options' = Inr r)"
  by (simp add: parseArgument_def Let_def split: sum.split)

lemma parseArguments_iff:
  "(\<exists>r. parseArguments as options = Inr r) \<longleftrightarrow>
     (\<forall>a \<in> set as. \<exists>r. parseArgument a (defaultOptions []) = Inr r)"
proof (induction "as" arbitrary: options)
  case (Cons a as)
  show ?case
  proof (cases "parseArgument a options")
    case (Inl e)
    then have "\<not> (\<exists>r. parseArgument a (defaultOptions []) = Inr r)"
      using parseArgument_same [of a options "defaultOptions []"] by simp
    then show ?thesis using Inl by simp
  next
    case (Inr options1)
    then have "\<exists>r. parseArgument a (defaultOptions []) = Inr r"
      using parseArgument_same [of a options "defaultOptions []"] by simp
    then show ?thesis using Inr Cons.IH [of options1] by simp
  qed
qed simp

definition options_ok :: "string \<Rightarrow> CommandLineOptions \<Rightarrow> bool" where
  "options_ok file options \<longleftrightarrow> OptJitOptimizationLevel options \<le> 2 \<and> Filename options = file"

lemma parseArgument_keeps:
  "parseArgument a options = Inr r \<Longrightarrow> options_ok file options \<Longrightarrow> options_ok file r"
proof -
  have "(ucast v :: u8) \<le> 2" if "\<not> (2 :: u64) < v" for v
  proof -
    have "unat v \<le> 2" using that by (simp add: not_less word_le_nat_alt)
    then have "unat (ucast v :: u8) \<le> 2"
      by (simp add: unsigned_ucast_eq take_bit_nat_eq_self)
    then show ?thesis by (simp add: word_le_nat_alt)
  qed
  then show "parseArgument a options = Inr r \<Longrightarrow> options_ok file options \<Longrightarrow> options_ok file r"
    by (auto simp: parseArgument_def Let_def options_ok_def split: if_splits sum.splits)
qed

lemma parseArguments_keep:
  "parseArguments as options = Inr r \<Longrightarrow> options_ok file options \<Longrightarrow> options_ok file r"
  by (induction "as" arbitrary: options) (auto dest: parseArgument_keeps split: sum.splits)

text \<open>
  The text of a number: white space, perhaps a sign, then only digits, at least one, of a value below
  \<open>2 ^ 64\<close>; with a minus sign it stands for the negation modulo \<open>2 ^ 64\<close>.
\<close>

definition denotes :: "string \<Rightarrow> u64 \<Rightarrow> bool" where
  "denotes v n \<longleftrightarrow> (\<exists>spaces sign ds. v = spaces @ sign @ ds \<and> list_all isSpace spaces
     \<and> sign \<in> {[], ''+'', ''-''} \<and> ds \<noteq> [] \<and> list_all isDigit ds \<and> decimalValue ds < 2 ^ 64
     \<and> n = (if sign = ''-'' then - of_nat (decimalValue ds) else of_nat (decimalValue ds)))"

definition accepted :: "string \<Rightarrow> bool" where
  "accepted a \<longleftrightarrow>
     a \<in> {''--engine=switch'', ''--engine=jit'', ''--engine=threaded''}
     \<or> (\<exists>v n. a = ''--jit-threshold='' @ v \<and> denotes v n)
     \<or> (\<exists>v n. a = ''--jit-opt-level='' @ v \<and> denotes v n \<and> n \<le> 2)"

text \<open>The texts of which \<open>std::stoull\<close> reads every character.\<close>

lemma takeWhile_prefix: "list_all P xs \<Longrightarrow> ys = [] \<or> \<not> P (hd ys) \<Longrightarrow> takeWhile P (xs @ ys) = xs"
  by (induction xs) (cases ys, auto)

lemma stoull_whole: "stoull v = Inr (n, length v) \<longleftrightarrow> denotes v n"
proof
  assume st: "stoull v = Inr (n, length v)"
  define spaces where "spaces = takeWhile isSpace v"
  define s1 where "s1 = drop (length spaces) v"
  define sign where "sign = (case s1 of c # _ \<Rightarrow> if c = CHR ''-'' \<or> c = CHR ''+'' then [c] else [] | [] \<Rightarrow> [])"
  define ds where "ds = takeWhile isDigit (drop (length sign) s1)"
  have v: "v = spaces @ s1" unfolding spaces_def s1_def by (metis append_take_drop_id takeWhile_eq_take)
  have s1: "s1 = sign @ drop (length sign) s1" by (cases s1) (simp_all add: sign_def)
  have r: "ds \<noteq> []" "decimalValue ds < 2 ^ 64"
    "n = (if sign = ''-'' then - of_nat (decimalValue ds) else of_nat (decimalValue ds))"
    "length v = length spaces + length sign + length ds"
    using st unfolding stoull_def Let_def spaces_def [symmetric] s1_def [symmetric] sign_def [symmetric] ds_def [symmetric]
    by (auto split: if_splits)
  have "length v = length spaces + length s1" by (subst v) simp
  then have len: "length (drop (length sign) s1) = length ds" using r(4) by simp
  have "ds = take (length ds) (drop (length sign) s1)" unfolding ds_def by (rule takeWhile_eq_take)
  then have ds: "drop (length sign) s1 = ds" unfolding len [symmetric] by simp
  have "list_all isSpace spaces" "list_all isDigit ds"
    unfolding spaces_def ds_def by (auto simp: list_all_iff dest: set_takeWhileD)
  moreover have "sign \<in> {[], ''+'', ''-''}" by (auto simp: sign_def split: list.split)
  moreover have "v = spaces @ sign @ ds" using v s1 by (simp only: ds)
  ultimately show "denotes v n" unfolding denotes_def using r by blast
next
  assume "denotes v n"
  then obtain spaces sign ds where v: "v = spaces @ sign @ ds" "list_all isSpace spaces" "sign \<in> {[], ''+'', ''-''}"
    and ds: "ds \<noteq> []" "list_all isDigit ds" "decimalValue ds < 2 ^ 64"
    and n: "n = (if sign = ''-'' then - of_nat (decimalValue ds) else of_nat (decimalValue ds))"
    unfolding denotes_def by blast
  obtain c cs where c: "ds = c # cs" "isDigit c" using ds(1,2) by (cases ds) auto
  note no_space = digit_no_space [OF c(2)]
  have "\<not> isSpace (hd (sign @ ds))"
    using v(3) no_space unfolding c(1) by (elim insertE emptyE) (simp_all add: isSpace_def)
  then have "takeWhile isSpace v = spaces" unfolding v(1) by (intro takeWhile_prefix [OF v(2)] disjI2)
  moreover have "takeWhile isDigit cs = cs" using ds(2) by (simp add: c(1) takeWhile_eq_all_conv list_all_iff)
  ultimately show "stoull v = Inr (n, length v)"
    using v(1,3) ds(3) c no_space n
    by (elim insertE emptyE) (simp_all add: stoull_def Let_def del: takeWhile_eq_all_conv)
qed

lemma stoull_reads_all:
  "(case stoull v of Inl e \<Rightarrow> False | Inr (n, parsed) \<Rightarrow> parsed = length v \<and> P n) \<longleftrightarrow> (\<exists>n. denotes v n \<and> P n)"
  by (auto simp: stoull_whole [symmetric] split: sum.split)

lemma startsWith_iff: "startsWith p s \<longleftrightarrow> s = p @ drop (length p) s"
  unfolding startsWith_def by (metis append_eq_conv_conj append_take_drop_id)

lemma startsWith_append [simp]: "startsWith p (p @ s)"
  by (simp add: startsWith_def)

lemma parseArgument_threshold:
  "parseArgument (''--jit-threshold='' @ v) options =
     (case stoull v of Inl e \<Rightarrow> Inl e
      | Inr (n, parsed) \<Rightarrow> if parsed \<noteq> length v then Inl InvalidThreshold
          else Inr (options\<lparr>OptJitThreshold := n\<rparr>))"
  by (simp add: parseArgument_def startsWith_def)

lemma parseArgument_level:
  "parseArgument (''--jit-opt-level='' @ v) options =
     (case stoull v of Inl e \<Rightarrow> Inl e
      | Inr (n, parsed) \<Rightarrow> if parsed \<noteq> length v \<or> n > 2 then Inl InvalidLevel
          else Inr (options\<lparr>OptJitOptimizationLevel := ucast n\<rparr>))"
  by (simp add: parseArgument_def startsWith_def)

lemma parseArgument_other:
  assumes "a \<notin> {''--engine=switch'', ''--engine=jit'', ''--engine=threaded''}"
    "\<And>v. a \<noteq> ''--jit-threshold='' @ v" "\<And>v. a \<noteq> ''--jit-opt-level='' @ v"
  shows "parseArgument a options = Inl UnknownArgument"
proof -
  have "\<not> startsWith ''--jit-threshold='' a" "\<not> startsWith ''--jit-opt-level='' a"
    using assms(2,3) startsWith_iff [of _ a] by metis+
  then show ?thesis using assms(1) unfolding parseArgument_def by (simp del: append.simps)
qed

lemma accepted_iff: "accepted a \<longleftrightarrow> (\<exists>r. parseArgument a options = Inr r)"
proof -
  consider "a \<in> {''--engine=switch'', ''--engine=jit'', ''--engine=threaded''}"
    | v where "a = ''--jit-threshold='' @ v" | v where "a = ''--jit-opt-level='' @ v"
    | "a \<notin> {''--engine=switch'', ''--engine=jit'', ''--engine=threaded''}"
      "\<forall>v. a \<noteq> ''--jit-threshold='' @ v" "\<forall>v. a \<noteq> ''--jit-opt-level='' @ v"
    by blast
  then show ?thesis
  proof cases
    case 1
    then show ?thesis by (auto simp: accepted_def parseArgument_def)
  next
    case (2 v)
    have "(\<exists>r. parseArgument a options = Inr r)
        \<longleftrightarrow> (case stoull v of Inl e \<Rightarrow> False | Inr (n, parsed) \<Rightarrow> parsed = length v \<and> True)"
      unfolding 2 parseArgument_threshold by (auto split: sum.split)
    then show ?thesis unfolding stoull_reads_all using 2 by (simp add: accepted_def)
  next
    case (3 v)
    have "(\<exists>r. parseArgument a options = Inr r)
        \<longleftrightarrow> (case stoull v of Inl e \<Rightarrow> False | Inr (n, parsed) \<Rightarrow> parsed = length v \<and> n \<le> 2)"
      unfolding 3 parseArgument_level by (auto simp: not_less split: sum.split)
    then show ?thesis unfolding stoull_reads_all using 3 by (simp add: accepted_def)
  next
    case 4
    then show ?thesis using parseArgument_other [of a options] unfolding accepted_def by auto
  qed
qed

text \<open>The usage message without a program name comes of an empty argument vector only.\<close>

lemma parseArgument_error: "parseArgument a options \<noteq> Inl NullProgramName"
  by (simp add: parseArgument_def stoull_def Let_def split: sum.split)

lemma null_program_name: "parseCommandLine arguments = Inl e \<Longrightarrow> e = NullProgramName \<longleftrightarrow> arguments = []"
proof -
  have "parseArguments as options \<noteq> Inl NullProgramName" for as options
    by (induction as arbitrary: options) (auto split: sum.split dest: parseArgument_error [THEN notE])
  then show "parseCommandLine arguments = Inl e \<Longrightarrow> ?thesis"
    by (auto simp: parseCommandLine_def split: if_splits)
qed

section \<open>Properties\<close>

text \<open>C37. The command line is accepted exactly when it has a file name and at most three further
  arguments, each a known engine, a JIT threshold that is wholly the text of a number, or an
  optimisation level that is wholly the text of a number standing for 0, 1 or 2. The text of a number
  is digits of a value below 2^64, with perhaps white space and a sign in front, and a minus sign
  negates modulo 2^64, so that level -18446744073709551615 is level 1. Anything else, trailing
  characters included, is an error.\<close>

theorem command_line_accepted_iff:
  "(\<exists>options. parseCommandLine arguments = Inr options) =
     (2 \<le> length arguments \<and> length arguments \<le> 5 \<and> list_all accepted (drop 2 arguments))"
proof (cases "2 \<le> length arguments \<and> length arguments \<le> 5")
  case True
  then show ?thesis
    using parseArguments_iff [of "drop 2 arguments" "defaultOptions (arguments ! 1)"]
      accepted_iff [of _ "defaultOptions []"]
    by (simp add: parseCommandLine_def list_all_iff)
qed (auto simp: parseCommandLine_def)

text \<open>What is accepted is usable: the optimisation level is one the IR library knows and the file
  name is the first argument.\<close>

lemma parsed_options_are_valid:
  assumes "parseCommandLine arguments = Inr options"
  shows "OptJitOptimizationLevel options \<le> 2 \<and> Filename options = arguments ! 1"
proof -
  have "options_ok (arguments ! 1) (defaultOptions (arguments ! 1))"
    by (simp add: options_ok_def defaultOptions_def)
  then have "options_ok (arguments ! 1) options"
    using assms parseArguments_keep [of "drop 2 arguments"]
    by (auto simp: parseCommandLine_def split: if_splits)
  then show ?thesis by (simp add: options_ok_def)
qed

text \<open>C38. Every threshold can be given: a 64-bit number written in decimal is parsed to itself. With
  a minus sign in front it is accepted as well, and wraps around to its negation modulo 2^64.\<close>

theorem threshold_roundtrip:
  assumes "n < 2 ^ 64"
  shows "parseCommandLine [prog, file, ''--jit-threshold='' @ decimal n] =
      Inr ((defaultOptions file)\<lparr>OptJitThreshold := of_nat n\<rparr>)
    \<and> parseCommandLine [prog, file, ''--jit-threshold=-'' @ decimal n] =
      Inr ((defaultOptions file)\<lparr>OptJitThreshold := - of_nat n\<rparr>)"
proof -
  have d: "takeWhile isDigit (decimal n) = decimal n" "decimal n \<noteq> []"
    using decimal_digits [of n] by (simp_all add: takeWhile_eq_all_conv list_all_iff)
  have "stoull (CHR ''-'' # decimal n) = Inr (- of_nat n, length (CHR ''-'' # decimal n))"
    using assms decimalValue_decimal [of n] by (simp add: stoull_def isSpace_def Let_def d)
  moreover have "''--jit-threshold=-'' @ decimal n = ''--jit-threshold='' @ (CHR ''-'' # decimal n)" by simp
  ultimately show ?thesis
    using stoull_decimal [OF assms] parseArgument_threshold [of "decimal n" "defaultOptions file"]
      parseArgument_threshold [of "CHR ''-'' # decimal n" "defaultOptions file"]
    by (simp add: parseCommandLine_def)
qed

lemma threshold_roundtrip_witness:
  "parseCommandLine [''toy'', ''a.elf'', ''--jit-threshold=-1''] =
     Inr ((defaultOptions ''a.elf'')\<lparr>OptJitThreshold := 0xFFFFFFFFFFFFFFFF\<rparr>)"
  using threshold_roundtrip [of 1 "''toy''" "''a.elf''"]
  by (simp add: decimal.simps digits_def)

end
