(* ===== verification/Programs.thy ===== *)
theory Programs
  imports FlushDiscipline Loader
begin

text \<open>
  What the machine says of a run in any mode, the JIT included, and ELF files of two small guest
  programs, loaded into a new context of any size and mode: the witnesses of the properties of whole
  processes.
\<close>

section \<open>Runs in any mode\<close>

lemma arch_plain: "plain S = plain D \<Longrightarrow> Cpu D = Cpu S \<and> Bytes (Memory D) = Bytes (Memory S) \<and> State D = State S
    \<and> World D = World S"
  using plain_frame(1-4) [of S] plain_frame(1-4) [of D] by simp

text \<open>A run in any mode ends where the machine ends, when that is not an exception.\<close>

lemma run_any_mode:
  assumes "lib_ok L" "lib_total L" "run_ok C" "fresh C" "flushes_code H (arch C) empty_log"
    and "isa_ends H (arch C) (Done E)"
  shows "\<exists>D. run L H C = Some (Done D) \<and> Cpu D = Cpu E \<and> Bytes (Memory D) = Bytes (Memory E)
    \<and> State D = State E \<and> World D = World E"
proof -
  have view: "\<exists>S. run L H B = Some (Done S) \<and> arch S = E"
    if B: "run_ok B" "Mode B \<noteq> JIT" "fresh B" "arch B = arch C" for B
  proof -
    have k: "flushes_code H (arch B) empty_log" "isa_ends H (arch B) (Done E)" using assms(5,6) B(4) by simp_all
    obtain r where r: "run L H B = Some r" using run_isa_returns [OF B(1,2) fresh_in_sync [OF B(3)] k] by blast
    have "map_outcome arch r = Done E" by (rule isa_ends_unique [OF run_isa [OF B(1,2) fresh_in_sync [OF B(3)] k(1) r] k(2)])
    then show ?thesis using r by (cases r) auto
  qed
  show ?thesis
  proof (cases "Mode C = JIT")
    case False
    obtain S where "run L H C = Some (Done S)" "arch S = E" using view [OF assms(3) False assms(4)] by blast
    then show ?thesis by auto
  next
    case True
    have "run_ok (C\<lparr>Mode := SWITCH\<rparr>)" "fresh (C\<lparr>Mode := SWITCH\<rparr>)"
      using assms(3,4) by (simp_all add: run_ok_def ctx_ok_def fresh_def)
    then obtain S where S: "run L H (C\<lparr>Mode := SWITCH\<rparr>) = Some (Done S)" "arch S = E"
      using view [of "C\<lparr>Mode := SWITCH\<rparr>"] by auto
    obtain D where D: "run L H C = Some (Done D)" "plain S = plain D"
      using jit_run_done [OF assms(1-3) True S(1)] by auto
    have "Cpu E = Cpu S" "Bytes (Memory E) = Bytes (Memory S)" "State E = State S" "World E = World S"
      unfolding S(2) [symmetric] by simp_all
    then show ?thesis using arch_plain [OF D(2)] D(1) by metis
  qed
qed

section \<open>Two programs\<close>

lemma read32_loaded:
  assumes n: "16 \<le> n" and "filter loads (elf_segments f) = [s]" "segment_base s = 8" "segment_image s = bs" "length bs = 8"
    and "k = 0 \<or> k = 4"
  shows "read32 (Memory (loaded (ExecutionContext_new n mode threshold level w) f)) (8 + of_nat k) =
    Inr (word_of_bytes (bs ! k) (bs ! (k + 1)) (bs ! (k + 2)) (bs ! (k + 3)))"
proof -
  let ?m = "Memory (loaded (ExecutionContext_new n mode threshold level w) f)"
  have b: "Bytes ?m = storeBytes 8 bs (replicate n 0)"
    by (simp add: loaded_def assms(2-4) load_one_def put_segment_def ExecutionContext_new_def
        TIMemory_new_def)
  have "Bytes ?m ! (8 + k + d) = bs ! (k + d)" if "d < 4" for d
    using that n assms(5,6) unfolding b by (subst nth_storeBytes) auto
  from this [of 0] this [of 1] this [of 2] this [of 3] show ?thesis
    using n assms(6) by (auto simp: read32_eq in_bounds_def aligned_def decodeLittleEndianWord_eq b)
qed

text \<open>A file whose entry point is a zero word, an invalid instruction.\<close>

definition fault_file :: ElfFile where
  "fault_file = sample_file\<lparr>get_entry := 12\<rparr>"

lemma fault_file_ok: "elfio_ok (\<lambda>_. Some fault_file)" "16 \<le> k \<Longrightarrow> loadable k fault_file"
  "reader_ok fault_file"
proof -
  have "reader_ok fault_file \<longleftrightarrow> reader_ok sample_file" "loadable n fault_file \<longleftrightarrow> loadable n sample_file" for n
    by (simp_all add: reader_ok_def loadable_def header_ok_def fault_file_def)
  then show "elfio_ok (\<lambda>_. Some fault_file)" "16 \<le> k \<Longrightarrow> loadable k fault_file" "reader_ok fault_file"
    using sample_file_ok by (simp_all add: elfio_ok_def)
qed

lemma read32_fault_file:
  assumes "16 \<le> n"
  shows "read32 (Memory (loaded (ExecutionContext_new n mode threshold level w) fault_file)) 12 = Inr 0"
proof -
  have s: "filter loads (elf_segments fault_file) = [sample_segment]" "segment_base sample_segment = 8"
    by (simp_all add: fault_file_def sample_file_def sample_segment_def loads_def segment_base_def)
  have i: "segment_image sample_segment = [0x1E, 0, 0, 0] @ replicate 4 0"
    by (simp add: sample_segment_def segment_image_def)
  have "replicate 4 (0 :: u8) = [0, 0, 0, 0]" by (simp add: numeral_eq_Suc)
  with read32_loaded [OF assms s i, of 4] show ?thesis by (simp add: word_of_bytes_def)
qed

text \<open>A program that exits: \<open>LI x8, 60; SYSCALL\<close>.\<close>

definition exit_segment :: ElfSegment where
  "exit_segment = \<lparr>get_segment_type = 1, get_flags = 5, get_virtual_address = 8,
     get_file_size = 8, get_memory_size = 8, get_data = [0x3C, 0, 0x08, 0x2C, 0x1E, 0, 0, 0]\<rparr>"

definition exit_file :: ElfFile where
  "exit_file = sample_file\<lparr>elf_segments := [exit_segment]\<rparr>"

lemma exit_file_ok: "elfio_ok (\<lambda>_. Some exit_file)" "16 \<le> k \<Longrightarrow> loadable k exit_file"
  by (simp_all add: elfio_ok_def reader_ok_def exit_file_def sample_file_def exit_segment_def loadable_def
      header_ok_def ELF_MACHINE_def loads_def runs_code_def segment_ok_def segment_base_def)

lemma read32_exit_file:
  assumes "16 \<le> n"
  shows
  "read32 (Memory (loaded (ExecutionContext_new n mode threshold level w) exit_file)) 8 = Inr 0x2C08003C"
  "read32 (Memory (loaded (ExecutionContext_new n mode threshold level w) exit_file)) 12 = Inr 0x1E"
proof -
  have s: "filter loads (elf_segments exit_file) = [exit_segment]" "segment_base exit_segment = 8"
    "segment_image exit_segment = [0x3C, 0, 0x08, 0x2C, 0x1E, 0, 0, 0]"
    by (simp_all add: exit_file_def sample_file_def exit_segment_def loads_def segment_base_def
        segment_image_def)
  show "read32 (Memory (loaded (ExecutionContext_new n mode threshold level w) exit_file)) 8 = Inr 0x2C08003C"
    "read32 (Memory (loaded (ExecutionContext_new n mode threshold level w) exit_file)) 12 = Inr 0x1E"
    using read32_loaded [OF assms s, of 0] read32_loaded [OF assms s, of 4]
    by (simp_all add: word_of_bytes_def)
qed

lemma decode_li: "decode 0x2C08003C =
    \<lparr>OpCode = OP_LI, Operands = [Reg 8, Imm 60], ThreadedHandler = Some threadedLi\<rparr>"
  by (simp add: decode_def DecodeVector_def info_def decodeLi_def instr_def Let_def ti_bits
      decoder_extract_asserts take_bit_eq_mod drop_bit_eq_div signed_take_bit_eq_take_bit_minus bit_iff_odd)

lemma exit_file_steps:
  fixes n mode threshold level w
  assumes n: "16 \<le> n"
  defines "A \<equiv> loaded (ExecutionContext_new n mode threshold level w) exit_file"
  defines "B \<equiv> A\<lparr>Cpu := \<lparr>Registers = (Registers (Cpu A))[8 := 60], PC = 12\<rparr>\<rparr>"
  defines "E \<equiv> B\<lparr>State := \<lparr>Status = HALTED, ExitCode = 0\<rparr>\<rparr>"
  shows "isa_step H (arch A) = Done (arch B)" "isa_step H (arch B) = Done (arch E)"
    "Status (State A) = RUNNING" "PC (Cpu A) = 8"
proof -
  have regs: "Registers (Cpu A) = replicate 32 0" and pc: "PC (Cpu A) = 8" and st: "Status (State A) = RUNNING"
    by (simp_all add: A_def loaded_def ExecutionContext_new_def TICpuState_new_def
        exit_file_def sample_file_def reset_def)
  have rA: "read32 (Memory A) (PC (Cpu A)) = Inr 0x2C08003C"
    unfolding pc unfolding A_def by (rule read32_exit_file(1) [OF n])
  have rB: "read32 (Memory B) (PC (Cpu B)) = Inr 0x1E"
    using read32_exit_file(2) [OF n] by (simp add: B_def A_def)
  have "executeInstructionSwitch H A (decode 0x2C08003C) = Done B"
    by (simp add: executeInstructionSwitch_def decode_li executeLi_def Let_def set_reg_def advance_def B_def pc)
  then show "isa_step H (arch A) = Done (arch B)" using isa_step_arch [OF rA, of H] by simp
  have "executeInstructionSwitch H B (decode 0x1E) = Done E"
    by (simp add: executeInstructionSwitch_def decode_exit executeSyscall_def Handlers_def
        READ_NUMBER_SYSCALL_def halt_def put_sys_def B_def E_def regs)
  then show "isa_step H (arch B) = Done (arch E)" using isa_step_arch [OF rB, of H] by simp
  show "Status (State A) = RUNNING" "PC (Cpu A) = 8" by (rule st, rule pc)
qed


lemma exit_file_runs:
  assumes "16 \<le> n"
  shows "flushes_code H (arch (loaded (ExecutionContext_new n mode threshold level w) exit_file)) empty_log"
    "\<exists>E. isa_ends H (arch (loaded (ExecutionContext_new n mode threshold level w) exit_file)) (Done E)
       \<and> State E = \<lparr>Status = HALTED, ExitCode = 0\<rparr> \<and> Registers (Cpu E) ! 8 = 60"
proof -
  let ?A = "loaded (ExecutionContext_new n mode threshold level w) exit_file"
  let ?B = "?A\<lparr>Cpu := \<lparr>Registers = (Registers (Cpu ?A))[8 := 60], PC = 12\<rparr>\<rparr>"
  let ?E = "?B\<lparr>State := \<lparr>Status = HALTED, ExitCode = 0\<rparr>\<rparr>"
  note st = exit_file_steps [OF assms, where mode = mode and threshold = threshold and level = level and w = w]
  show "flushes_code H (arch ?A) empty_log"
  proof (rule flushes_codeI [where P = "\<lambda>D h. D \<in> {arch ?A, arch ?B, arch ?E} \<and> Stale h = {}"])
    fix D E and h :: store_log and w
    assume P: "D \<in> {arch ?A, arch ?B, arch ?E} \<and> Stale h = {}"
      and "Status (State D) = RUNNING" "isa_step H D = Done E"
    then have E: "E \<in> {arch ?A, arch ?B, arch ?E}" using st(1,2) [of H] by auto
    then have "changed D E = {}" using P by (auto simp: changed_def)
    then show "E \<in> {arch ?A, arch ?B, arch ?E} \<and> Stale (track (decode w) D E h) = {}"
      using E P by (simp add: track_def)
  qed (simp_all add: empty_log_def)
  have "isa_path H 2 (arch ?A) (arch ?E)"
    using st(1,2) [of H] st(3) by (simp add: numeral_2_eq_2 isa_path_Suc)
  then have "isa_ends H (arch ?A) (Done (arch ?E))" by (rule isa_ends_throw) simp
  moreover have "length (Registers (Cpu ?A)) = 32"
    by (simp add: loaded_def ExecutionContext_new_def TICpuState_new_def)
  ultimately show "\<exists>E. isa_ends H (arch ?A) (Done E)
      \<and> State E = \<lparr>Status = HALTED, ExitCode = 0\<rparr> \<and> Registers (Cpu E) ! 8 = 60"
    by (intro exI [of _ "arch ?E"]) simp
qed

end
