(* ===== verification/Benchmark.thy ===== *)
theory Benchmark
  imports Programs
begin

text \<open>
  The programs under \<open>benchmark/\<close>: \<open>benchmark.cpp\<close> runs one file in five configurations of the
  engines, \<open>optimization_benchmark.cpp\<close> at the three optimisation levels of the JIT; both take turns
  over the configurations, compare the exit codes and print statistics. The clock is a parameter,
  and so is the type of the samples with the conversion from ticks (\<open>double\<close> microseconds).
\<close>

section \<open>The data\<close>

record ('w, 'd) Clock =
  now :: "'w \<Rightarrow> int \<times> 'w"
  microseconds :: "int \<Rightarrow> 'd"

record 'd BenchmarkResult =
  Samples :: "'d list"
  ResultExitCode :: u32

text \<open>The configuration of a case is a mode and a threshold, or an optimisation level.\<close>

record ('c, 'd) BenchmarkCase =
  CaseName :: string
  CaseConfig :: 'c
  CaseResult :: "'d BenchmarkResult"

definition BENCHMARK_MEMORY_SIZE :: nat where
  "BENCHMARK_MEMORY_SIZE = unat (WORD_BIT_COUNT * 1024)"

definition SAMPLE_COUNT :: nat where
  "SAMPLE_COUNT = 50"

definition newResult :: "'d BenchmarkResult" where
  "newResult = \<lparr>Samples = [], ResultExitCode = 0\<rparr>"

section \<open>One sample\<close>

text \<open>The part of \<open>measureSample\<close> that the two programs share: all but the constructor call.\<close>

definition measureContext ::
  "(string \<Rightarrow> ElfFile option) \<Rightarrow> 'w ir_lib \<Rightarrow> 'w Host \<Rightarrow> ('w, 'd) Clock \<Rightarrow> string \<Rightarrow> 'w ExecutionContext
    \<Rightarrow> 'd BenchmarkResult \<Rightarrow> ('d BenchmarkResult \<times> 'w) outcome option" where
  "measureContext load L H clock filename C result =
     (case loadBinary load C filename 0 of
        Stuck \<Rightarrow> Some Stuck
      | Throw e C1 \<Rightarrow> Some (Throw e (result, World C1))
      | Done C1 \<Rightarrow>
          (let (start, w1) = now clock (World C1)
           in case run L H (C1\<lparr>World := w1\<rparr>) of
                None \<Rightarrow> None
              | Some Stuck \<Rightarrow> Some Stuck
              | Some (Throw e C2) \<Rightarrow> Some (Throw e (result, World C2))
              | Some (Done C2) \<Rightarrow>
                  (let (stop, w2) = now clock (World C2)
                   in if Status (State C2) \<noteq> HALTED then Some (Throw RuntimeError (result, w2))
                      else Some (Done (result\<lparr>ResultExitCode := ExitCode (State C2),
                             Samples := Samples result @ [microseconds clock (stop - start)]\<rparr>, w2)))))"

definition measureSample ::
  "(string \<Rightarrow> ElfFile option) \<Rightarrow> 'w ir_lib \<Rightarrow> 'w Host \<Rightarrow> ('w, 'd) Clock \<Rightarrow> string
    \<Rightarrow> TIExecutionMode \<times> u64 \<Rightarrow> 'd BenchmarkResult \<Rightarrow> 'w \<Rightarrow> ('d BenchmarkResult \<times> 'w) outcome option" where
  "measureSample load L H clock filename = (\<lambda>(mode, jitThreshold) result w.
     measureContext load L H clock filename
       (ExecutionContext_new BENCHMARK_MEMORY_SIZE mode jitThreshold 0 w) result)"

definition measureLevel ::
  "(string \<Rightarrow> ElfFile option) \<Rightarrow> 'w ir_lib \<Rightarrow> 'w Host \<Rightarrow> ('w, 'd) Clock \<Rightarrow> string
    \<Rightarrow> u8 \<Rightarrow> 'd BenchmarkResult \<Rightarrow> 'w \<Rightarrow> ('d BenchmarkResult \<times> 'w) outcome option" where
  "measureLevel load L H clock filename optimizationLevel result w =
     measureContext load L H clock filename
       (ExecutionContext_new BENCHMARK_MEMORY_SIZE JIT 1 optimizationLevel w) result"

section \<open>Statistics\<close>

text \<open>Without a sample the programs would read outside the vector (\<open>None\<close>).\<close>

definition median :: "'d::linorder list \<Rightarrow> 'd option" where
  "median samples = (if samples = [] then None else Some (sort samples ! (length samples div 2)))"

fun minimum :: "'d::linorder list \<Rightarrow> 'd option" where
  "minimum [] = None"
| "minimum (sample # samples) = Some (foldl min sample samples)"

record 'd printed_line =
  LineName :: string
  LineMedian :: 'd
  LineMinimum :: 'd
  LineExitCode :: u32

definition printResult :: "string \<Rightarrow> 'd::linorder BenchmarkResult \<Rightarrow> 'd printed_line option" where
  "printResult name result =
     (case (median (Samples result), minimum (Samples result)) of
        (Some med, Some least) \<Rightarrow> Some \<lparr>LineName = name, LineMedian = med, LineMinimum = least,
            LineExitCode = ResultExitCode result\<rparr>
      | _ \<Rightarrow> None)"

section \<open>The main programs\<close>

text \<open>The inner loop: iteration \<open>k\<close> starts at case \<open>k\<close> and goes once around.\<close>

fun measureOffsets ::
  "('c \<Rightarrow> 'd BenchmarkResult \<Rightarrow> 'w \<Rightarrow> ('d BenchmarkResult \<times> 'w) outcome option) \<Rightarrow> nat \<Rightarrow> nat list
    \<Rightarrow> ('c, 'd) BenchmarkCase list \<times> 'w \<Rightarrow> (('c, 'd) BenchmarkCase list \<times> 'w) outcome option" where
  "measureOffsets m iteration [] (cases, w) = Some (Done (cases, w))"
| "measureOffsets m iteration (offset # offsets) (cases, w) =
     (let k = (iteration + offset) mod length cases;
          put = (\<lambda>(result, w1). (cases[k := (cases ! k)\<lparr>CaseResult := result\<rparr>], w1))
      in case m (CaseConfig (cases ! k)) (CaseResult (cases ! k)) w of
           None \<Rightarrow> None
         | Some Stuck \<Rightarrow> Some Stuck
         | Some (Throw e s) \<Rightarrow> Some (Throw e (put s))
         | Some (Done s) \<Rightarrow> measureOffsets m iteration offsets (put s))"

fun measureIterations ::
  "('c \<Rightarrow> 'd BenchmarkResult \<Rightarrow> 'w \<Rightarrow> ('d BenchmarkResult \<times> 'w) outcome option) \<Rightarrow> nat list
    \<Rightarrow> ('c, 'd) BenchmarkCase list \<times> 'w \<Rightarrow> (('c, 'd) BenchmarkCase list \<times> 'w) outcome option" where
  "measureIterations m [] s = Some (Done s)"
| "measureIterations m (iteration # iterations) s =
     (case measureOffsets m iteration [0..<length (fst s)] s of
        None \<Rightarrow> None
      | Some Stuck \<Rightarrow> Some Stuck
      | Some (Throw e t) \<Rightarrow> Some (Throw e t)
      | Some (Done t) \<Rightarrow> measureIterations m iterations t)"

definition sameExitCodes :: "('c, 'd) BenchmarkCase list \<Rightarrow> bool" where
  "sameExitCodes cases \<longleftrightarrow>
     list_all (\<lambda>c. ResultExitCode (CaseResult c) = ResultExitCode (CaseResult (hd cases))) cases"

datatype 'd benchmark_end =
    BenchmarkEnded (benchmarkStatus: nat) (benchmarkLines: "'d printed_line list")
  | BenchmarkUndefined

text \<open>The \<open>try\<close> block of \<open>main\<close>, the same in both programs.\<close>

definition runBenchmark ::
  "('c \<Rightarrow> 'd BenchmarkResult \<Rightarrow> 'w \<Rightarrow> ('d BenchmarkResult \<times> 'w) outcome option)
    \<Rightarrow> ('c, 'd::linorder) BenchmarkCase list \<Rightarrow> 'w \<Rightarrow> 'd benchmark_end option" where
  "runBenchmark m cases w =
     (case measureIterations m [0..<SAMPLE_COUNT] (cases, w) of
        None \<Rightarrow> None
      | Some Stuck \<Rightarrow> Some BenchmarkUndefined
      | Some (Throw e s) \<Rightarrow> Some (BenchmarkEnded 1 [])
      | Some (Done (cases1, w1)) \<Rightarrow>
          if \<not> sameExitCodes cases1 then Some (BenchmarkEnded 1 [])
          else case those (map (\<lambda>c. printResult (CaseName c) (CaseResult c)) cases1) of
                 None \<Rightarrow> Some BenchmarkUndefined
               | Some lines \<Rightarrow> Some (BenchmarkEnded 0 lines))"

definition newCase :: "string \<Rightarrow> 'c \<Rightarrow> ('c, 'd) BenchmarkCase" where
  "newCase name config = \<lparr>CaseName = name, CaseConfig = config, CaseResult = newResult\<rparr>"

definition engineCases :: "(TIExecutionMode \<times> u64, 'd) BenchmarkCase list" where
  "engineCases =
    [newCase ''threaded'' (THREADED, 0), newCase ''switch'' (SWITCH, 0), newCase ''jit-t0'' (JIT, 0),
     newCase ''jit-t1'' (JIT, 1), newCase ''jit-t10'' (JIT, 10)]"

text \<open>Without any argument the usage message would print a null program name.\<close>

definition benchmark_main ::
  "(string \<Rightarrow> ElfFile option) \<Rightarrow> 'w ir_lib \<Rightarrow> 'w Host \<Rightarrow> ('w, 'd::linorder) Clock \<Rightarrow> 'w \<Rightarrow> string list
    \<Rightarrow> 'd benchmark_end option" where
  "benchmark_main load L H clock w arguments =
     (if length arguments \<noteq> 2 then Some (if arguments = [] then BenchmarkUndefined else BenchmarkEnded 1 [])
      else runBenchmark (measureSample load L H clock (arguments ! 1)) engineCases w)"

definition levelCases :: "(u8, 'd) BenchmarkCase list" where
  "levelCases = [newCase ''jit-o0'' 0, newCase ''jit-o1'' 1, newCase ''jit-o2'' 2]"

definition optimization_main ::
  "(string \<Rightarrow> ElfFile option) \<Rightarrow> 'w ir_lib \<Rightarrow> 'w Host \<Rightarrow> ('w, 'd::linorder) Clock \<Rightarrow> 'w \<Rightarrow> string list
    \<Rightarrow> 'd benchmark_end option" where
  "optimization_main load L H clock w arguments =
     (if length arguments \<noteq> 2 then Some (if arguments = [] then BenchmarkUndefined else BenchmarkEnded 1 [])
      else runBenchmark (measureLevel load L H clock (arguments ! 1)) levelCases w)"

lemma printResult_some:
  assumes "Samples result \<noteq> []"
  shows "\<exists>line. printResult name result = Some line \<and> LineName line = name
    \<and> LineExitCode line = ResultExitCode result"
  using assms by (cases "Samples result") (simp_all add: printResult_def median_def)

lemma those_map_some:
  "(\<And>x. x \<in> set xs \<Longrightarrow> \<exists>y. g x = Some y) \<Longrightarrow> those (map g xs) = Some (map (the \<circ> g) xs)"
  by (induction xs) force+

section \<open>The loops\<close>

text \<open>The exit codes that a measurement can leave, and each case after the turns that \<open>turns\<close> counts.\<close>

definition leaves ::
  "('c \<Rightarrow> 'd BenchmarkResult \<Rightarrow> 'w \<Rightarrow> ('d BenchmarkResult \<times> 'w) outcome option) \<Rightarrow> (u32 \<Rightarrow> bool) \<Rightarrow> bool" where
  "leaves m P \<longleftrightarrow> (\<forall>c r w r' w'. m c r w = Some (Done (r', w')) \<longrightarrow> P (ResultExitCode r'))"

definition advanced ::
  "(u32 \<Rightarrow> bool) \<Rightarrow> (nat \<Rightarrow> nat) \<Rightarrow> ('c, 'd) BenchmarkCase list \<Rightarrow> ('c, 'd) BenchmarkCase list \<Rightarrow> bool" where
  "advanced P turns cs ds \<longleftrightarrow> length ds = length cs \<and> (\<forall>k < length cs.
     CaseName (ds ! k) = CaseName (cs ! k) \<and> CaseConfig (ds ! k) = CaseConfig (cs ! k)
     \<and> length (Samples (CaseResult (ds ! k))) = length (Samples (CaseResult (cs ! k))) + turns k
     \<and> (0 < turns k \<longrightarrow> P (ResultExitCode (CaseResult (ds ! k))))
     \<and> (turns k = 0 \<longrightarrow> ds ! k = cs ! k))"

text \<open>What the loops rely on: a sample that is taken is one more.\<close>

locale measurement =
  fixes m :: "'c \<Rightarrow> 'd::linorder BenchmarkResult \<Rightarrow> 'w \<Rightarrow> ('d BenchmarkResult \<times> 'w) outcome option"
  assumes one_more: "m c r w = Some (Done (r', w')) \<Longrightarrow> length (Samples r') = Suc (length (Samples r))"
begin

lemma advanced_none: "advanced P (\<lambda>_. 0) cs cs"
  by (simp add: advanced_def)

lemma advanced_trans: "advanced P f cs ds \<Longrightarrow> advanced P g ds es \<Longrightarrow> advanced P (\<lambda>k. f k + g k) cs es"
  by (fastforce simp: advanced_def)

lemma advanced_one:
  assumes "leaves m P" "m (CaseConfig (cs ! k)) (CaseResult (cs ! k)) w = Some (Done (r, w'))" "k < length cs"
  shows "advanced P (\<lambda>i. if i = k then 1 else 0) cs (cs[k := (cs ! k)\<lparr>CaseResult := r\<rparr>])"
proof -
  have "P (ResultExitCode r)" using assms(1,2) unfolding leaves_def by blast
  then show ?thesis using assms(3) one_more [OF assms(2)] by (auto simp: advanced_def nth_list_update)
qed

lemma offsets_advance:
  assumes "leaves m P" "cs \<noteq> []" "measureOffsets m it offs (cs, w) = Some (Done (ds, w'))"
  shows "advanced P (count_list (map (\<lambda>off. (it + off) mod length cs) offs)) cs ds"
  using assms(2,3)
proof (induction offs arbitrary: cs w)
  case Nil
  then show ?case by (simp add: advanced_none)
next
  case (Cons off offs)
  let ?k = "(it + off) mod length cs"
  obtain r w1 where r: "m (CaseConfig (cs ! ?k)) (CaseResult (cs ! ?k)) w = Some (Done (r, w1))"
    using Cons.prems(2) by (auto simp: Let_def split: option.splits outcome.splits)
  let ?cs = "cs[?k := (cs ! ?k)\<lparr>CaseResult := r\<rparr>]"
  have first: "advanced P (\<lambda>i. if i = ?k then 1 else 0) cs ?cs"
    by (rule advanced_one [OF assms(1) r]) (use Cons.prems(1) in simp)
  have step: "advanced P (count_list (?k # xs)) cs ds" if "advanced P (count_list xs) ?cs ds" for xs
  proof -
    have "(\<lambda>i. (if i = ?k then 1 else 0) + count_list xs i) = count_list (?k # xs)"
      by (rule ext) (simp only: count_list.simps, auto)
    then show ?thesis using advanced_trans [OF first that] by (simp only:)
  qed
  have "measureOffsets m it offs (?cs, w1) = Some (Done (ds, w'))"
    using Cons.prems(2) r by (simp add: Let_def)
  from Cons.IH [OF _ this] show ?case
    unfolding list.map length_list_update by (intro step) (use Cons.prems(1) in simp)
qed

text \<open>Once around is every case once.\<close>

lemma once_around:
  assumes "k < n"
  shows "count_list (map (\<lambda>off. (it + off) mod n) [0..<n]) k = 1"
proof -
  have "map (\<lambda>off. (it + off) mod n) [0..<n] = rotate it [0..<n]"
    by (rule nth_equalityI) (auto simp: nth_rotate)
  moreover have "count_list (rotate it [0..<n]) k = count_list [0..<n] k"
    by (metis append_take_drop_id add.commute count_list_append rotate_drop_take)
  moreover have "count_list [0..<n] k = 1"
    using assms by (induction n) (auto simp: less_Suc_eq count_list_0_iff)
  ultimately show ?thesis by simp
qed

lemma iterations_advance:
  assumes "leaves m P" "cs \<noteq> []" "measureIterations m its (cs, w) = Some (Done (ds, w'))"
  shows "advanced P (\<lambda>_. length its) cs ds"
  using assms(2,3)
proof (induction its arbitrary: cs w)
  case Nil
  then show ?case by (simp add: advanced_none)
next
  case (Cons it its)
  obtain es w1 where es: "measureOffsets m it [0..<length cs] (cs, w) = Some (Done (es, w1))"
    using Cons.prems(2) by (auto simp del: upt_rec_numeral split: option.splits outcome.splits)
  then have first: "advanced P (\<lambda>_. 1) cs es"
    using offsets_advance [OF assms(1) Cons.prems(1) es] once_around [of _ "length cs" it]
    by (simp add: advanced_def)
  then have "es \<noteq> []" using Cons.prems(1) by (auto simp: advanced_def)
  from Cons.IH [OF this] Cons.prems(2) es have "advanced P (\<lambda>_. length its) es ds" by simp
  from advanced_trans [OF first this] show ?case by simp
qed

text \<open>What the printed lines say after the loops.\<close>

lemma lines_printed:
  assumes "leaves m P" "cs \<noteq> []" "its \<noteq> []" "measureIterations m its (cs, w) = Some (Done (ds, w'))"
  shows "\<exists>lines. those (map (\<lambda>c. printResult (CaseName c) (CaseResult c)) ds) = Some lines
    \<and> map LineName lines = map CaseName cs \<and> (\<forall>l \<in> set lines. P (LineExitCode l))"
proof -
  let ?line = "\<lambda>c :: ('c, 'd) BenchmarkCase. printResult (CaseName c) (CaseResult c)"
  have adv: "advanced P (\<lambda>_. length its) cs ds" by (rule iterations_advance [OF assms(1,2,4)])
  have some: "\<exists>l. ?line d = Some l \<and> LineName l = CaseName d \<and> P (LineExitCode l)" if "d \<in> set ds" for d
  proof -
    have "0 < length (Samples (CaseResult d))" "P (ResultExitCode (CaseResult d))"
      using adv assms(3) that by (auto simp: advanced_def in_set_conv_nth)
    then show ?thesis using printResult_some [of "CaseResult d" "CaseName d"] by auto
  qed
  then have "those (map ?line ds) = Some (map (the \<circ> ?line) ds)" by (intro those_map_some) blast
  moreover have "map LineName (map (the \<circ> ?line) ds) = map CaseName ds" using some by fastforce
  moreover have "map CaseName ds = map CaseName cs"
    using adv by (intro nth_equalityI) (auto simp: advanced_def)
  ultimately show ?thesis using some by fastforce
qed

end

text \<open>Where no measurement has undefined behaviour, the loops have none.\<close>

lemma offsets_not_stuck:
  assumes "\<And>c r w. m c r w \<noteq> Some Stuck"
  shows "measureOffsets m it offs (cs, w) \<noteq> Some Stuck"
  using assms by (induction offs arbitrary: cs w) (auto simp: Let_def split: option.split outcome.split)

lemma iterations_not_stuck:
  assumes "\<And>c r w. m c r w \<noteq> Some Stuck"
  shows "measureIterations m its s0 \<noteq> Some Stuck"
proof (induction its arbitrary: s0)
  case (Cons it its)
  have "measureOffsets m it [0..<length (fst s0)] (fst s0, snd s0) \<noteq> Some Stuck"
    by (rule offsets_not_stuck [OF assms])
  then have "measureOffsets m it [0..<length (fst s0)] s0 \<noteq> Some Stuck" by simp
  then show ?case using Cons.IH by (auto split: option.split outcome.split)
qed simp

text \<open>Where every measurement returns, so do the loops.\<close>

lemma offsets_return:
  assumes "\<And>c r w. \<exists>s. m c r w = Some (Done s)"
  shows "\<exists>s. measureOffsets m it offs (cs, w) = Some (Done s)"
proof (induction offs arbitrary: cs w)
  case (Cons off offs)
  let ?k = "(it + off) mod length cs"
  obtain r w1 where "m (CaseConfig (cs ! ?k)) (CaseResult (cs ! ?k)) w = Some (Done (r, w1))"
    using assms by (metis surj_pair)
  then show ?case using Cons.IH by (simp add: Let_def)
qed simp

lemma iterations_return:
  assumes "\<And>c r w. \<exists>s. m c r w = Some (Done s)"
  shows "\<exists>s. measureIterations m its s0 = Some (Done s)"
proof (induction its arbitrary: s0)
  case (Cons it its)
  have "\<exists>t. measureOffsets m it [0..<length (fst s0)] (fst s0, snd s0) = Some (Done t)"
    by (rule offsets_return [OF assms])
  then obtain t where "measureOffsets m it [0..<length (fst s0)] s0 = Some (Done t)" by auto
  then show ?case using Cons.IH by simp
qed simp

text \<open>The three ways the \<open>try\<close> block can go.\<close>

context measurement
begin

lemma benchmark_reports:
  assumes "\<And>c r w. \<exists>s. m c r w = Some (Done s)" "leaves m (\<lambda>e. e = code)" "cs \<noteq> []"
  shows "\<exists>lines. runBenchmark m cs w = Some (BenchmarkEnded 0 lines) \<and> map LineName lines = map CaseName cs
    \<and> (\<forall>l \<in> set lines. LineExitCode l = code)"
proof -
  have its: "[0..<SAMPLE_COUNT] \<noteq> []" by (simp add: SAMPLE_COUNT_def)
  have "\<exists>s. measureIterations m [0..<SAMPLE_COUNT] (cs, w) = Some (Done s)"
    by (rule iterations_return [OF assms(1)])
  then obtain ds w1 where ds: "measureIterations m [0..<SAMPLE_COUNT] (cs, w) = Some (Done (ds, w1))" by auto
  have "advanced (\<lambda>e. e = code) (\<lambda>_. length [0..<SAMPLE_COUNT]) cs ds"
    by (rule iterations_advance [OF assms(2,3) ds])
  then have "ds \<noteq> []" "\<forall>d \<in> set ds. ResultExitCode (CaseResult d) = code"
    using assms(3) by (auto simp: advanced_def in_set_conv_nth SAMPLE_COUNT_def)
  then have "sameExitCodes ds" by (simp add: sameExitCodes_def list_all_iff)
  then show ?thesis
    using lines_printed [OF assms(2,3) its ds] ds by (auto simp: runBenchmark_def simp del: upt_rec_numeral)
qed

lemma benchmark_defined:
  assumes "\<And>c r w. m c r w \<noteq> Some Stuck" "cs \<noteq> []"
  shows "runBenchmark m cs w \<noteq> Some BenchmarkUndefined"
proof -
  have l: "leaves m (\<lambda>_. True)" and its: "[0..<SAMPLE_COUNT] \<noteq> []" by (simp_all add: leaves_def SAMPLE_COUNT_def)
  show ?thesis
  proof (cases "measureIterations m [0..<SAMPLE_COUNT] (cs, w)")
    case (Some q)
    moreover have "measureIterations m [0..<SAMPLE_COUNT] (cs, w) \<noteq> Some Stuck"
      by (rule iterations_not_stuck [OF assms(1)])
    ultimately show ?thesis using lines_printed [OF l assms(2) its, of w]
      by (cases q) (auto simp: runBenchmark_def simp del: upt_rec_numeral split: if_splits)
  qed (simp add: runBenchmark_def)
qed

text \<open>Whether the first measurement is undefined decides for all of them.\<close>

lemma benchmark_undefined:
  assumes "\<And>c r w. m c r w = Some Stuck \<longleftrightarrow> u" "cs \<noteq> []"
  shows "runBenchmark m cs w = Some BenchmarkUndefined \<longleftrightarrow> u"
proof (cases u)
  case True
  have "[0..<SAMPLE_COUNT] = 0 # [1..<SAMPLE_COUNT]" "[0..<length cs] = 0 # [1..<length cs]"
    using assms(2) by (simp_all add: upt_conv_Cons SAMPLE_COUNT_def del: upt_Suc)
  then show ?thesis using assms True by (simp add: runBenchmark_def Let_def del: upt_Suc upt_rec_numeral)
next
  case False
  then show ?thesis using benchmark_defined [OF _ assms(2), of w] assms(1) by blast
qed

lemma benchmark_fails:
  assumes "m (CaseConfig c) (CaseResult c) w = Some (Throw e s)"
  shows "runBenchmark m (c # cs) w = Some (BenchmarkEnded 1 [])"
proof -
  have "[0..<SAMPLE_COUNT] = 0 # [1..<SAMPLE_COUNT]" "[0..<length (c # cs)] = 0 # [1..<length (c # cs)]"
    by (simp_all add: upt_conv_Cons SAMPLE_COUNT_def del: upt_Suc)
  then show ?thesis using assms by (simp add: runBenchmark_def Let_def del: upt_Suc upt_rec_numeral)
qed

end

section \<open>The engines under the benchmark\<close>

definition benchmarkContext :: "TIExecutionMode \<Rightarrow> u64 \<Rightarrow> u8 \<Rightarrow> 'w \<Rightarrow> ElfFile \<Rightarrow> 'w ExecutionContext" where
  "benchmarkContext mode threshold level w f =
     loaded (ExecutionContext_new BENCHMARK_MEMORY_SIZE mode threshold level w) f"

lemma benchmark_new:
  "wf_cpu (Cpu (ExecutionContext_new n mode threshold level w))"
  "length (Bytes (Memory (ExecutionContext_new n mode threshold level w))) = n"
  "BlockCache (ExecutionContext_new n mode threshold level w) = emptyCache"
  by (simp_all add: ExecutionContext_new_def wf_cpu_def TICpuState_new_def TIMemory_new_def)

lemma benchmarkContext_start [simp]:
  "Mode (benchmarkContext mode threshold level w f) = mode"
  "Status (State (benchmarkContext mode threshold level w f)) = RUNNING"
  "World (benchmarkContext mode threshold level w f) = w"
  "(benchmarkContext mode threshold level w f)\<lparr>World := w'\<rparr> = benchmarkContext mode threshold level w' f"
  "(benchmarkContext mode threshold level w f)\<lparr>Mode := mode'\<rparr> = benchmarkContext mode' threshold level w f"
  "switched (\<lambda>_. threshold') (\<lambda>_. level') (benchmarkContext mode threshold level w f) =
     benchmarkContext SWITCH threshold' level' w f"
  by (simp_all add: benchmarkContext_def loaded_def reset_def ExecutionContext_new_def switched_def)

lemma benchmarkContext_ok: "run_ok (benchmarkContext mode threshold level w f)"
  unfolding benchmarkContext_def
  by (rule loaded_run_ok(1))
    (simp_all add: benchmark_new BENCHMARK_MEMORY_SIZE_def jit_ok_empty)

text \<open>A program that exits under the switch engine exits under every engine, with the same code.\<close>

definition exits_with :: "'w ir_lib \<Rightarrow> 'w Host \<Rightarrow> ElfFile \<Rightarrow> u32 \<Rightarrow> bool" where
  "exits_with L H f code \<longleftrightarrow> (\<forall>w. \<exists>S. run L H (benchmarkContext SWITCH 0 0 w f) = Some (Done S)
     \<and> ExitCode (State S) = code)"

lemma exits_in_every_mode:
  assumes "lib_ok L" "lib_total L" "exits_with L H f code"
  shows "\<exists>D. run L H (benchmarkContext mode threshold level w f) = Some (Done D)
    \<and> State D = \<lparr>Status = HALTED, ExitCode = code\<rparr>"
proof -
  note view = switched_view.view_run [of "benchmarkContext mo t l w f" L H "\<lambda>_. t'" "\<lambda>_. l'" for mo t l t' l',
      OF conjI [OF benchmarkContext_ok]]
  obtain S where S: "run L H (benchmarkContext SWITCH 0 0 w f) = Some (Done S)" "ExitCode (State S) = code"
    using assms(3) unfolding exits_with_def by blast
  have "Status (State S) = HALTED" using run_end [OF benchmarkContext_ok _ _ S(1)] by simp
  then have st: "State S = \<lparr>Status = HALTED, ExitCode = code\<rparr>" using S(2) by simp
  have sw: "\<exists>D. run L H (benchmarkContext SWITCH t l w f) = Some (Done D) \<and> State D = State S" for t l
    using view [of SWITCH 0 0 t l] S(1) by simp
  show ?thesis
  proof (cases mode)
    case SWITCH
    then show ?thesis using sw [of threshold level] st by auto
  next
    case THREADED
    have "map_option (map_outcome (switched (\<lambda>_. 0) (\<lambda>_. 0))) (run L H (benchmarkContext THREADED threshold level w f))
        = Some (Done S)"
      using view [of THREADED threshold level 0 0] S(1) by simp
    then obtain q where q: "run L H (benchmarkContext THREADED threshold level w f) = Some q"
      "map_outcome (switched (\<lambda>_. 0) (\<lambda>_. 0)) q = Done S" by auto
    then show ?thesis using THREADED st by (cases q) auto
  next
    case JIT
    obtain D where D: "run L H (benchmarkContext SWITCH threshold level w f) = Some (Done D)" "State D = State S"
      using sw by blast
    obtain E where "run L H (benchmarkContext JIT threshold level w f) = Some (Done E)" "plain E = plain D"
      using jit_run_done [OF assms(1,2) benchmarkContext_ok _] D(1) by fastforce
    then show ?thesis using JIT D(2) st by (metis plain_frame(3))
  qed
qed

lemma measureContext_exits:
  assumes "lib_ok L" "lib_total L" "load filename = Some f" "reader_ok f" "loadable BENCHMARK_MEMORY_SIZE f"
    and "exits_with L H f code"
  shows "\<exists>t w'. measureContext load L H clock filename
      (ExecutionContext_new BENCHMARK_MEMORY_SIZE mode threshold level w) r =
    Some (Done (r\<lparr>ResultExitCode := code, Samples := Samples r @ [t]\<rparr>, w'))"
proof -
  let ?C = "ExecutionContext_new BENCHMARK_MEMORY_SIZE mode threshold level w"
  have l: "loadBinary load ?C filename 0 = Done (benchmarkContext mode threshold level w f)"
    unfolding benchmarkContext_def
    by (rule loadBinary_loadable) (use assms(3-5) in \<open>simp_all add: benchmark_new\<close>)
  obtain start w1 where n: "now clock w = (start, w1)" by fastforce
  obtain D where "run L H (benchmarkContext mode threshold level w1 f) = Some (Done D)"
    "State D = \<lparr>Status = HALTED, ExitCode = code\<rparr>"
    using exits_in_every_mode [OF assms(1,2,6)] by blast
  moreover obtain stop w2 where "now clock (World D) = (stop, w2)" by fastforce
  ultimately show ?thesis using l n by (auto simp: measureContext_def)
qed

lemma measureContext_stuck:
  assumes "lib_ok L"
  shows "measureContext load L H clock filename (ExecutionContext_new BENCHMARK_MEMORY_SIZE mode threshold level w) r
      = Some Stuck \<longleftrightarrow> (\<exists>f. load filename = Some f \<and> truncated BENCHMARK_MEMORY_SIZE f)"
proof -
  let ?C = "ExecutionContext_new BENCHMARK_MEMORY_SIZE mode threshold level w"
  have t: "loadBinary load ?C filename 0 = Stuck
      \<longleftrightarrow> (\<exists>f. load filename = Some f \<and> truncated BENCHMARK_MEMORY_SIZE f)"
    by (simp add: loadBinary_stuck benchmark_new)
  show ?thesis
  proof (cases "loadBinary load ?C filename 0")
    case (Done C1)
    obtain f where f: "load filename = Some f" using Done by (auto simp: loadBinary_def split: option.splits)
    then have "C1 = benchmarkContext mode threshold level w f"
      using loadBinary_done(2) [of load filename f ?C C1] Done by (simp add: benchmarkContext_def)
    then have "run L H (C1\<lparr>World := w1\<rparr>) \<noteq> Some Stuck" for w1
      using run_safe [OF assms(1) benchmarkContext_ok, of H mode threshold level w1 f Stuck] by auto
    then have "measureContext load L H clock filename ?C r \<noteq> Some Stuck" using Done
      by (auto simp: measureContext_def split: option.splits outcome.splits prod.splits)
    then show ?thesis unfolding t [symmetric] using Done by simp
  qed (unfold t [symmetric], simp_all add: measureContext_def)
qed

lemma measureContext_more:
  "measureContext load L H clock filename C r = Some (Done (r', w')) \<Longrightarrow>
     length (Samples r') = Suc (length (Samples r))"
  by (auto simp: measureContext_def split: outcome.splits option.splits prod.splits if_splits)

interpretation engine_sample: measurement "measureSample load L H clock filename"
  for load L H clock filename
  by unfold_locales (auto simp: measureSample_def dest: measureContext_more)

interpretation level_sample: measurement "measureLevel load L H clock filename"
  for load L H clock filename
  by unfold_locales (auto simp: measureLevel_def dest: measureContext_more)

lemma sample_context:
  "measureSample load L H clock filename (mode, threshold) r w =
     measureContext load L H clock filename (ExecutionContext_new BENCHMARK_MEMORY_SIZE mode threshold 0 w) r"
  by (simp add: measureSample_def)

text \<open>A program that faults under the switch engine gives no sample under any engine.\<close>

definition faults :: "'w ir_lib \<Rightarrow> 'w Host \<Rightarrow> ElfFile \<Rightarrow> bool" where
  "faults L H f \<longleftrightarrow> (\<forall>w. \<exists>x S. run L H (benchmarkContext SWITCH 0 0 w f) = Some (Throw x S))"

lemma no_sample_of_faults:
  assumes "lib_ok L" "lib_total L" "load filename = Some f" "reader_ok f" "loadable BENCHMARK_MEMORY_SIZE f"
    and "faults L H f"
  shows "\<exists>e s. measureContext load L H clock filename
      (ExecutionContext_new BENCHMARK_MEMORY_SIZE mode threshold level w) r = Some (Throw e s)"
proof -
  let ?C = "ExecutionContext_new BENCHMARK_MEMORY_SIZE mode threshold level w"
  have l: "loadBinary load ?C filename 0 = Done (benchmarkContext mode threshold level w f)"
    unfolding benchmarkContext_def
    by (rule loadBinary_loadable) (use assms(3-5) in \<open>simp_all add: benchmark_new\<close>)
  obtain start w1 where n: "now clock w = (start, w1)" by fastforce
  note view = switched_view.view_run [of "benchmarkContext mo t l w1 f" L H "\<lambda>_. t'" "\<lambda>_. l'" for mo t l t' l',
      OF conjI [OF benchmarkContext_ok]]
  obtain x S where S: "run L H (benchmarkContext SWITCH 0 0 w1 f) = Some (Throw x S)"
    using assms(6) unfolding faults_def by blast
  have "(\<exists>e D. run L H (benchmarkContext mode threshold level w1 f) = Some (Throw e D))
    \<or> (\<exists>D. run L H (benchmarkContext mode threshold level w1 f) = Some (Done D) \<and> Status (State D) = FAULTED)"
  proof (cases mode)
    case SWITCH
    then show ?thesis using view [of SWITCH 0 0 threshold level] S by simp
  next
    case THREADED
    have "map_option (map_outcome (switched (\<lambda>_. 0) (\<lambda>_. 0))) (run L H (benchmarkContext THREADED threshold level w1 f))
        = Some (Throw x S)"
      using view [of THREADED threshold level 0 0] S by simp
    then obtain q where q: "run L H (benchmarkContext THREADED threshold level w1 f) = Some q"
      "map_outcome (switched (\<lambda>_. 0) (\<lambda>_. 0)) q = Throw x S" by auto
    then show ?thesis using THREADED by (cases q) auto
  next
    case JIT
    have "run L H ((benchmarkContext JIT threshold level w1 f)\<lparr>Mode := SWITCH\<rparr>)
        = Some (Throw x (switched (\<lambda>_. threshold) (\<lambda>_. level) S))"
      using view [of SWITCH 0 0 threshold level] S by simp
    from jit_run_thrown [OF assms(1,2) benchmarkContext_ok _ this] show ?thesis using JIT by auto
  qed
  then show ?thesis using l n by (auto simp: measureContext_def split: prod.split)
qed

section \<open>The statistics\<close>

lemma foldl_min: "foldl min x xs \<in> set (x # xs) \<and> (\<forall>y \<in> set (x # xs). foldl min x xs \<le> (y :: 'd::linorder))"
proof (induction xs arbitrary: x)
  case (Cons z zs)
  have "min x z = x \<or> min x z = z" by (simp add: min_def)
  then show ?case using Cons.IH [of "min x z"] by auto
qed simp

lemma minimum_least: "minimum xs = Some a \<Longrightarrow> a \<in> set xs \<and> (\<forall>x \<in> set xs. a \<le> x)"
  using foldl_min by (cases xs) auto

lemma median_middle:
  assumes "median xs = Some a"
  shows "a \<in> set xs \<and> length xs < 2 * length (filter (\<lambda>x. x \<le> a) xs) \<and> length xs \<le> 2 * length (filter (\<lambda>x. a \<le> x) xs)"
proof -
  let ?i = "length xs div 2" and ?s = "sort xs"
  have a: "xs \<noteq> []" "a = ?s ! ?i" using assms by (auto simp: median_def split: if_splits)
  have i: "?i < length ?s" using a(1) by (simp add: div_less_dividend)
  have len: "length (filter P xs) = card {k. k < length xs \<and> P (?s ! k)}" for P
  proof -
    have "length (filter P xs) = length (filter P ?s)" by (simp add: filter_sort)
    then show ?thesis by (simp add: length_filter_conv_card)
  qed
  have "{..?i} \<subseteq> {k. k < length xs \<and> ?s ! k \<le> a}"
    using i a(2) sorted_nth_mono [OF sorted_sort [of xs]] by auto
  then have "card {..?i} \<le> length (filter (\<lambda>x. x \<le> a) xs)" unfolding len by (intro card_mono) auto
  moreover have "{?i..<length xs} \<subseteq> {k. k < length xs \<and> a \<le> ?s ! k}"
    using i a(2) sorted_nth_mono [OF sorted_sort [of xs]] by auto
  then have "card {?i..<length xs} \<le> length (filter (\<lambda>x. a \<le> x) xs)" unfolding len by (intro card_mono) auto
  moreover have "a \<in> set xs" using nth_mem [OF i] a(2) by simp
  ultimately show ?thesis by (simp, arith)
qed

section \<open>Properties\<close>

text \<open>C17. The two benchmark programs as a test of the engines: for a guest program that exits with some
  code under the switch engine, whatever the outside world is, they end with status 0, having
  sampled it in every configuration (threaded, switch, JIT with thresholds 0, 1 and 10, JIT at the
  levels 0 to 2), and print one line for each with that exit code: the comparison of the exit codes
  never fails.\<close>

theorem benchmarks_report_every_engine:
  assumes "lib_ok L" "lib_total L" "load filename = Some f" "reader_ok f" "loadable BENCHMARK_MEMORY_SIZE f"
    and "exits_with L H f code"
  shows "\<exists>lines levels. benchmark_main load L H clock w [prog, filename] = Some (BenchmarkEnded 0 lines)
    \<and> map LineName lines = [''threaded'', ''switch'', ''jit-t0'', ''jit-t1'', ''jit-t10'']
    \<and> optimization_main load L H clock w [prog, filename] = Some (BenchmarkEnded 0 levels)
    \<and> map LineName levels = [''jit-o0'', ''jit-o1'', ''jit-o2'']
    \<and> (\<forall>l \<in> set (lines @ levels). LineExitCode l = code)"
proof -
  note taken = measureContext_exits [where load = load and filename = filename and clock = clock, OF assms]
  have s: "\<exists>s. measureSample load L H clock filename c r w = Some (Done s)" for c r w
    using taken [of "fst c" "snd c" 0 w r] by (cases c) (auto simp: sample_context)
  have l: "\<exists>s. measureLevel load L H clock filename c r w = Some (Done s)" for c r w
    using taken [of JIT 1 c w r] by (auto simp: measureLevel_def)
  have e: "ResultExitCode r' = code"
    if "measureContext load L H clock filename (ExecutionContext_new BENCHMARK_MEMORY_SIZE mode threshold level w) r
      = Some (Done (r', w'))" for mode threshold level w r r' w'
    using taken [of mode threshold level w r] that by auto
  have "leaves (measureSample load L H clock filename) (\<lambda>e. e = code)"
    using e by (auto simp: leaves_def sample_context)
  moreover have "leaves (measureLevel load L H clock filename) (\<lambda>e. e = code)"
    using e by (auto simp: leaves_def measureLevel_def)
  ultimately show ?thesis
    using engine_sample.benchmark_reports [OF s, of code engineCases w]
      level_sample.benchmark_reports [OF l, of code levelCases w]
    by (auto simp: benchmark_main_def optimization_main_def engineCases_def levelCases_def newCase_def)
qed

definition still_clock :: "(unit, int) Clock" where
  "still_clock = \<lparr>now = (\<lambda>w. (0, w)), microseconds = id\<rparr>"

lemma exit_file_exits: "exits_with reference_lib (silent_host :: unit Host) exit_file 0"
proof -
  have n: "16 \<le> BENCHMARK_MEMORY_SIZE" by (simp add: BENCHMARK_MEMORY_SIZE_def)
  have "\<exists>S. run reference_lib silent_host (benchmarkContext SWITCH 0 0 w exit_file) = Some (Done S)
      \<and> ExitCode (State S) = 0" for w :: unit
  proof -
    note runs = exit_file_runs [OF n, of silent_host SWITCH 0 0 w, folded benchmarkContext_def]
    have "fresh (benchmarkContext SWITCH 0 0 w exit_file)"
      by (simp add: fresh_def benchmarkContext_def loaded_def clear_def validCode_def)
    then show ?thesis
      using run_any_mode [OF reference_lib_ok reference_lib_total benchmarkContext_ok _ runs(1)] runs(2) by fastforce
  qed
  then show ?thesis by (simp add: exits_with_def)
qed

lemma benchmarks_report_every_engine_witness:
  "\<exists>lines levels. benchmark_main (\<lambda>_. Some exit_file) reference_lib silent_host still_clock ()
      [''toy_benchmark'', ''a.elf''] = Some (BenchmarkEnded 0 lines) \<and> length lines = 5
    \<and> optimization_main (\<lambda>_. Some exit_file) reference_lib silent_host still_clock ()
      [''toy_benchmark'', ''a.elf''] = Some (BenchmarkEnded 0 levels) \<and> length levels = 3
    \<and> (\<forall>l \<in> set (lines @ levels). LineExitCode l = 0)"
proof -
  have r0: "reader_ok exit_file" using exit_file_ok(1) by (simp add: elfio_ok_def)
  have l0: "loadable BENCHMARK_MEMORY_SIZE exit_file"
    by (rule exit_file_ok(2)) (simp add: BENCHMARK_MEMORY_SIZE_def)
  obtain lines levels where r: "benchmark_main (\<lambda>_. Some exit_file) reference_lib silent_host still_clock ()
      [''toy_benchmark'', ''a.elf''] = Some (BenchmarkEnded 0 lines)"
    "map LineName lines = [''threaded'', ''switch'', ''jit-t0'', ''jit-t1'', ''jit-t10'']"
    "optimization_main (\<lambda>_. Some exit_file) reference_lib silent_host still_clock ()
      [''toy_benchmark'', ''a.elf''] = Some (BenchmarkEnded 0 levels)"
    "map LineName levels = [''jit-o0'', ''jit-o1'', ''jit-o2'']" "\<forall>l \<in> set (lines @ levels). LineExitCode l = 0"
    using benchmarks_report_every_engine [where load = "\<lambda>_. Some exit_file" and filename = "''a.elf''"
        and clock = still_clock and w = "()" and prog = "''toy_benchmark''",
        OF reference_lib_ok reference_lib_total refl r0 l0 exit_file_exits]
    by (elim exE conjE) (rule that)
  then show ?thesis using arg_cong [OF r(2), of length] arg_cong [OF r(4), of length]
    by auto
qed

text \<open>C39. The benchmark programs do what C++ leaves undefined in two cases only, and then always: they
  are started with an empty argument vector, of which they print the null program name, or the file
  passes the loader's checks up to a segment of whose contents the ELF reader has less than the file
  size says, which the loader copies all the same. For all other arguments, files and guest programs
  nothing is undefined: every case has its samples when the median and the minimum are taken.\<close>

theorem benchmarks_are_safe:
  assumes "lib_ok L"
  shows "(benchmark_main load L H clock w arguments = Some BenchmarkUndefined \<longleftrightarrow> arguments = []
      \<or> length arguments = 2 \<and> (\<exists>f. load (arguments ! 1) = Some f \<and> truncated BENCHMARK_MEMORY_SIZE f))
    \<and> (optimization_main load L H clock w arguments = Some BenchmarkUndefined \<longleftrightarrow> arguments = []
      \<or> length arguments = 2 \<and> (\<exists>f. load (arguments ! 1) = Some f \<and> truncated BENCHMARK_MEMORY_SIZE f))"
proof
  have s: "measureSample load L H clock filename c r w = Some Stuck
      \<longleftrightarrow> (\<exists>f. load filename = Some f \<and> truncated BENCHMARK_MEMORY_SIZE f)" for filename c r w
    using measureContext_stuck [OF assms] by (cases c) (simp add: sample_context)
  show "benchmark_main load L H clock w arguments = Some BenchmarkUndefined \<longleftrightarrow> arguments = []
      \<or> length arguments = 2 \<and> (\<exists>f. load (arguments ! 1) = Some f \<and> truncated BENCHMARK_MEMORY_SIZE f)"
    using engine_sample.benchmark_undefined [OF s, of engineCases] by (simp add: benchmark_main_def engineCases_def)
  have l: "measureLevel load L H clock filename c r w = Some Stuck
      \<longleftrightarrow> (\<exists>f. load filename = Some f \<and> truncated BENCHMARK_MEMORY_SIZE f)" for filename c r w
    using measureContext_stuck [OF assms] by (simp add: measureLevel_def)
  show "optimization_main load L H clock w arguments = Some BenchmarkUndefined \<longleftrightarrow> arguments = []
      \<or> length arguments = 2 \<and> (\<exists>f. load (arguments ! 1) = Some f \<and> truncated BENCHMARK_MEMORY_SIZE f)"
    using level_sample.benchmark_undefined [OF l, of levelCases] by (simp add: optimization_main_def levelCases_def)
qed

lemma benchmarks_are_safe_witness:
  "benchmark_main (\<lambda>_. None) reference_lib silent_host still_clock () [''toy_benchmark'', ''a.elf''] \<noteq> Some BenchmarkUndefined
   \<and> benchmark_main (\<lambda>_. Some cut_file) reference_lib silent_host still_clock () [''toy_benchmark'', ''a.elf'']
     = Some BenchmarkUndefined
   \<and> optimization_main (\<lambda>_. None) reference_lib silent_host still_clock () [] = Some BenchmarkUndefined"
proof -
  have "truncated BENCHMARK_MEMORY_SIZE cut_file"
    by (rule cut_file_truncated) (simp add: BENCHMARK_MEMORY_SIZE_def)
  then show ?thesis
    using benchmarks_are_safe [OF reference_lib_ok, of "\<lambda>_. Some cut_file" silent_host still_clock "()" "[''toy_benchmark'', ''a.elf'']"]
      benchmarks_are_safe [OF reference_lib_ok, of "\<lambda>_. None" silent_host still_clock "()" "[''toy_benchmark'', ''a.elf'']"]
      benchmarks_are_safe [OF reference_lib_ok, of "\<lambda>_. None" silent_host still_clock "()" "[]"] by simp
qed

text \<open>C18. A guest program that faults under the switch engine is never benchmarked as if it had worked:
  both programs end with status 1 without printing, although the JIT itself returns normally from
  the fault, because they check the status of the context.\<close>

theorem benchmarks_fail_on_faults:
  assumes "lib_ok L" "lib_total L" "load filename = Some f" "reader_ok f" "loadable BENCHMARK_MEMORY_SIZE f"
    and "faults L H f"
  shows "benchmark_main load L H clock w [prog, filename] = Some (BenchmarkEnded 1 [])
    \<and> optimization_main load L H clock w [prog, filename] = Some (BenchmarkEnded 1 [])"
proof -
  note none = no_sample_of_faults [where load = load and filename = filename and clock = clock, OF assms]
  obtain e s where "measureSample load L H clock filename (THREADED, 0) newResult w = Some (Throw e s)"
    using none [of THREADED 0 0 w newResult] by (auto simp: sample_context)
  moreover obtain e' s' where "measureLevel load L H clock filename 0 newResult w = Some (Throw e' s')"
    using none [of JIT 1 0 w newResult] by (auto simp: measureLevel_def)
  ultimately show ?thesis
    using engine_sample.benchmark_fails [of load L H clock filename "newCase ''threaded'' (THREADED, 0)" w]
      level_sample.benchmark_fails [of load L H clock filename "newCase ''jit-o0'' 0" w]
    by (simp add: benchmark_main_def optimization_main_def engineCases_def levelCases_def newCase_def)
qed

lemma fault_file_faults: "faults reference_lib (silent_host :: unit Host) fault_file"
proof -
  have "\<exists>T. run reference_lib silent_host (benchmarkContext SWITCH 0 0 w fault_file)
      = Some (Throw (SimulationException INVALID_INSTRUCTION) T) \<and> Status (State T) = FAULTED" for w :: unit
  proof (rule run_invalid)
    show "BlockCache (benchmarkContext SWITCH 0 0 w fault_file)
        = clear (BlockCache (ExecutionContext_new BENCHMARK_MEMORY_SIZE SWITCH 0 0 w))"
      by (simp add: benchmarkContext_def loaded_def)
    have "PC (Cpu (benchmarkContext SWITCH 0 0 w fault_file)) = 12"
      by (simp add: benchmarkContext_def loaded_def fault_file_def)
    then show "read32 (Memory (benchmarkContext SWITCH 0 0 w fault_file))
        (PC (Cpu (benchmarkContext SWITCH 0 0 w fault_file))) = Inr 0"
      by (simp add: benchmarkContext_def read32_fault_file BENCHMARK_MEMORY_SIZE_def)
  qed simp_all
  then show ?thesis unfolding faults_def by blast
qed

lemma benchmarks_fail_on_faults_witness:
  "benchmark_main (\<lambda>_. Some fault_file) reference_lib silent_host still_clock () [''toy_benchmark'', ''a.elf'']
     = Some (BenchmarkEnded 1 [])"
proof -
  have "loadable BENCHMARK_MEMORY_SIZE fault_file"
    by (rule fault_file_ok(2)) (simp add: BENCHMARK_MEMORY_SIZE_def)
  then show ?thesis
    using benchmarks_fail_on_faults [OF reference_lib_ok reference_lib_total _ fault_file_ok(3) _ fault_file_faults,
        of "\<lambda>_. Some fault_file" "''a.elf''"] by blast
qed

text \<open>C40. The printed statistics are of the samples: the minimum is the least sample, and the median is a
  sample such that more than half of the samples are at most it and at least half are at least it.\<close>

theorem printed_statistics:
  assumes "printResult name result = Some line"
  shows "(let xs = Samples result; least = LineMinimum line; med = LineMedian line in
     least \<in> set xs \<and> (\<forall>x \<in> set xs. least \<le> x)
     \<and> med \<in> set xs \<and> length xs < 2 * length (filter (\<lambda>x. x \<le> med) xs)
     \<and> length xs \<le> 2 * length (filter (\<lambda>x. med \<le> x) xs)) \<and> LineExitCode line = ResultExitCode result"
proof -
  obtain a b where "median (Samples result) = Some a" "minimum (Samples result) = Some b"
    "line = \<lparr>LineName = name, LineMedian = a, LineMinimum = b, LineExitCode = ResultExitCode result\<rparr>"
    using assms by (auto simp: printResult_def split: option.splits)
  then show ?thesis
    using median_middle [of "Samples result" a] minimum_least [of "Samples result" b] by (simp add: Let_def)
qed

lemma printed_statistics_witness:
  "\<exists>line. printResult ''switch'' \<lparr>Samples = [30, 10, 20, 40 :: int], ResultExitCode = 7\<rparr> = Some line
    \<and> LineMedian line = 30 \<and> LineMinimum line = 10 \<and> (\<forall>x \<in> {30, 10, 20, 40}. LineMinimum line \<le> x)"
proof -
  let ?r = "\<lparr>Samples = [30, 10, 20, 40 :: int], ResultExitCode = 7\<rparr>"
  obtain line where line: "printResult ''switch'' ?r = Some line" "LineMedian line = 30" "LineMinimum line = 10"
    by (simp add: printResult_def median_def)
  from printed_statistics [OF line(1)] show ?thesis using line by (auto simp: Let_def)
qed

end
