(* ===== verification/Spec2Isabelle.thy ===== *)
theory Spec2Isabelle
  imports AssembledProgram Unflushed CommandLine Benchmark
begin

text \<open>
  A verification development for the Toy ISA emulator: a 32-bit instruction set interpreter
  with three execution engines (switch, threaded, JIT), an ELF loader, a block cache with
  invalidation, a system-call emulator, the assembler with the program that writes the ELF files,
  and the benchmark programs.

  \<^bold>\<open>The program and its model.\<close> Every C++ function is one definition with the name it has in the
  source; paths are below \<open>src/\<close>.

  \<^item> \<open>Prelude\<close>: machine words, the error codes of \<open>include/toy/execution_state.hpp\<close>, outcomes of
    a computation (\<open>Done\<close>, \<open>Throw\<close> with an exception and the state it leaves, \<open>Stuck\<close> for what C++
    leaves undefined) and stores into byte lists.
  \<^item> \<open>BitUtils\<close>: \<open>include/toy/bitutils.hpp\<close> and the constants of \<open>toy_constants.hpp\<close>.
  \<^item> \<open>GuestMemory\<close>: \<open>include/toy/memory.hpp\<close>. The locale \<open>word_store\<close> states what a word memory
    promises; \<open>guest\<close> is its interpretation on \<open>read32\<close> and \<open>write32\<close>.
  \<^item> \<open>Alu\<close>: the arithmetic helpers of \<open>src/toy/executor.cpp\<close>.
  \<^item> \<open>Instruction\<close>, \<open>Decoder\<close>: \<open>include/toy/instruction.hpp\<close> and \<open>src/toy/decoder.cpp\<close>. The locale
    \<open>decode_table\<close> (mutually exclusive entries) is interpreted on \<open>DecodeVector\<close>.
  \<^item> \<open>BlockCache\<close>, \<open>CacheInvariants\<close>: \<open>basic_block_cache.hpp\<close> and \<open>.cpp\<close>. Unordered maps are
    functions to options. \<open>NativeCode\<close> is the code the JIT has mapped; a block that is destroyed
    unmaps its own. The locale \<open>code_cache\<close> is what the executors rely on in a cache.
  \<^item> \<open>Syscalls\<close>: \<open>cpu_state.hpp\<close>, \<open>execution_state.hpp\<close> and \<open>syscall_emulator.cpp\<close>. What the host
    does (\<open>read\<close>, \<open>write\<close>, numbers from standard input) is a record of functions over an abstract
    world; \<open>host_ok\<close> says that \<open>read\<close> returns no more bytes than asked for.
  \<^item> \<open>Executor\<close>, \<open>SwitchExecutor\<close>, \<open>ThreadedExecutor\<close>: the execution context, one definition per
    \<open>execute*\<close> function, and the two interpreters. The locale \<open>block_engine\<close> is what an engine
    promises for a block; both interpreters are interpretations of it.
  \<^item> \<open>IrSyntax\<close>, \<open>JitEncoder\<close>, \<open>IrSemantics\<close>, \<open>JitCorrect\<close>: \<open>jit_executor.cpp\<close> as a compiler. The
    encoders return the list of IR nodes they emit; \<open>ir_run\<close> is the meaning of such a list, node by
    node, where a block that is not reached is skipped to its merge.
  \<^item> \<open>JitExecutor\<close>: compilation, ownership of mapped code, and \<open>executeJitBlock\<close>. The IR library is
    a parameter (record \<open>ir_lib\<close>): \<open>lib_ok\<close> says that it maps code where nothing is mapped and that
    mapped code behaves as its nodes mean; \<open>lib_total\<close> that it does not run out of memory.
  \<^item> \<open>ContextRun\<close>, \<open>SwitchView\<close>, \<open>JitRefinement\<close>: \<open>step\<close> and \<open>run\<close> of
    \<open>src/toy/execution_context.cpp\<close>. \<open>run\<close> is a partial function, \<open>None\<close> being a call that does not
    return; \<open>run_fuel\<close> bounds the number of steps, and a run returns exactly when some bound is
    enough (\<open>run_iff_fuel\<close>). The locale \<open>engine_view\<close> lifts a map that commutes with every step to
    runs; its interpretations compare the engines.
  \<^item> \<open>Architecture\<close>, \<open>Manual\<close>: \<open>arch\<close> is the architectural part of a context. \<open>Manual\<close> transcribes
    \<open>docs/TOY_ISA_5.pdf\<close>, per instruction the fixed fields of its encoding and its effect
    (\<open>page_*\<close>), independently of the decoder and the execute functions; a page has no result where the
    manual says nothing. \<open>unsaid\<close> is what the code does there, \<open>strays\<close> the accesses it reports otherwise
    than the manual, and \<open>implemented\<close> the instruction set that results. The pages in the order of the
    code's checks (\<open>emulated_*\<close>) are a step of the proof.
  \<^item> \<open>IsaSpec\<close>: the instruction set as an abstract machine: \<open>isa_step\<close> fetches a word and does what
    \<open>implemented\<close> says, without blocks or cache; the inductive relation \<open>isa_path\<close> is its steps.
  \<^item> \<open>FlushDiscipline\<close>, \<open>Unflushed\<close>: self-modifying programs. A store log beside the machine
    (\<open>isa_trace\<close>) says which bytes were changed and not yet published by FLUSH; \<open>flushes_code\<close> is a
    program that never executes such a byte. \<open>Unflushed\<close> is a program for which it makes a difference.
  \<^item> \<open>Loader\<close>, \<open>CommandLine\<close>, \<open>ElfWriter\<close>: \<open>loadBinary\<close>, \<open>src/main.cpp\<close> and
    \<open>assembler/elf_writer.cpp\<close>. ELFIO is a parameter: the values its accessors return, and whether a
    file can be saved. \<open>reader_ok\<close> is a file that ELFIO has read whole; \<open>truncated\<close> one of which the
    loader copies more than there is. The vectors of arguments may be empty, as the operating system
    allows; the programs then use a null program name.
  \<^item> \<open>Assembler\<close>, \<open>AssemblerCorrect\<close>, \<open>AssembledProgram\<close>: the Ruby assembler under \<open>assembler/\<close>, its
    state and encoder, \<open>toy_as.rb\<close>, and the chain from a source file to the machine. \<open>meaning\<close> is what
    an instruction of the assembler stands for, without a bit of its encoding. A source file is the
    sequence of calls it makes; evaluating Ruby is a parameter.
  \<^item> \<open>Programs\<close>, \<open>Benchmark\<close>: runs in any mode, sample guest programs, and the two programs under
    \<open>benchmark/\<close> with the clock as a parameter.
  \<^item> \<open>Spec2Isabelle\<close>: the properties of the whole process, among them the composition of loader,
    engines and instruction set: what the machine computes is what the process prints.

  \<^bold>\<open>What is shown.\<close> Decoding and executing a word has the effect its page of the manual gives it, with
  two deviations: the all-zero word, NOP in the manual, is an invalid instruction, and a misaligned
  access outside the memory is reported as out of bounds. Where the manual says nothing (aligned
  accesses outside the memory, SSAT to 0 bits, system calls, FLUSH, other words) the code does what
  \<open>unsaid\<close> says. The switch and threaded engines implement the machine of this instruction set for every program
  that follows the FLUSH discipline, self-modifying programs included. The JIT
  refines the switch engine: a run under the JIT returns exactly when the run of the interpreter
  does, with the same state, up to the exceptions it turns into a FAULTED return. The generated code of a block does what the interpreter does with it. The threaded engine
  is equal to the switch engine. No run in any mode reaches undefined behaviour, and a process does
  exactly when it is started without any argument or loads a truncated file; entry slots never
  lead to unmapped code. Cached code agrees with the memory except where a store was recorded, FLUSH
  removes exactly that, and the read system call is the one hole. Loading places the segments and
  nothing else, and what the ELF writer wrote loads. Assembler and decoder agree on every
  instruction, labels included and jumps from below 2^28, so the machine executes the source file. The benchmark
  programs sample every engine evenly, report the exit code the switch engine gives, and never
  report a program that faults. The arithmetic helpers, the decoder and the command line are
  characterised on every input.

  \<^bold>\<open>Not modelled.\<close> The texts of error messages; the native code itself and the optimiser of the IR
  library (third-party, \<open>lib_ok\<close>); ELFIO (third-party); the
  tests, and the scripts that run the benchmarks and plot their results. The bodies of \<open>ir_init\<close> and \<open>ir_free\<close> have no effect the program sees.
\<close>

section \<open>The emulator process\<close>

text \<open>The context \<open>main\<close> builds from its options, before and after loading.\<close>

definition main_context :: "CommandLineOptions \<Rightarrow> 'w \<Rightarrow> 'w ExecutionContext" where
  "main_context options w = ExecutionContext_new MEMORY_SIZE (OptMode options)
     (OptJitThreshold options) (OptJitOptimizationLevel options) w"

lemma main_context_ok:
  "wf_cpu (Cpu (main_context options w))" "length (Bytes (Memory (main_context options w))) = MEMORY_SIZE"
  "Mode (main_context options w) = OptMode options"
  "JitThreshold (main_context options w) = OptJitThreshold options" "BlockCache (main_context options w) = emptyCache"
  by (simp_all add: main_context_def ExecutionContext_new_def wf_cpu_def TICpuState_new_def TIMemory_new_def)

lemma main_load:
  assumes "loadBinary load (main_context options w) fn 0 = Done D"
  shows "run_ok D" "Status (State D) = RUNNING" "Mode D = OptMode options"
    "JitThreshold D = OptJitThreshold options"
proof -
  let ?C = "main_context options w"
  obtain f where f: "load fn = Some f" using assms by (auto simp: loadBinary_def split: option.splits)
  have D: "D = loaded ?C f" by (rule loadBinary_done(2) [OF f assms])
  have "length (Bytes (Memory ?C)) < 2 ^ 32" "jit_ok (BlockCache ?C)"
    by (simp_all add: main_context_ok MEMORY_SIZE_def jit_ok_empty)
  from loaded_run_ok(1) [OF main_context_ok(1) this, of f]
  show "run_ok D" "Status (State D) = RUNNING" "Mode D = OptMode options"
    "JitThreshold D = OptJitThreshold options"
    by (simp_all add: D loaded_def reset_def main_context_ok)
qed

text \<open>How a process that got its options ends: it copies what is not there, fails to load, or runs.\<close>

lemma main_cases:
  assumes "parseCommandLine arguments = Inr options"
  obtains (stuck) f where "load (Filename options) = Some f" "truncated MEMORY_SIZE f"
      "main_program load L H w arguments = Some Undefined_behaviour"
  | (failed) C1 where "main_program load L H w arguments = Some (Ended 1 None (Some C1))"
      "\<exists>x. loadBinary load (main_context options w) (Filename options) 0 = Throw x C1"
  | (ran) C1 where "loadBinary load (main_context options w) (Filename options) 0 = Done C1"
      "run_ok C1" "Status (State C1) = RUNNING" "Mode C1 = OptMode options"
      "JitThreshold C1 = OptJitThreshold options"
      "main_program load L H w arguments =
         (case run L H C1 of
            None \<Rightarrow> None
          | Some Stuck \<Rightarrow> Some Undefined_behaviour
          | Some (Throw e C2) \<Rightarrow> Some (Ended 1 None (Some C2))
          | Some (Done C2) \<Rightarrow> Some (Ended 0 (Some (ExitCode (State C2))) (Some C2)))"
proof -
  have m: "main_program load L H w arguments =
     (case loadBinary load (main_context options w) (Filename options) 0 of
        Throw e C1 \<Rightarrow> Some (Ended 1 None (Some C1))
      | Stuck \<Rightarrow> Some Undefined_behaviour
      | Done C1 \<Rightarrow> (case run L H C1 of
            None \<Rightarrow> None
          | Some Stuck \<Rightarrow> Some Undefined_behaviour
          | Some (Throw e C2) \<Rightarrow> Some (Ended 1 None (Some C2))
          | Some (Done C2) \<Rightarrow> Some (Ended 0 (Some (ExitCode (State C2))) (Some C2))))"
    using assms by (simp add: main_program_def Let_def main_context_def)
  show ?thesis
  proof (cases "loadBinary load (main_context options w) (Filename options) 0")
    case (Done C1)
    then show ?thesis using ran [OF Done main_load [OF Done]] m by simp
  next
    case (Throw x C1)
    then show ?thesis using failed [of C1] m by simp
  next
    case Stuck
    then obtain f where "load (Filename options) = Some f" "truncated MEMORY_SIZE f"
      by (auto simp: loadBinary_stuck main_context_ok)
    then show ?thesis using stuck m Stuck by simp
  qed
qed

text \<open>C13. The emulator process does what C++ leaves undefined in two cases only, and then always: it is
  started with an empty argument vector, whose null program name it appends to the usage message, or
  the ELF file passes the loader's checks up to a segment of whose contents the ELF reader has less
  than the file size says (a truncated file), which the loader copies all the same. Whatever its other
  arguments, the file and the guest program are, it loads and runs, prints an error, or runs
  forever.\<close>

theorem process_is_safe:
  assumes "lib_ok L"
  shows "main_program load L H w arguments = Some Undefined_behaviour \<longleftrightarrow> arguments = []
    \<or> (\<exists>options f. parseCommandLine arguments = Inr options \<and> load (Filename options) = Some f
         \<and> truncated MEMORY_SIZE f)"
proof (cases "parseCommandLine arguments")
  case (Inl e)
  then have "e = NullProgramName \<longleftrightarrow> arguments = []" by (rule null_program_name)
  then show ?thesis using Inl by (auto simp: main_program_def)
next
  case (Inr options)
  have a: "arguments \<noteq> []" using Inr by (auto simp: parseCommandLine_def)
  from Inr show ?thesis
  proof (cases rule: main_cases [where load = load and L = L and H = H and w = w])
    case (stuck f)
    then show ?thesis using Inr by auto
  next
    case (failed C1)
    have "\<not> truncated MEMORY_SIZE f" if "load (Filename options) = Some f" for f
    proof -
      have "loadBinary load (main_context options w) (Filename options) 0 \<noteq> Stuck" using failed(2) by auto
      then show ?thesis using that by (simp add: loadBinary_stuck main_context_ok)
    qed
    then show ?thesis using failed(1) Inr a by auto
  next
    case (ran C1)
    have "\<not> truncated MEMORY_SIZE f" if "load (Filename options) = Some f" for f
    proof -
      have "loadBinary load (main_context options w) (Filename options) 0 \<noteq> Stuck" using ran(1) by simp
      then show ?thesis using that by (simp add: loadBinary_stuck main_context_ok)
    qed
    moreover have "main_program load L H w arguments \<noteq> Some Undefined_behaviour"
      using run_safe [OF assms ran(2), of H] ran(6) by (auto split: option.splits outcome.splits)
    ultimately show ?thesis using Inr a by auto
  qed
qed

lemma process_is_safe_witness:
  "main_program (\<lambda>_. None) reference_lib silent_host () [''toy'', ''a.elf''] \<noteq> Some Undefined_behaviour
   \<and> main_program (\<lambda>_. Some cut_file) reference_lib silent_host () [''toy'', ''a.elf''] = Some Undefined_behaviour
   \<and> main_program (\<lambda>_. None) reference_lib silent_host () [] = Some Undefined_behaviour"
proof -
  have p: "parseCommandLine [''toy'', ''a.elf''] = Inr (defaultOptions ''a.elf'')" by (simp add: parseCommandLine_def)
  have "truncated MEMORY_SIZE cut_file" by (rule cut_file_truncated) (simp add: MEMORY_SIZE_def)
  then show ?thesis
    using process_is_safe [OF reference_lib_ok, of "\<lambda>_. Some cut_file" silent_host "()" "[''toy'', ''a.elf'']"]
      process_is_safe [OF reference_lib_ok, of "\<lambda>_. None" silent_host "()" "[''toy'', ''a.elf'']"]
      process_is_safe [OF reference_lib_ok, of "\<lambda>_. None" silent_host "()" "[]"] p by simp
qed

lemma run_stops: "run_fuel n L H C = Some (Done D) \<Longrightarrow> Status (State D) \<noteq> RUNNING"
  by (induction n arbitrary: C) (auto split: if_splits option.splits outcome.splits)

text \<open>C14. The exit status of the process: it is 0 or 1; with 0 the guest's exit code was printed, and in
  the switch and threaded modes the guest really exited; with 1 nothing was printed, and either the
  command line was rejected, or the load threw, or the run of the loaded program ended in an
  exception.\<close>

theorem process_exit_status:
  assumes "lib_ok L"
    and "main_program load L H w arguments = Some (Ended status printed final)"
  shows "status = 0 \<and> (\<exists>D. final = Some D \<and> printed = Some (ExitCode (State D))
        \<and> (Status (State D) = HALTED \<or> Mode D = JIT \<and> Status (State D) = FAULTED))
    \<or> status = 1 \<and> printed = None
      \<and> ((\<exists>e. parseCommandLine arguments = Inl e)
         \<or> (\<exists>options x C1. parseCommandLine arguments = Inr options
              \<and> loadBinary load (main_context options w) (Filename options) 0 = Throw x C1)
         \<or> (\<exists>options C1 x C2. parseCommandLine arguments = Inr options
              \<and> loadBinary load (main_context options w) (Filename options) 0 = Done C1
              \<and> run L H C1 = Some (Throw x C2)))"
proof (cases "parseCommandLine arguments")
  case (Inl e)
  then show ?thesis using assms(2) by (auto simp: main_program_def split: if_splits)
next
  case (Inr options)
  from Inr show ?thesis
  proof (cases rule: main_cases [where load = load and L = L and H = H and w = w])
    case (ran C1)
    note run = ran(6) assms(2)
    show ?thesis
    proof (cases "run L H C1")
      case (Some r)
      note safe = run_safe [OF assms(1) ran(2) Some]
      show ?thesis
      proof (cases r)
        case (Done D)
        have "Status (State D) \<noteq> RUNNING" using run_run_fuel [OF Some] Done run_stops by blast
        moreover have "Mode D = Mode C1" using safe Done by (simp add: instr_frame_def)
        moreover have "Mode C1 \<noteq> JIT \<Longrightarrow> Status (State D) = HALTED"
          using run_end [OF ran(2) _ ran(3) Some] Done by simp
        ultimately show ?thesis using run Some Done by (cases "Status (State D)") auto
      next
        case (Throw x C2)
        then show ?thesis using run Some ran(1) Inr by auto
      qed (use safe in simp)
    qed (use run in simp)
  qed (use assms(2) Inr in auto)
qed

lemma process_exit_status_witness:
  "\<exists>C1. main_program (\<lambda>_. None) reference_lib silent_host () [''toy'', ''a.elf''] = Some (Ended 1 None (Some C1))"
proof -
  obtain status C1 where m: "main_program (\<lambda>_. None) reference_lib silent_host () [''toy'', ''a.elf'']
      = Some (Ended status None (Some C1))"
    by (simp add: main_program_def parseCommandLine_def loadBinary_def Let_def)
  from process_exit_status [OF reference_lib_ok m] have "status = 1" by auto
  with m show ?thesis by blast
qed

section \<open>The engines seen from the command line\<close>

lemma parse_engine:
  "parseCommandLine [prog, filename, ''--engine=switch''] = Inr (defaultOptions filename\<lparr>OptMode := SWITCH\<rparr>)"
  "parseCommandLine [prog, filename, ''--engine=jit''] = Inr (defaultOptions filename\<lparr>OptMode := JIT\<rparr>)"
  by (simp_all add: parseCommandLine_def parseArgument_def)

lemma failed_load_is_running:
  assumes "loadBinary load (main_context options w) fn 0 = Throw x D"
  shows "Status (State D) = RUNNING"
proof -
  have r: "Status (State (main_context options w)) = RUNNING"
    by (simp add: main_context_def ExecutionContext_new_def TIExecutionState_new_def)
  show ?thesis
  proof (cases "load fn")
    case None
    then show ?thesis using assms r by (simp add: loadBinary_def)
  next
    case (Some f)
    then show ?thesis
      by (cases rule: loadBinary_cases [where C = "main_context options w"]) (use assms r in auto)
  qed
qed

text \<open>Loading does not look at the mode.\<close>

lemma load_jit_switch:
  assumes "loadBinary load (main_context (o1\<lparr>OptMode := SWITCH\<rparr>) w) fn 0 = Done S"
  obtains J where "loadBinary load (main_context (o1\<lparr>OptMode := JIT\<rparr>) w) fn 0 = Done J"
    "J\<lparr>Mode := SWITCH\<rparr> = S"
proof -
  let ?S = "main_context (o1\<lparr>OptMode := SWITCH\<rparr>) w" and ?J = "main_context (o1\<lparr>OptMode := JIT\<rparr>) w"
  obtain f where f: "load fn = Some f" using assms by (auto simp: loadBinary_def split: option.splits)
  have "S = loaded ?S f" by (rule loadBinary_done(2) [OF f assms])
  moreover have "loadBinary load ?J fn 0 = Done (loaded ?J f)"
    using f
  proof (cases rule: loadBinary_cases [where C = ?S])
    case loaded
    from f show ?thesis by (cases rule: loadBinary_cases [where C = ?J]) (use loaded in \<open>simp_all add: main_context_ok\<close>)
  qed (use assms in simp_all)
  moreover have "(loaded ?J f)\<lparr>Mode := SWITCH\<rparr> = loaded ?S f"
    by (simp add: loaded_def main_context_def ExecutionContext_new_def)
  ultimately show ?thesis using that by blast
qed

lemma run_fault_file:
  "\<exists>T. main_program (\<lambda>_. Some fault_file) L H w [prog, filename, ''--engine=switch''] = Some (Ended 1 None (Some T))
     \<and> Status (State T) = FAULTED"
proof -
  let ?o = "defaultOptions filename\<lparr>OptMode := SWITCH\<rparr>"
  let ?C = "loaded (main_context ?o w) fault_file"
  have l: "loadBinary (\<lambda>_. Some fault_file) (main_context ?o w) (Filename ?o) 0 = Done ?C"
    using loadBinary_loadable [of "\<lambda>_. Some fault_file" "Filename ?o" fault_file "main_context ?o w"]
      fault_file_ok by (simp add: main_context_ok MEMORY_SIZE_def)
  have "\<exists>T. run L H ?C = Some (Throw (SimulationException INVALID_INSTRUCTION) T) \<and> Status (State T) = FAULTED"
  proof (rule run_invalid)
    show "Status (State ?C) = RUNNING" "Mode ?C = SWITCH"
      by (simp_all add: loaded_def reset_def main_context_ok)
    show "BlockCache ?C = clear (BlockCache (main_context ?o w))" by (simp add: loaded_def)
    have "PC (Cpu ?C) = 12" by (simp add: loaded_def fault_file_def)
    then show "read32 (Memory ?C) (PC (Cpu ?C)) = Inr 0" by (simp add: main_context_def read32_fault_file MEMORY_SIZE_def)
  qed
  then show ?thesis using l parse_engine(1) [of prog filename]
    by (auto simp: main_program_def main_context_def Let_def)
qed

text \<open>C16. A guest program that faults is reported as a success by the JIT: with --engine=switch the
  process prints the error and ends with exit status 1, with --engine=jit and the default threshold
  the same file makes it print an exit code and end with status 0, the context being FAULTED.\<close>

theorem jit_reports_success_on_faults:
  assumes "lib_ok L" "lib_total L"
    and "main_program load L H w [prog, filename, ''--engine=switch''] = Some (Ended 1 None (Some T))"
    and "Status (State T) = FAULTED"
  shows "\<exists>D. main_program load L H w [prog, filename, ''--engine=jit'']
      = Some (Ended 0 (Some (ExitCode (State D))) (Some D)) \<and> Status (State D) = FAULTED"
  using parse_engine(1) [of prog filename]
proof (cases rule: main_cases [where load = load and L = L and H = H and w = w])
  case (stuck f)
  then show ?thesis using assms(3) by simp
next
  case (failed C1)
  then show ?thesis using failed_load_is_running assms(3,4) by fastforce
next
  case switch: (ran S)
  obtain J where J: "loadBinary load (main_context (defaultOptions filename\<lparr>OptMode := JIT\<rparr>) w) filename 0 = Done J"
      "J\<lparr>Mode := SWITCH\<rparr> = S"
    using load_jit_switch [of load "defaultOptions filename" w filename S] switch(1)
    by (auto simp: defaultOptions_def)
  obtain x where x: "run L H (J\<lparr>Mode := SWITCH\<rparr>) = Some (Throw x T)"
    using switch(6) assms(3) by (auto simp: J(2) split: option.splits outcome.splits)
  from parse_engine(2) [of prog filename] show ?thesis
  proof (cases rule: main_cases [where load = load and L = L and H = H and w = w])
    case (stuck f)
    then have "loadBinary load (main_context (defaultOptions filename\<lparr>OptMode := JIT\<rparr>) w) filename 0 = Stuck"
      by (simp add: loadBinary_stuck main_context_ok defaultOptions_def)
    then show ?thesis using J(1) by simp
  next
    case (ran J')
    then have "J' = J" using J(1) by (simp add: defaultOptions_def)
    then show ?thesis
      using ran jit_returns_faulted [OF assms(1,2) ran(2) _ _ x [folded \<open>J' = J\<close>] assms(4)]
      by (auto simp: defaultOptions_def)
  qed (use J(1) in \<open>auto simp: defaultOptions_def\<close>)
qed

lemma jit_reports_success_on_faults_witness:
  "\<exists>D. main_program (\<lambda>_. Some fault_file) reference_lib silent_host () [''toy'', ''a.elf'', ''--engine=jit'']
      = Some (Ended 0 (Some (ExitCode (State D))) (Some D)) \<and> Status (State D) = FAULTED"
proof -
  obtain T where T: "main_program (\<lambda>_. Some fault_file) reference_lib silent_host ()
      [''toy'', ''a.elf'', ''--engine=switch''] = Some (Ended 1 None (Some T))" "Status (State T) = FAULTED"
    using run_fault_file [of reference_lib silent_host "()" "''toy''" "''a.elf''"] by blast
  show ?thesis
    by (rule jit_reports_success_on_faults [OF reference_lib_ok reference_lib_total T])
qed

section \<open>From the file to the exit code\<close>

text \<open>C2. End to end, in every mode: when the ELF file loads and its program flushes the code
  it changes before it executes it, the emulator process ends with exit status 0 and prints the exit code when the
  instruction set machine, started at the file's entry point, exits; registers, memory and outside
  world are then the machine's.\<close>

theorem process_runs_the_program:
  assumes "lib_ok L" "lib_total L" "elfio_ok load" "parseCommandLine arguments = Inr options"
    and "load (Filename options) = Some f" "loadable MEMORY_SIZE f"
    and "flushes_code H (arch (loaded (main_context options w) f)) empty_log"
    and "isa_ends H (arch (loaded (main_context options w) f)) (Done E)"
  shows "\<exists>D. main_program load L H w arguments = Some (Ended 0 (Some (ExitCode (State E))) (Some D))
    \<and> Cpu D = Cpu E \<and> Bytes (Memory D) = Bytes (Memory E) \<and> State D = State E \<and> World D = World E"
proof -
  let ?C = "loaded (main_context options w) f"
  have l: "loadBinary load (main_context options w) (Filename options) 0 = Done ?C"
    using loadBinary_loadable [of load "Filename options" f "main_context options w"] assms(3,5,6)
    by (simp add: elfio_ok_def main_context_ok)
  have "fresh ?C" by (simp add: fresh_def loaded_def clear_def validCode_def)
  then obtain D where D: "run L H ?C = Some (Done D)" "Cpu D = Cpu E" "Bytes (Memory D) = Bytes (Memory E)"
      "State D = State E" "World D = World E"
    using run_any_mode [OF assms(1,2) main_load(1) [OF l] _ assms(7,8)] by blast
  have "main_program load L H w arguments = Some (Ended 0 (Some (ExitCode (State E))) (Some D))"
    using l D(1,4) assms(4) by (simp add: main_program_def main_context_def Let_def)
  then show ?thesis using D(2-5) by blast
qed

lemma process_runs_the_program_witness:
  "\<exists>D. main_program (\<lambda>_. Some exit_file) reference_lib silent_host () [''toy'', ''a.elf'', ''--engine=jit'']
     = Some (Ended 0 (Some 0) (Some D)) \<and> Registers (Cpu D) ! 8 = 60"
proof -
  let ?o = "defaultOptions ''a.elf''\<lparr>OptMode := JIT\<rparr>"
  have n: "16 \<le> MEMORY_SIZE" by (simp add: MEMORY_SIZE_def)
  note runs = exit_file_runs [OF n, of silent_host "OptMode ?o" "OptJitThreshold ?o" "OptJitOptimizationLevel ?o"
      "()", folded main_context_def]
  obtain E where E: "isa_ends silent_host (arch (loaded (main_context ?o ()) exit_file)) (Done E)"
    "State E = \<lparr>Status = HALTED, ExitCode = 0\<rparr>" "Registers (Cpu E) ! 8 = 60"
    using runs(2) by blast
  have "\<exists>D. main_program (\<lambda>_. Some exit_file) reference_lib silent_host () [''toy'', ''a.elf'', ''--engine=jit'']
      = Some (Ended 0 (Some (ExitCode (State E))) (Some D)) \<and> Cpu D = Cpu E
      \<and> Bytes (Memory D) = Bytes (Memory E) \<and> State D = State E \<and> World D = World E"
    by (rule process_runs_the_program [OF reference_lib_ok reference_lib_total exit_file_ok(1) parse_engine(2)
      refl exit_file_ok(2) [OF n] runs(1) E(1)])
  then show ?thesis using E(2,3) by auto
qed

end
